theory Spec2Isabelle
  imports Complex_Main
begin

section \<open>Strings and the standard-library helpers the service uses\<close>

text \<open>
  A Go string is a sequence of bytes; it is modelled as a \<open>string\<close> (a list of 8-bit
  characters), and a \<open>rune\<close> (an \<open>int32\<close>) as an integer.  The functions of \<open>strings\<close>
  that the service calls read their argument as UTF-8, so the decoding of \<open>unicode/utf8\<close>
  comes first.
\<close>

subsection \<open>UTF-8 (unicode/utf8)\<close>

type_synonym rune = int

definition RuneError :: rune where
  "RuneError = 0xFFFD"

text \<open>
  \<open>utf8.DecodeRuneInString\<close>: the first rune of the string and its width in bytes.  A
  sequence that is not the shortest encoding of a code point other than a surrogate gives
  \<open>(RuneError, 1)\<close>; the empty string gives \<open>(RuneError, 0)\<close>.  The second byte has to be in
  the range that the table \<open>acceptRanges\<close> gives for the first one.
\<close>

definition DecodeRuneInString :: "string \<Rightarrow> rune \<times> nat" where
  "DecodeRuneInString s =
     (if s = [] then (RuneError, 0)
      else
        let s0 = (of_char (s ! 0) :: nat) in
        if s0 < 0x80 then (int s0, 1)
        else if s0 < 0xC2 \<or> 0xF4 < s0 then (RuneError, 1)
        else
          let sz = (if s0 < 0xE0 then 2 else if s0 < 0xF0 then 3 else 4 :: nat);
              lo = (if s0 = 0xE0 then 0xA0 else if s0 = 0xF0 then 0x90 else 0x80 :: nat);
              hi = (if s0 = 0xED then 0x9F else if s0 = 0xF4 then 0x8F else 0xBF :: nat)
          in
          if length s < sz then (RuneError, 1)
          else
            let s1 = (of_char (s ! 1) :: nat) in
            if s1 < lo \<or> hi < s1 then (RuneError, 1)
            else if sz \<le> 2 then (int ((s0 mod 0x20) * 0x40 + s1 mod 0x40), 2)
            else
              let s2 = (of_char (s ! 2) :: nat) in
              if s2 < 0x80 \<or> 0xBF < s2 then (RuneError, 1)
              else if sz \<le> 3
              then (int ((s0 mod 0x10) * 0x1000 + (s1 mod 0x40) * 0x40 + s2 mod 0x40), 3)
              else
                let s3 = (of_char (s ! 3) :: nat) in
                if s3 < 0x80 \<or> 0xBF < s3 then (RuneError, 1)
                else (int ((s0 mod 8) * 0x40000 + (s1 mod 0x40) * 0x1000
                           + (s2 mod 0x40) * 0x40 + s3 mod 0x40), 4))"

text \<open>\<open>utf8.RuneStart\<close>: the byte is not a continuation byte.\<close>

definition RuneStart :: "char \<Rightarrow> bool" where
  "RuneStart b = ((of_char b :: nat) < 0x80 \<or> (0xC0 :: nat) \<le> of_char b)"

text \<open>
  \<open>utf8.DecodeLastRuneInString\<close>: the last rune of the string and its width.  When the
  last byte is not ASCII it looks to the left for a byte that starts a rune, over at most
  \<open>UTFMax = 4\<close> bytes,

  \<^verbatim>\<open>lim := end - UTFMax
  if lim < 0 { lim = 0 }
  for start--; start >= lim; start-- {
    if RuneStart(s[start]) { break }
  }
  if start < 0 { start = 0 }\<close>

  decodes from there, and answers \<open>(RuneError, 1)\<close> unless that rune ends where the string
  ends.
\<close>

definition lastRuneStart :: "string \<Rightarrow> int" where
  "lastRuneStart s =
     (let n = int (length s);
          lim = max 0 (n - 4);
          start = (case find (\<lambda>k. RuneStart (s ! nat k)) (rev [lim..n - 2]) of
                     Some k \<Rightarrow> k
                   | None \<Rightarrow> lim - 1)
      in if start < 0 then 0 else start)"

definition DecodeLastRuneInString :: "string \<Rightarrow> rune \<times> nat" where
  "DecodeLastRuneInString s =
     (let n = int (length s) in
      if n = 0 then (RuneError, 0)
      else
        let r0 = int (of_char (s ! nat (n - 1)) :: nat) in
        if r0 < 0x80 then (r0, 1)
        else
          let start = lastRuneStart s
          in case DecodeRuneInString (drop (nat start) s) of
               (r, wid) \<Rightarrow> if start + int wid \<noteq> n then (RuneError, 1) else (r, wid))"

text \<open>
  \<open>utf8.AppendRune\<close>, as \<open>strings.Builder.WriteRune\<close> uses it: the encoding of a rune that
  is not negative; a surrogate or a value above \<open>MaxRune\<close> is written as \<open>RuneError\<close>.
\<close>

definition EncodeRune :: "rune \<Rightarrow> string" where
  "EncodeRune r0 =
     (let r = nat r0 in
      if r \<le> 0x7F then [char_of r]
      else if r \<le> 0x7FF then [char_of (0xC0 + r div 0x40), char_of (0x80 + r mod 0x40)]
      else if 0x10FFFF < r \<or> (0xD800 \<le> r \<and> r \<le> 0xDFFF)
      then [CHR 0xEF, CHR 0xBF, CHR 0xBD]
      else if r \<le> 0xFFFF
      then [char_of (0xE0 + r div 0x1000), char_of (0x80 + (r div 0x40) mod 0x40),
            char_of (0x80 + r mod 0x40)]
      else [char_of (0xF0 + r div 0x40000), char_of (0x80 + (r div 0x1000) mod 0x40),
            char_of (0x80 + (r div 0x40) mod 0x40), char_of (0x80 + r mod 0x40)])"

text \<open>The loop \<^verbatim>\<open>for i, r := range s\<close> from byte \<open>i\<close> on: the index and the rune of every
  step; a byte that does not start a valid encoding is one step with \<open>RuneError\<close>.\<close>

function range_from :: "string \<Rightarrow> nat \<Rightarrow> (nat \<times> rune) list" where
  "range_from s i =
     (if i < length s
      then (case DecodeRuneInString (drop i s) of (r, wid) \<Rightarrow> (i, r) # range_from s (i + wid))
      else [])"
  by pat_completeness auto
termination
proof (relation "measure (\<lambda>(s, i). length s - i)", goal_cases)
  case 1
  show ?case by simp
next
  case (2 s i r wid)
  have "drop i s \<noteq> []" using 2(1) by simp
  then have "0 < snd (DecodeRuneInString (drop i s))"
    by (simp add: DecodeRuneInString_def Let_def)
  with 2 show ?case by (cases "DecodeRuneInString (drop i s)") auto
qed

declare range_from.simps [simp del]

subsection \<open>White space (unicode, strings)\<close>

text \<open>\<open>unicode.IsSpace\<close>: the code points with the Unicode property \<open>White_Space\<close>.\<close>

definition IsSpace :: "rune \<Rightarrow> bool" where
  "IsSpace r =
     (r = 0x09 \<or> r = 0x0A \<or> r = 0x0B \<or> r = 0x0C \<or> r = 0x0D \<or> r = 0x20 \<or> r = 0x85 \<or>
      r = 0xA0 \<or> r = 0x1680 \<or> (0x2000 \<le> r \<and> r \<le> 0x200A) \<or> r = 0x2028 \<or> r = 0x2029 \<or>
      r = 0x202F \<or> r = 0x205F \<or> r = 0x3000)"

text \<open>
  \<open>indexFunc\<close> and \<open>lastIndexFunc\<close> of package \<open>strings\<close>: the index of the first, and of
  the last, rune \<open>r\<close> with \<open>f(r) == truth\<close>, or \<open>-1\<close>.  The second decodes from the end:

  \<^verbatim>\<open>for i := len(s); i > 0; {
    r, size := utf8.DecodeLastRuneInString(s[0:i])
    i -= size
    if f(r) == truth { return i }
  }
  return -1\<close>
\<close>

definition indexFunc :: "string \<Rightarrow> (rune \<Rightarrow> bool) \<Rightarrow> bool \<Rightarrow> int" where
  "indexFunc s f truth =
     (case find (\<lambda>(i, r). f r = truth) (range_from s 0) of
        Some (i, r) \<Rightarrow> int i
      | None \<Rightarrow> - 1)"

function lastIndexFunc :: "string \<Rightarrow> (rune \<Rightarrow> bool) \<Rightarrow> bool \<Rightarrow> int" where
  "lastIndexFunc s f truth =
     (if s \<noteq> []
      then (case DecodeLastRuneInString s of
              (r, wid) \<Rightarrow>
                if f r = truth then int (length s - wid)
                else lastIndexFunc (take (length s - wid) s) f truth)
      else - 1)"
  by pat_completeness auto
termination
proof (relation "measure (\<lambda>(s, f, truth). length s)", goal_cases)
  case 1
  show ?case by simp
next
  case (2 s f truth r wid)
  have "0 < snd (DecodeLastRuneInString s)"
  proof -
    let ?n = "int (length s)"
    let ?lim = "max 0 (?n - 4)"
    let ?prev = "case find (\<lambda>k. RuneStart (s ! nat k)) (rev [?lim..?n - 2]) of
                   Some k \<Rightarrow> k | None \<Rightarrow> ?lim - 1"
    have "?prev \<le> ?n - 2"
    proof (cases "find (\<lambda>k. RuneStart (s ! nat k)) (rev [?lim..?n - 2])")
      case None
      moreover have "Suc 0 \<le> length s" using 2(1) by (cases s) simp_all
      ultimately show ?thesis by (simp add: max_def)
    next
      case (Some k)
      then have "k \<in> set (rev [?lim..?n - 2])" by (metis find_Some_iff nth_mem)
      then show ?thesis using Some by simp
    qed
    moreover have "0 < ?n" using 2(1) by simp
    ultimately have "lastRuneStart s < ?n" by (auto simp add: lastRuneStart_def Let_def)
    then show ?thesis
      using 2(1) by (auto simp add: DecodeLastRuneInString_def Let_def split: prod.splits)
  qed
  with 2 show ?case by (cases "DecodeLastRuneInString s") auto
qed

declare lastIndexFunc.simps [simp del]

text \<open>\<open>strings.TrimLeftFunc\<close> and \<open>strings.TrimRightFunc\<close>:

  \<^verbatim>\<open>i := indexFunc(s, f, false)
  if i == -1 { return "" }
  return s[i:]\<close>

  \<^verbatim>\<open>i := lastIndexFunc(s, f, false)
  if i >= 0 && s[i] >= utf8.RuneSelf {
    _, wid := utf8.DecodeRuneInString(s[i:])
    i += wid
  } else {
    i++
  }
  return s[0:i]\<close>
\<close>

definition TrimLeftFunc :: "string \<Rightarrow> (rune \<Rightarrow> bool) \<Rightarrow> string" where
  "TrimLeftFunc s f =
     (let i = indexFunc s f False in if i = - 1 then '''' else drop (nat i) s)"

definition TrimRightFunc :: "string \<Rightarrow> (rune \<Rightarrow> bool) \<Rightarrow> string" where
  "TrimRightFunc s f =
     (let i = lastIndexFunc s f False;
          i' = (if 0 \<le> i \<and> (0x80 :: nat) \<le> of_char (s ! nat i)
                then i + int (snd (DecodeRuneInString (drop (nat i) s)))
                else i + 1)
      in take (nat i') s)"

text \<open>
  \<open>strings.TrimSpace\<close>: all leading and trailing white space removed, as defined by
  Unicode.  It is \<open>TrimFunc(s, unicode.IsSpace)\<close>, that is
  \<open>TrimRightFunc(TrimLeftFunc(s, f), f)\<close>; the loops over ASCII bytes that the library runs
  first give the same result.
\<close>

definition TrimSpace :: "string \<Rightarrow> string" where
  "TrimSpace s = TrimRightFunc (TrimLeftFunc s IsSpace) IsSpace"

text \<open>
  \<open>strings.Map\<close>: every rune of the string replaced by its image, a negative image being
  dropped.  An invalid byte is read as \<open>RuneError\<close>, so its image is written in its place.
\<close>

definition Map :: "(rune \<Rightarrow> rune) \<Rightarrow> string \<Rightarrow> string" where
  "Map mapping s =
     concat (map (\<lambda>(i, c). let r = mapping c in if 0 \<le> r then EncodeRune r else [])
                 (range_from s 0))"

definition HasPrefix :: "string \<Rightarrow> string \<Rightarrow> bool" where
  "HasPrefix s p = (take (length p) s = p)"

text \<open>\<open>strings.Join\<close>: the elements separated by \<open>sep\<close>.\<close>

fun Join :: "string list \<Rightarrow> string \<Rightarrow> string" where
  "Join [] sep = []"
| "Join [x] sep = x"
| "Join (x # y # ys) sep = x @ sep @ Join (y # ys) sep"

text \<open>\<open>strings.Trim(s, cutset)\<close>: leading and trailing bytes of the cutset removed.\<close>

definition Trim :: "string \<Rightarrow> string \<Rightarrow> string" where
  "Trim s cutset =
     rev (dropWhile (\<lambda>c. c \<in> set cutset) (rev (dropWhile (\<lambda>c. c \<in> set cutset) s)))"

text \<open>
  The two regular expressions of the service: \<open>\D+\<close> matches maximal runs of bytes that
  are not ASCII digits, \<open>\s+\<close> maximal runs of the RE2 white-space class
  \<open>[\t\n\f\r ]\<close>.
\<close>

definition isDigit :: "char \<Rightarrow> bool" where
  "isDigit c = ((48::nat) \<le> of_char c \<and> of_char c \<le> (57::nat))"

definition nonDigitRegex_ReplaceAllString_empty :: "string \<Rightarrow> string" where
  "nonDigitRegex_ReplaceAllString_empty s = filter isDigit s"

definition isReSpace :: "char \<Rightarrow> bool" where
  "isReSpace c = (c = CHR 0x09 \<or> c = CHR 0x0A \<or> c = CHR 0x0C \<or> c = CHR 0x0D \<or> c = CHR '' '')"

function whitespaceRegex_ReplaceAllString_space :: "string \<Rightarrow> string" where
  "whitespaceRegex_ReplaceAllString_space [] = []"
| "whitespaceRegex_ReplaceAllString_space (c # cs) =
     (if isReSpace c
      then CHR '' '' # whitespaceRegex_ReplaceAllString_space (dropWhile isReSpace cs)
      else c # whitespaceRegex_ReplaceAllString_space cs)"
  by pat_completeness auto
termination
  by (relation "measure length") (auto simp: less_Suc_eq_le length_dropWhile_le)


section \<open>Values and the rest of the standard library\<close>

text \<open>
  A \<open>time.Time\<close> is the instant it denotes, counted in nanoseconds from Go's zero time, so
  that \<open>IsZero\<close> is the test against 0 and \<open>UTC()\<close>, which only changes the location, is the
  identity.  A \<open>float64\<close> is the real number it denotes (payloads are decoded from JSON,
  which has neither NaN nor infinities; both zeros are 0).  A value of type \<open>any\<close> is one
  of the dynamic values the store driver exchanges.
\<close>

type_synonym Time = int

definition IsZero :: "Time \<Rightarrow> bool" where
  "IsZero t = (t = 0)"

definition UTC :: "Time \<Rightarrow> Time" where
  "UTC t = t"

datatype any =
    AString string
  | AFloat real
  | AInt int
  | ATime Time
  | AList "any list"
  | AMap "(string \<times> any) list"
  | ANil

text \<open>
  Library functions that are not evaluated here are taken from a record of the standard
  library: the hexadecimal SHA-256 digest behind \<open>hashValue\<close>, the \<open>time.Format\<close>
  layouts and \<open>time.Parse\<close>, the text \<open>time.Time.String\<close> prints,
  \<open>json.Marshal\<close> on a metadata map (\<open>None\<close> when it fails), and the lower-case mapping
  of the Unicode tables, \<open>unicode.To(unicode.LowerCase, r)\<close>.
\<close>

record stdlib =
  sha256_hex :: "string \<Rightarrow> string"
  Format_DateOnly :: "Time \<Rightarrow> string"
  Format_RFC3339 :: "Time \<Rightarrow> string"
  Format_RFC3339Nano :: "Time \<Rightarrow> string"
  Parse_RFC3339Nano :: "string \<Rightarrow> Time option"
  Parse_RFC3339 :: "string \<Rightarrow> Time option"
  Time_String :: "Time \<Rightarrow> string"
  json_Marshal :: "(string \<times> any) list \<Rightarrow> string option"
  unicode_To_LowerCase :: "rune \<Rightarrow> rune"

subsection \<open>Lower case (unicode, strings)\<close>

text \<open>
  \<open>unicode.ToLower\<close> answers for an ASCII rune itself and asks the tables for the others.
  \<open>strings.ToLower\<close> lowers the letters \<open>A\<close>..\<open>Z\<close> when every byte of the string is
  ASCII, and is \<open>Map(unicode.ToLower, s)\<close> otherwise:

  \<^verbatim>\<open>isASCII, hasUpper := true, false
  for i := 0; i < len(s); i++ {
    c := s[i]
    if c >= utf8.RuneSelf { isASCII = false; break }
    hasUpper = hasUpper || ('A' <= c && c <= 'Z')
  }
  if isASCII {
    if !hasUpper { return s }
    ...
  }
  return Map(unicode.ToLower, s)\<close>
\<close>

definition unicode_ToLower :: "stdlib \<Rightarrow> rune \<Rightarrow> rune" where
  "unicode_ToLower lib r =
     (if r \<le> 0x7F then (if 0x41 \<le> r \<and> r \<le> 0x5A then r + 0x20 else r)
      else unicode_To_LowerCase lib r)"

definition isUpper :: "char \<Rightarrow> bool" where
  "isUpper c = ((0x41::nat) \<le> of_char c \<and> of_char c \<le> (0x5A::nat))"

definition lowerChar :: "char \<Rightarrow> char" where
  "lowerChar c = (if isUpper c then char_of (of_char c + (0x20::nat)) else c)"

definition ToLower :: "stdlib \<Rightarrow> string \<Rightarrow> string" where
  "ToLower lib s =
     (if list_all (\<lambda>c. (of_char c :: nat) < 0x80) s
      then (if \<not> list_ex isUpper s then s else map lowerChar s)
      else Map (unicode_ToLower lib) s)"

subsection \<open>Normalisation (service/normalization.go)\<close>

definition normalizeEmail :: "stdlib \<Rightarrow> string \<Rightarrow> string" where
  "normalizeEmail lib email = TrimSpace (ToLower lib email)"

definition normalizePhone :: "string \<Rightarrow> string" where
  "normalizePhone phone0 =
     (let phone1 = TrimSpace phone0;
          phone2 = nonDigitRegex_ReplaceAllString_empty phone1
      in if phone2 = '''' then ''''
         else let phone3 = (if HasPrefix phone2 ''00'' then drop 2 phone2 else phone2)
              in if \<not> HasPrefix phone3 ''+'' then ''+'' @ phone3 else phone3)"

record AddressInput =
  Line1 :: string
  Line2 :: string
  City :: string
  State :: string
  PostalCode :: string
  Country :: string

definition components :: "stdlib \<Rightarrow> AddressInput \<Rightarrow> string list" where
  "components lib addr =
     [ToLower lib (TrimSpace (Line1 addr)),
      ToLower lib (TrimSpace (Line2 addr)),
      ToLower lib (TrimSpace (City addr)),
      ToLower lib (TrimSpace (State addr)),
      ToLower lib (TrimSpace (PostalCode addr)),
      ToLower lib (TrimSpace (Country addr))]"

definition normalizeAddress :: "stdlib \<Rightarrow> AddressInput \<Rightarrow> string" where
  "normalizeAddress lib addr = Join (components lib addr) ''|''"

definition sanitizeString :: "string \<Rightarrow> string" where
  "sanitizeString v = TrimSpace (whitespaceRegex_ReplaceAllString_space v)"

section \<open>Payloads and domain values (service/types.go, domain)\<close>

record PaymentMethodInput =
  pmi_ID :: string
  pmi_MethodType :: string
  pmi_Provider :: string
  pmi_Masked :: string
  pmi_Fingerprint :: string
  pmi_FirstUsedAt :: "Time option"
  pmi_LastUsedAt :: "Time option"

record AttributeInput =
  ai_Type :: string
  ai_Value :: string
  ai_RawValue :: string
  ai_ConfidenceScore :: real

record UserInput =
  ui_ID :: string
  ui_FullName :: string
  ui_Email :: string
  ui_Phone :: string
  ui_Address :: AddressInput
  ui_DateOfBirth :: "Time option"
  ui_KYCStatus :: string
  ui_RiskScore :: real
  ui_PaymentMethods :: "PaymentMethodInput list"
  ui_Attributes :: "AttributeInput list"
  ui_CreatedAt :: "Time option"
  ui_UpdatedAt :: "Time option"

record TransactionInput =
  ti_ID :: string
  ti_SenderUserID :: string
  ti_ReceiverUserID :: string
  ti_Amount :: real
  ti_Currency :: string
  ti_Type :: string
  ti_Status :: string
  ti_Channel :: string
  ti_IPAddress :: string
  ti_DeviceID :: string
  ti_PaymentMethodID :: string
  ti_Timestamp :: Time
  ti_Metadata :: "(string \<times> any) list"
  ti_CreatedAt :: "Time option"
  ti_UpdatedAt :: "Time option"

record Address =
  addr_Line1 :: string
  addr_Line2 :: string
  addr_City :: string
  addr_State :: string
  addr_PostalCode :: string
  addr_Country :: string

record Attribute =
  Type :: string
  Value :: string
  RawValue :: string
  ConfidenceScore :: real

record PaymentMethod =
  pm_ID :: string
  pm_MethodType :: string
  pm_Provider :: string
  pm_Masked :: string
  pm_Fingerprint :: string
  pm_FirstUsedAt :: "Time option"
  pm_LastUsedAt :: "Time option"

record User =
  u_ID :: string
  u_FullName :: string
  u_Email :: string
  u_Phone :: string
  u_Address :: Address
  u_DateOfBirth :: "Time option"
  u_KYCStatus :: string
  u_RiskScore :: real
  u_Attributes :: "Attribute list"
  u_PaymentMethods :: "PaymentMethod list"
  u_CreatedAt :: Time
  u_UpdatedAt :: Time

record Transaction =
  tx_ID :: string
  tx_SenderUserID :: string
  tx_ReceiverUserID :: string
  tx_Amount :: real
  tx_Currency :: string
  tx_Type :: string
  tx_Status :: string
  tx_Channel :: string
  tx_IPAddress :: string
  tx_DeviceID :: string
  tx_PaymentMethodID :: string
  tx_Timestamp :: Time
  tx_Metadata :: "(string \<times> any) list"
  tx_CreatedAt :: Time
  tx_UpdatedAt :: Time

definition ToDomainAddress :: "AddressInput \<Rightarrow> Address" where
  "ToDomainAddress a =
     \<lparr>addr_Line1 = Line1 a, addr_Line2 = Line2 a, addr_City = City a,
      addr_State = State a, addr_PostalCode = PostalCode a, addr_Country = Country a\<rparr>"

section \<open>Attribute generation (service/attribute_generator.go)\<close>

definition hashValue :: "stdlib \<Rightarrow> string \<Rightarrow> string" where
  "hashValue lib v = sha256_hex lib v"

definition AttributeTypeEmail :: string where "AttributeTypeEmail = ''EMAIL''"
definition AttributeTypePhone :: string where "AttributeTypePhone = ''PHONE''"
definition AttributeTypeAddress :: string where "AttributeTypeAddress = ''ADDRESS''"
definition AttributeTypeIPAddress :: string where "AttributeTypeIPAddress = ''IP''"
definition AttributeTypeDevice :: string where "AttributeTypeDevice = ''DEVICE''"
definition AttributeTypePayment :: string where "AttributeTypePayment = ''PAYMENT_METHOD''"
definition defaultConfidenceScore :: real where "defaultConfidenceScore = 1"

text \<open>The loop over the payment methods of \<open>FromUser\<close>; \<open>seen\<close> is the map
  \<open>seenPaymentIdentifiers\<close>.\<close>

fun paymentAttributes :: "stdlib \<Rightarrow> string list \<Rightarrow> PaymentMethodInput list \<Rightarrow> Attribute list" where
  "paymentAttributes lib seen [] = []"
| "paymentAttributes lib seen (pm # pms) =
     (let fp = TrimSpace (pmi_Fingerprint pm);
          identifier = (if fp = '''' then TrimSpace (pmi_ID pm) else fp)
      in if identifier = '''' then paymentAttributes lib seen pms
         else if identifier \<in> set seen then paymentAttributes lib seen pms
         else \<lparr>Type = AttributeTypePayment, Value = hashValue lib identifier,
               RawValue = identifier, ConfidenceScore = 95 / 100\<rparr>
              # paymentAttributes lib (identifier # seen) pms)"

definition FromUser :: "stdlib \<Rightarrow> UserInput \<Rightarrow> Attribute list" where
  "FromUser lib input =
     (let email = normalizeEmail lib (ui_Email input);
          attrs1 = (if email \<noteq> ''''
                    then [\<lparr>Type = AttributeTypeEmail, Value = hashValue lib email,
                           RawValue = email, ConfidenceScore = defaultConfidenceScore\<rparr>]
                    else []);
          phone = normalizePhone (ui_Phone input);
          attrs2 = (if phone \<noteq> ''''
                    then attrs1 @ [\<lparr>Type = AttributeTypePhone, Value = hashValue lib phone,
                           RawValue = phone, ConfidenceScore = defaultConfidenceScore\<rparr>]
                    else attrs1);
          addr = normalizeAddress lib (ui_Address input);
          attrs3 = (if Trim addr ''|'' \<noteq> ''''
                    then attrs2 @ [\<lparr>Type = AttributeTypeAddress, Value = hashValue lib addr,
                           RawValue = addr, ConfidenceScore = 9 / 10\<rparr>]
                    else attrs2)
      in attrs3 @ paymentAttributes lib [] (ui_PaymentMethods input))"

definition FromTransaction :: "stdlib \<Rightarrow> TransactionInput \<Rightarrow> Attribute list" where
  "FromTransaction lib input =
     (let ip = TrimSpace (ti_IPAddress input);
          attrs1 = (if ip \<noteq> ''''
                    then [\<lparr>Type = AttributeTypeIPAddress, Value = hashValue lib ip,
                           RawValue = ip, ConfidenceScore = 85 / 100\<rparr>]
                    else []);
          device = TrimSpace (ti_DeviceID input);
          attrs2 = (if device \<noteq> ''''
                    then attrs1 @ [\<lparr>Type = AttributeTypeDevice, Value = hashValue lib device,
                           RawValue = device, ConfidenceScore = 9 / 10\<rparr>]
                    else attrs1);
          pm = TrimSpace (ti_PaymentMethodID input);
          attrs3 = (if pm \<noteq> ''''
                    then attrs2 @ [\<lparr>Type = AttributeTypePayment, Value = hashValue lib pm,
                           RawValue = pm, ConfidenceScore = 9 / 10\<rparr>]
                    else attrs2)
      in attrs3 @ [\<lparr>Type = ''TX_DAY_BUCKET'',
                     Value = hashValue lib (Format_DateOnly lib (UTC (ti_Timestamp input))),
                     RawValue = Format_RFC3339 lib (UTC (ti_Timestamp input)),
                     ConfidenceScore = 1 / 2\<rparr>])"

text \<open>\<open>convertCustomAttributes\<close>: the loop skips an entry with an empty type or value and
  replaces a zero score by the default.\<close>

fun convertCustomAttributes :: "AttributeInput list \<Rightarrow> Attribute list" where
  "convertCustomAttributes [] = []"
| "convertCustomAttributes (attr # attrs) =
     (if ai_Type attr = '''' \<or> ai_Value attr = '''' then convertCustomAttributes attrs
      else (let conf = (if ai_ConfidenceScore attr = 0 then defaultConfidenceScore
                        else ai_ConfidenceScore attr)
            in \<lparr>Type = ai_Type attr, Value = ai_Value attr, RawValue = ai_RawValue attr,
                 ConfidenceScore = conf\<rparr> # convertCustomAttributes attrs))"

section \<open>Errors and contexts\<close>

text \<open>
  A Go \<open>error\<close> value is one of: an error made by \<open>errors.New\<close> or by \<open>fmt.Errorf\<close> without
  \<open>%w\<close> (its message), an error made by \<open>fmt.Errorf("<prefix>: %w", err)\<close> (the prefix and
  the wrapped error), one of the two sentinels of package \<open>context\<close>, or a \<open>*TaskError\<close>
  (its \<open>Errors\<close> slice).  \<open>errors.Is\<close> walks the chain of wrapped errors; \<open>*TaskError\<close>
  has no \<open>Unwrap\<close> method.
\<close>

datatype error =
    ErrorString string
  | Wrapped string error
  | context_Canceled
  | context_DeadlineExceeded
  | TaskError "error list"

fun errors_Is :: "error \<Rightarrow> error \<Rightarrow> bool" where
  "errors_Is (Wrapped msg e) target = (Wrapped msg e = target \<or> errors_Is e target)"
| "errors_Is e target = (e = target)"

text \<open>The state of a \<open>context.Context\<close> at one moment: not done, cancelled, or past its
  deadline.\<close>

datatype Context = Active | CtxCanceled | CtxDeadlineExceeded

definition ctx_Done :: "Context \<Rightarrow> bool" where
  "ctx_Done ctx = (ctx \<noteq> Active)"

definition ctx_Err :: "Context \<Rightarrow> error option" where
  "ctx_Err ctx = (case ctx of Active \<Rightarrow> None
                  | CtxCanceled \<Rightarrow> Some context_Canceled
                  | CtxDeadlineExceeded \<Rightarrow> Some context_DeadlineExceeded)"

section \<open>The graph client (graph/client.go)\<close>

text \<open>
  A statement is one of the Cypher constants of the repository together with the
  parameters it is run with.  \<open>Record\<close> is \<open>map[string]any\<close>, kept as an association
  list; indexing a missing key gives \<open>nil\<close>.
\<close>

type_synonym props = "(string \<times> any) list"

record AttributeParam =
  ap_type :: string
  ap_value :: string
  ap_rawValue :: string
  ap_confidence :: real
  ap_score :: real

record PaymentMethodParam =
  pp_id :: string
  pp_props :: props
  pp_firstUsedAt :: string
  pp_lastUsedAt :: string

record UpsertUserParams =
  up_userId :: string
  up_props :: props
  up_attributes :: "AttributeParam list"
  up_paymentMethods :: "PaymentMethodParam list"

record UpsertTransactionParams =
  tp_transactionId :: string
  tp_senderId :: string
  tp_receiverId :: string
  tp_amount :: real
  tp_currency :: string
  tp_timestamp :: string
  tp_props :: props
  tp_attributes :: "AttributeParam list"
  tp_paymentMethodId :: string

datatype statement =
    upsertUserCypher UpsertUserParams
  | upsertTransactionCypher UpsertTransactionParams
  | userDirectLinksCypher string
  | userTransactionsCypher string
  | userSharedAttributesCypher string
  | transactionUsersCypher string
  | transactionLinkedCypher string
  | shortestPathCypher string string

datatype Result = Result (Records: "props list")

definition index :: "props \<Rightarrow> string \<Rightarrow> any" where
  "index r k = (case map_of r k of None \<Rightarrow> ANil | Some v \<Rightarrow> v)"

text \<open>The \<open>Client\<close> interface over a store state \<open>'s\<close>: each call returns the error or the
  result, and the state of the store after it.\<close>

record 's Client =
  ExecuteWrite :: "Context \<Rightarrow> statement \<Rightarrow> 's \<Rightarrow> (error + Result) \<times> 's"
  ExecuteRead :: "Context \<Rightarrow> statement \<Rightarrow> 's \<Rightarrow> (error + Result) \<times> 's"

subsection \<open>The in-memory client of the tests (graph/memory_client.go)\<close>

record MemoryClient =
  writeCalls :: "statement list"
  readCalls :: "statement list"
  readResults :: "Result list"
  writeResults :: "Result list"
  err :: "error option"
  connectivity :: "error option"

definition NewMemoryClient :: MemoryClient where
  "NewMemoryClient = \<lparr>writeCalls = [], readCalls = [], readResults = [], writeResults = [],
                       err = None, connectivity = None\<rparr>"

definition MemoryClient_ExecuteWrite ::
  "Context \<Rightarrow> statement \<Rightarrow> MemoryClient \<Rightarrow> (error + Result) \<times> MemoryClient" where
  "MemoryClient_ExecuteWrite ctx cypher m =
     (case err m of
        Some e \<Rightarrow> (Inl e, m)
      | None \<Rightarrow>
          (let m1 = m\<lparr>writeCalls := writeCalls m @ [cypher]\<rparr>
           in case writeResults m1 of
                [] \<Rightarrow> (Inr (Result []), m1)
              | res # rest \<Rightarrow> (Inr res, m1\<lparr>writeResults := rest\<rparr>)))"

definition MemoryClient_ExecuteRead ::
  "Context \<Rightarrow> statement \<Rightarrow> MemoryClient \<Rightarrow> (error + Result) \<times> MemoryClient" where
  "MemoryClient_ExecuteRead ctx cypher m =
     (case err m of
        Some e \<Rightarrow> (Inl e, m)
      | None \<Rightarrow>
          (let m1 = m\<lparr>readCalls := readCalls m @ [cypher]\<rparr>
           in case readResults m1 of
                [] \<Rightarrow> (Inr (Result []), m1)
              | res # rest \<Rightarrow> (Inr res, m1\<lparr>readResults := rest\<rparr>)))"

definition memoryClient :: "MemoryClient Client" where
  "memoryClient = \<lparr>ExecuteWrite = MemoryClient_ExecuteWrite,
                    ExecuteRead = MemoryClient_ExecuteRead\<rparr>"

section \<open>The repository (repository/repository.go)\<close>

subsection \<open>Relationship views (domain)\<close>

record DirectUserLink =
  dl_UserID :: string
  dl_LinkType :: string
  dl_Direction :: string
  dl_TransactionID :: string
  dl_Amount :: real
  dl_Currency :: string
  dl_Timestamp :: "Time option"

record UserTransactionLink =
  utl_TransactionID :: string
  utl_Role :: string
  utl_Amount :: real
  utl_Currency :: string
  utl_Timestamp :: "Time option"

record SharedAttributeLink =
  sal_AttributeType :: string
  sal_AttributeHash :: string
  sal_UserIDs :: "string list"

record UserRelationships =
  ur_UserID :: string
  ur_DirectLinks :: "DirectUserLink list"
  ur_Transactions :: "UserTransactionLink list"
  ur_SharedAttributes :: "SharedAttributeLink list"

record TransactionUserLink =
  tul_UserID :: string
  tul_Role :: string
  tul_Amount :: real
  tul_Currency :: string
  tul_Direction :: string

record LinkedTransaction =
  lt_TransactionID :: string
  lt_LinkType :: string
  lt_AttributeHash :: string
  lt_Score :: real
  lt_LastUpdated :: "Time option"

record TransactionRelationships =
  tr_TransactionID :: string
  tr_Users :: "TransactionUserLink list"
  tr_LinkedTransactions :: "LinkedTransaction list"

record PathNode =
  pn_ID :: string
  pn_Type :: string
  pn_Label :: string
  pn_Weight :: real

record PathEdge =
  pe_Type :: string
  pe_Source :: string
  pe_Target :: string
  pe_Label :: string
  pe_Weight :: real

record ShortestPath =
  sp_SourceUserID :: string
  sp_TargetUserID :: string
  sp_Nodes :: "PathNode list"
  sp_Edges :: "PathEdge list"
  sp_Hops :: int

subsection \<open>Conversions\<close>

definition formatTime :: "stdlib \<Rightarrow> Time \<Rightarrow> string" where
  "formatTime lib t = (if IsZero t then '''' else Format_RFC3339Nano lib (UTC t))"

definition formatTimePtr :: "stdlib \<Rightarrow> Time option \<Rightarrow> string" where
  "formatTimePtr lib t =
     (case t of None \<Rightarrow> '''' | Some v \<Rightarrow> if IsZero v then '''' else formatTime lib v)"

definition serializeMetadata :: "stdlib \<Rightarrow> props \<Rightarrow> string option" where
  "serializeMetadata lib metadata = json_Marshal lib metadata"

definition toString :: "stdlib \<Rightarrow> any \<Rightarrow> string" where
  "toString lib val = (case val of AString v \<Rightarrow> v | ATime t \<Rightarrow> Time_String lib t | _ \<Rightarrow> '''')"

text \<open>\<open>float64(v)\<close> for an \<open>int64\<close>: the nearest number with a 53-bit significand, a tie
  going to the even one.  \<open>e\<close> is the number of bits of \<open>|v|\<close> beyond 53.\<close>

definition float64_of_int64 :: "int \<Rightarrow> real" where
  "float64_of_int64 v =
     (let a = nat \<bar>v\<bar>;
          e = length (filter (\<lambda>k. 2 ^ (53 + k) \<le> a) [0..<11]);
          q = a div 2 ^ e;
          r = a mod 2 ^ e;
          q' = (if 2 ^ e < 2 * r \<or> (2 * r = 2 ^ e \<and> odd q) then q + 1 else q)
      in (if v < 0 then - 1 else 1) * real (q' * 2 ^ e))"

definition toFloat64 :: "any \<Rightarrow> real" where
  "toFloat64 val =
     (case val of AFloat v \<Rightarrow> v | AInt v \<Rightarrow> float64_of_int64 v | _ \<Rightarrow> 0)"

definition toTimePtr :: "stdlib \<Rightarrow> any \<Rightarrow> Time option" where
  "toTimePtr lib val =
     (case val of
        ATime v \<Rightarrow> Some v
      | AString v \<Rightarrow>
          (if v = '''' then None
           else case Parse_RFC3339Nano lib v of
                  Some parsed \<Rightarrow> Some parsed
                | None \<Rightarrow> Parse_RFC3339 lib v)
      | _ \<Rightarrow> None)"

definition userProperties :: "stdlib \<Rightarrow> User \<Rightarrow> props" where
  "userProperties lib u =
     [(''fullName'', AString (u_FullName u)),
      (''email'', AString (u_Email u)),
      (''phone'', AString (u_Phone u)),
      (''kycStatus'', AString (u_KYCStatus u)),
      (''riskScore'', AFloat (u_RiskScore u)),
      (''updatedAt'', AString (formatTime lib (u_UpdatedAt u)))]
     @ (if \<not> IsZero (u_CreatedAt u)
        then [(''createdAt'', AString (formatTime lib (u_CreatedAt u)))] else [])
     @ (case u_DateOfBirth u of
          None \<Rightarrow> []
        | Some d \<Rightarrow> if \<not> IsZero d then [(''dateOfBirth'', AString (formatTime lib d))] else [])
     @ [(''addressLine1'', AString (addr_Line1 (u_Address u))),
        (''addressLine2'', AString (addr_Line2 (u_Address u))),
        (''addressCity'', AString (addr_City (u_Address u))),
        (''addressState'', AString (addr_State (u_Address u))),
        (''addressPostalCode'', AString (addr_PostalCode (u_Address u))),
        (''addressCountry'', AString (addr_Country (u_Address u)))]"

definition paymentMethodParams :: "stdlib \<Rightarrow> PaymentMethod list \<Rightarrow> PaymentMethodParam list" where
  "paymentMethodParams lib methods =
     map (\<lambda>pm. \<lparr>pp_id = pm_ID pm,
                 pp_props = [(''methodType'', AString (pm_MethodType pm)),
                             (''provider'', AString (pm_Provider pm)),
                             (''masked'', AString (pm_Masked pm)),
                             (''fingerprint'', AString (pm_Fingerprint pm))],
                 pp_firstUsedAt = formatTimePtr lib (pm_FirstUsedAt pm),
                 pp_lastUsedAt = formatTimePtr lib (pm_LastUsedAt pm)\<rparr>) methods"

definition attributeParams :: "Attribute list \<Rightarrow> AttributeParam list" where
  "attributeParams attrs =
     map (\<lambda>attr. \<lparr>ap_type = Type attr, ap_value = Value attr, ap_rawValue = RawValue attr,
                   ap_confidence = ConfidenceScore attr, ap_score = ConfidenceScore attr\<rparr>) attrs"

definition transactionProperties :: "stdlib \<Rightarrow> Transaction \<Rightarrow> props" where
  "transactionProperties lib tx =
     [(''amount'', AFloat (tx_Amount tx)),
      (''currency'', AString (tx_Currency tx)),
      (''type'', AString (tx_Type tx)),
      (''status'', AString (tx_Status tx)),
      (''channel'', AString (tx_Channel tx)),
      (''ipAddress'', AString (tx_IPAddress tx)),
      (''deviceId'', AString (tx_DeviceID tx)),
      (''paymentMethodId'', AString (tx_PaymentMethodID tx)),
      (''timestamp'', AString (formatTime lib (tx_Timestamp tx))),
      (''updatedAt'', AString (formatTime lib (tx_UpdatedAt tx)))]
     @ (if tx_Metadata tx \<noteq> []
        then (case serializeMetadata lib (tx_Metadata tx) of
                Some serialized \<Rightarrow> [(''metadataJson'', AString serialized)]
              | None \<Rightarrow> [])
        else [])
     @ (if \<not> IsZero (tx_CreatedAt tx)
        then [(''createdAt'', AString (formatTime lib (tx_CreatedAt tx)))] else [])"

subsection \<open>Writes\<close>

text \<open>The parameter maps that \<open>UpsertUser\<close> and \<open>UpsertTransaction\<close> build.\<close>

definition upsertUserParams :: "stdlib \<Rightarrow> User \<Rightarrow> UpsertUserParams" where
  "upsertUserParams lib user =
     \<lparr>up_userId = u_ID user,
      up_props = userProperties lib user,
      up_attributes = attributeParams (u_Attributes user),
      up_paymentMethods = paymentMethodParams lib (u_PaymentMethods user)\<rparr>"

definition upsertTransactionParams ::
  "stdlib \<Rightarrow> Transaction \<Rightarrow> Attribute list \<Rightarrow> UpsertTransactionParams" where
  "upsertTransactionParams lib tx attributes =
     \<lparr>tp_transactionId = tx_ID tx,
      tp_senderId = tx_SenderUserID tx,
      tp_receiverId = tx_ReceiverUserID tx,
      tp_amount = tx_Amount tx,
      tp_currency = tx_Currency tx,
      tp_timestamp = formatTime lib (tx_Timestamp tx),
      tp_props = transactionProperties lib tx,
      tp_attributes = attributeParams attributes,
      tp_paymentMethodId = tx_PaymentMethodID tx\<rparr>"

definition Repository_UpsertUser ::
  "stdlib \<Rightarrow> 's Client \<Rightarrow> Context \<Rightarrow> User \<Rightarrow> 's \<Rightarrow> error option \<times> 's" where
  "Repository_UpsertUser lib client ctx user s =
     (if u_ID user = '''' then (Some (ErrorString ''user id is required''), s)
      else
        (case ExecuteWrite client ctx (upsertUserCypher (upsertUserParams lib user)) s of
           (Inl e, s') \<Rightarrow> (Some (Wrapped (''upsert user '' @ u_ID user) e), s')
         | (Inr res, s') \<Rightarrow> (None, s')))"

definition Repository_UpsertTransaction ::
  "stdlib \<Rightarrow> 's Client \<Rightarrow> Context \<Rightarrow> Transaction \<Rightarrow> Attribute list \<Rightarrow> 's \<Rightarrow> error option \<times> 's" where
  "Repository_UpsertTransaction lib client ctx tx attributes s =
     (if tx_ID tx = '''' then (Some (ErrorString ''transaction id is required''), s)
      else if tx_SenderUserID tx = '''' \<or> tx_ReceiverUserID tx = ''''
      then (Some (ErrorString ''both sender and receiver user IDs are required''), s)
      else
        (case ExecuteWrite client ctx
                (upsertTransactionCypher (upsertTransactionParams lib tx attributes)) s of
           (Inl e, s') \<Rightarrow> (Some (Wrapped (''upsert transaction '' @ tx_ID tx) e), s')
         | (Inr res, s') \<Rightarrow> (None, s')))"

subsection \<open>Reads\<close>

definition fetchUserDirectLinks ::
  "stdlib \<Rightarrow> 's Client \<Rightarrow> Context \<Rightarrow> string \<Rightarrow> UserRelationships \<Rightarrow> 's
     \<Rightarrow> (error + UserRelationships) \<times> 's" where
  "fetchUserDirectLinks lib client ctx userID rel s =
     (case ExecuteRead client ctx (userDirectLinksCypher userID) s of
        (Inl e, s') \<Rightarrow> (Inl (Wrapped ''fetch user direct links'' e), s')
      | (Inr res, s') \<Rightarrow>
          (Inr (rel\<lparr>ur_DirectLinks := ur_DirectLinks rel @
                  map (\<lambda>record.
                         \<lparr>dl_UserID = toString lib (index record ''peerId''),
                          dl_LinkType = toString lib (index record ''linkType''),
                          dl_Direction = toString lib (index record ''direction''),
                          dl_TransactionID = toString lib (index record ''transactionId''),
                          dl_Amount = toFloat64 (index record ''amount''),
                          dl_Currency = toString lib (index record ''currency''),
                          dl_Timestamp = toTimePtr lib (index record ''timestamp'')\<rparr>)
                      (Records res)\<rparr>), s'))"

definition fetchUserTransactions ::
  "stdlib \<Rightarrow> 's Client \<Rightarrow> Context \<Rightarrow> string \<Rightarrow> UserRelationships \<Rightarrow> 's
     \<Rightarrow> (error + UserRelationships) \<times> 's" where
  "fetchUserTransactions lib client ctx userID rel s =
     (case ExecuteRead client ctx (userTransactionsCypher userID) s of
        (Inl e, s') \<Rightarrow> (Inl (Wrapped ''fetch user transactions'' e), s')
      | (Inr res, s') \<Rightarrow>
          (Inr (rel\<lparr>ur_Transactions := ur_Transactions rel @
                  map (\<lambda>record.
                         \<lparr>utl_TransactionID = toString lib (index record ''transactionId''),
                          utl_Role = toString lib (index record ''role''),
                          utl_Amount = toFloat64 (index record ''amount''),
                          utl_Currency = toString lib (index record ''currency''),
                          utl_Timestamp = toTimePtr lib (index record ''timestamp'')\<rparr>)
                      (Records res)\<rparr>), s'))"

text \<open>The inner loop of \<open>fetchUserSharedAttributes\<close> keeps the non-empty user ids; a record
  whose \<open>userIds\<close> is not a list is skipped.\<close>

definition sharedAttributeLinks :: "stdlib \<Rightarrow> props list \<Rightarrow> SharedAttributeLink list" where
  "sharedAttributeLinks lib records =
     concat (map (\<lambda>record.
        (case index record ''userIds'' of
           AList usersRaw \<Rightarrow>
             [\<lparr>sal_AttributeType = toString lib (index record ''attributeType''),
               sal_AttributeHash = toString lib (index record ''attributeHash''),
               sal_UserIDs = filter (\<lambda>s. s \<noteq> '''') (map (toString lib) usersRaw)\<rparr>]
         | _ \<Rightarrow> [])) records)"

definition fetchUserSharedAttributes ::
  "stdlib \<Rightarrow> 's Client \<Rightarrow> Context \<Rightarrow> string \<Rightarrow> UserRelationships \<Rightarrow> 's
     \<Rightarrow> (error + UserRelationships) \<times> 's" where
  "fetchUserSharedAttributes lib client ctx userID rel s =
     (case ExecuteRead client ctx (userSharedAttributesCypher userID) s of
        (Inl e, s') \<Rightarrow> (Inl (Wrapped ''fetch shared attributes'' e), s')
      | (Inr res, s') \<Rightarrow>
          (Inr (rel\<lparr>ur_SharedAttributes := ur_SharedAttributes rel @
                  sharedAttributeLinks lib (Records res)\<rparr>), s'))"

definition fetchTransactionUsers ::
  "stdlib \<Rightarrow> 's Client \<Rightarrow> Context \<Rightarrow> string \<Rightarrow> TransactionRelationships \<Rightarrow> 's
     \<Rightarrow> (error + TransactionRelationships) \<times> 's" where
  "fetchTransactionUsers lib client ctx txID rel s =
     (case ExecuteRead client ctx (transactionUsersCypher txID) s of
        (Inl e, s') \<Rightarrow> (Inl (Wrapped ''fetch transaction users'' e), s')
      | (Inr res, s') \<Rightarrow>
          (Inr (rel\<lparr>tr_Users := tr_Users rel @
                  map (\<lambda>record.
                         \<lparr>tul_UserID = toString lib (index record ''userId''),
                          tul_Role = toString lib (index record ''role''),
                          tul_Amount = toFloat64 (index record ''amount''),
                          tul_Currency = toString lib (index record ''currency''),
                          tul_Direction = toString lib (index record ''direction'')\<rparr>)
                      (Records res)\<rparr>), s'))"

definition fetchLinkedTransactions ::
  "stdlib \<Rightarrow> 's Client \<Rightarrow> Context \<Rightarrow> string \<Rightarrow> TransactionRelationships \<Rightarrow> 's
     \<Rightarrow> (error + TransactionRelationships) \<times> 's" where
  "fetchLinkedTransactions lib client ctx txID rel s =
     (case ExecuteRead client ctx (transactionLinkedCypher txID) s of
        (Inl e, s') \<Rightarrow> (Inl (Wrapped ''fetch linked transactions'' e), s')
      | (Inr res, s') \<Rightarrow>
          (Inr (rel\<lparr>tr_LinkedTransactions := tr_LinkedTransactions rel @
                  map (\<lambda>record.
                         \<lparr>lt_TransactionID = toString lib (index record ''otherTransactionId''),
                          lt_LinkType = toString lib (index record ''linkType''),
                          lt_AttributeHash = toString lib (index record ''attributeHash''),
                          lt_Score = toFloat64 (index record ''score''),
                          lt_LastUpdated = toTimePtr lib (index record ''updatedAt'')\<rparr>)
                      (Records res)\<rparr>), s'))"

definition FetchUserRelationships ::
  "stdlib \<Rightarrow> 's Client \<Rightarrow> Context \<Rightarrow> string \<Rightarrow> 's \<Rightarrow> (error + UserRelationships) \<times> 's" where
  "FetchUserRelationships lib client ctx userID s =
     (if userID = '''' then (Inl (ErrorString ''user id is required''), s)
      else
        (let relationships = \<lparr>ur_UserID = userID, ur_DirectLinks = [], ur_Transactions = [],
                               ur_SharedAttributes = []\<rparr>
         in case fetchUserDirectLinks lib client ctx userID relationships s of
              (Inl e, s1) \<Rightarrow> (Inl e, s1)
            | (Inr rel1, s1) \<Rightarrow>
                (case fetchUserTransactions lib client ctx userID rel1 s1 of
                   (Inl e, s2) \<Rightarrow> (Inl e, s2)
                 | (Inr rel2, s2) \<Rightarrow>
                     (case fetchUserSharedAttributes lib client ctx userID rel2 s2 of
                        (Inl e, s3) \<Rightarrow> (Inl e, s3)
                      | (Inr rel3, s3) \<Rightarrow> (Inr rel3, s3)))))"

definition FetchTransactionRelationships ::
  "stdlib \<Rightarrow> 's Client \<Rightarrow> Context \<Rightarrow> string \<Rightarrow> 's
     \<Rightarrow> (error + TransactionRelationships) \<times> 's" where
  "FetchTransactionRelationships lib client ctx txID s =
     (if txID = '''' then (Inl (ErrorString ''transaction id is required''), s)
      else
        (let result = \<lparr>tr_TransactionID = txID, tr_Users = [], tr_LinkedTransactions = []\<rparr>
         in case fetchTransactionUsers lib client ctx txID result s of
              (Inl e, s1) \<Rightarrow> (Inl e, s1)
            | (Inr rel1, s1) \<Rightarrow>
                (case fetchLinkedTransactions lib client ctx txID rel1 s1 of
                   (Inl e, s2) \<Rightarrow> (Inl e, s2)
                 | (Inr rel2, s2) \<Rightarrow> (Inr rel2, s2))))"

text \<open>The two decoding loops of \<open>ShortestPathBetweenUsers\<close>: an element that is not a map is
  skipped.\<close>

definition pathNodes :: "stdlib \<Rightarrow> any \<Rightarrow> PathNode list" where
  "pathNodes lib nodesRaw =
     (case nodesRaw of
        AList ns \<Rightarrow>
          concat (map (\<lambda>n. case n of
                              AMap nodeMap \<Rightarrow>
                                [\<lparr>pn_ID = toString lib (index nodeMap ''id''),
                                  pn_Type = toString lib (index nodeMap ''type''),
                                  pn_Label = toString lib (index nodeMap ''label''),
                                  pn_Weight = toFloat64 (index nodeMap ''weight'')\<rparr>]
                            | _ \<Rightarrow> []) ns)
      | _ \<Rightarrow> [])"

definition pathEdges :: "stdlib \<Rightarrow> any \<Rightarrow> PathEdge list" where
  "pathEdges lib edgesRaw =
     (case edgesRaw of
        AList es \<Rightarrow>
          concat (map (\<lambda>e. case e of
                              AMap edgeMap \<Rightarrow>
                                [\<lparr>pe_Type = toString lib (index edgeMap ''type''),
                                  pe_Source = toString lib (index edgeMap ''sourceId''),
                                  pe_Target = toString lib (index edgeMap ''targetId''),
                                  pe_Label = toString lib (index edgeMap ''label''),
                                  pe_Weight = toFloat64 (index edgeMap ''weight'')\<rparr>]
                            | _ \<Rightarrow> []) es)
      | _ \<Rightarrow> [])"

definition ShortestPathBetweenUsers ::
  "stdlib \<Rightarrow> 's Client \<Rightarrow> Context \<Rightarrow> string \<Rightarrow> string \<Rightarrow> 's \<Rightarrow> (error + ShortestPath) \<times> 's" where
  "ShortestPathBetweenUsers lib client ctx sourceID targetID s =
     (if sourceID = '''' \<or> targetID = ''''
      then (Inl (ErrorString ''source and target user IDs are required''), s)
      else if sourceID = targetID
      then (Inr \<lparr>sp_SourceUserID = sourceID, sp_TargetUserID = targetID,
                 sp_Nodes = [\<lparr>pn_ID = sourceID, pn_Type = ''User'', pn_Label = sourceID,
                              pn_Weight = 0\<rparr>],
                 sp_Edges = [], sp_Hops = 0\<rparr>, s)
      else
        (case ExecuteRead client ctx (shortestPathCypher sourceID targetID) s of
           (Inl e, s') \<Rightarrow> (Inl (Wrapped ''shortest path query'' e), s')
         | (Inr res, s') \<Rightarrow>
             (let path = \<lparr>sp_SourceUserID = sourceID, sp_TargetUserID = targetID,
                          sp_Nodes = [], sp_Edges = [], sp_Hops = 0\<rparr>
              in case Records res of
                   [] \<Rightarrow> (Inr path, s')
                 | record # rest \<Rightarrow>
                     (Inr (path\<lparr>sp_Nodes := pathNodes lib (index record ''nodes''),
                              sp_Edges := pathEdges lib (index record ''edges''),
                              sp_Hops := (case index record ''hops'' of AInt v \<Rightarrow> v | _ \<Rightarrow> 0)\<rparr>),
                      s'))))"

section \<open>The relationship service (service/relationship_service.go)\<close>

text \<open>
  The service holds a repository and an attribute generator behind interfaces, and a clock.
  Only the two write methods of \<open>GraphRepository\<close> are needed here.  \<open>nowFn\<close> is the instant
  the clock returns when the method runs.
\<close>

record 's GraphRepository =
  repo_UpsertUser :: "Context \<Rightarrow> User \<Rightarrow> 's \<Rightarrow> error option \<times> 's"
  repo_UpsertTransaction :: "Context \<Rightarrow> Transaction \<Rightarrow> Attribute list \<Rightarrow> 's \<Rightarrow> error option \<times> 's"

record AttributeGenerator =
  gen_FromUser :: "UserInput \<Rightarrow> Attribute list"
  gen_FromTransaction :: "TransactionInput \<Rightarrow> Attribute list"

record 's RelationshipService =
  repo :: "'s GraphRepository"
  attributes :: AttributeGenerator
  nowFn :: Time

definition DefaultAttributeGenerator :: "stdlib \<Rightarrow> AttributeGenerator" where
  "DefaultAttributeGenerator lib =
     \<lparr>gen_FromUser = FromUser lib, gen_FromTransaction = FromTransaction lib\<rparr>"

text \<open>\<open>repository.New\<close>: the repository over a graph client, as a \<open>GraphRepository\<close>.\<close>

definition repository_New :: "stdlib \<Rightarrow> 's Client \<Rightarrow> 's GraphRepository" where
  "repository_New lib client =
     \<lparr>repo_UpsertUser = Repository_UpsertUser lib client,
      repo_UpsertTransaction = Repository_UpsertTransaction lib client\<rparr>"

text \<open>\<open>NewRelationshipService(repo, nil)\<close>: the default generator; \<open>now\<close> is what
  \<open>time.Now\<close> returns.\<close>

definition NewRelationshipService ::
  "stdlib \<Rightarrow> 's GraphRepository \<Rightarrow> Time \<Rightarrow> 's RelationshipService" where
  "NewRelationshipService lib r now =
     \<lparr>repo = r, attributes = DefaultAttributeGenerator lib, nowFn = now\<rparr>"

text \<open>The \<open>domain.User\<close> that \<open>UpsertUser\<close> builds from its payload, and the
  \<open>domain.Transaction\<close> that \<open>UpsertTransaction\<close> builds.\<close>

definition userFromInput :: "stdlib \<Rightarrow> 's RelationshipService \<Rightarrow> UserInput \<Rightarrow> User" where
  "userFromInput lib svc input =
     (let now = UTC (nowFn svc);
          createdAt = (case ui_CreatedAt input of None \<Rightarrow> now | Some t \<Rightarrow> UTC t);
          updatedAt = (case ui_UpdatedAt input of None \<Rightarrow> now | Some t \<Rightarrow> UTC t);
          paymentMethods =
            map (\<lambda>pm. \<lparr>pm_ID = pmi_ID pm, pm_MethodType = pmi_MethodType pm,
                        pm_Provider = pmi_Provider pm, pm_Masked = pmi_Masked pm,
                        pm_Fingerprint = pmi_Fingerprint pm,
                        pm_FirstUsedAt = pmi_FirstUsedAt pm,
                        pm_LastUsedAt = pmi_LastUsedAt pm\<rparr>) (ui_PaymentMethods input);
          attrs0 = gen_FromUser (attributes svc) input;
          attrs = (if ui_Attributes input \<noteq> []
                   then attrs0 @ convertCustomAttributes (ui_Attributes input)
                   else attrs0)
      in \<lparr>u_ID = ui_ID input,
          u_FullName = sanitizeString (ui_FullName input),
          u_Email = normalizeEmail lib (ui_Email input),
          u_Phone = normalizePhone (ui_Phone input),
          u_Address = ToDomainAddress (ui_Address input),
          u_DateOfBirth = ui_DateOfBirth input,
          u_KYCStatus = ui_KYCStatus input,
          u_RiskScore = ui_RiskScore input,
          u_Attributes = attrs,
          u_PaymentMethods = paymentMethods,
          u_CreatedAt = createdAt,
          u_UpdatedAt = updatedAt\<rparr>)"

definition RelationshipService_UpsertUser ::
  "stdlib \<Rightarrow> 's RelationshipService \<Rightarrow> Context \<Rightarrow> UserInput \<Rightarrow> 's \<Rightarrow> error option \<times> 's" where
  "RelationshipService_UpsertUser lib svc ctx input s =
     (if ui_ID input = '''' then (Some (ErrorString ''user ID is required''), s)
      else repo_UpsertUser (repo svc) ctx (userFromInput lib svc input) s)"

definition transactionFromInput :: "'s RelationshipService \<Rightarrow> TransactionInput \<Rightarrow> Transaction" where
  "transactionFromInput svc input =
     (let now = UTC (nowFn svc);
          createdAt = (case ti_CreatedAt input of None \<Rightarrow> now | Some t \<Rightarrow> UTC t);
          updatedAt = (case ti_UpdatedAt input of None \<Rightarrow> now | Some t \<Rightarrow> UTC t)
      in \<lparr>tx_ID = ti_ID input,
          tx_SenderUserID = ti_SenderUserID input,
          tx_ReceiverUserID = ti_ReceiverUserID input,
          tx_Amount = ti_Amount input,
          tx_Currency = ti_Currency input,
          tx_Type = ti_Type input,
          tx_Status = ti_Status input,
          tx_Channel = ti_Channel input,
          tx_IPAddress = ti_IPAddress input,
          tx_DeviceID = ti_DeviceID input,
          tx_PaymentMethodID = ti_PaymentMethodID input,
          tx_Timestamp = UTC (ti_Timestamp input),
          tx_Metadata = ti_Metadata input,
          tx_CreatedAt = createdAt,
          tx_UpdatedAt = updatedAt\<rparr>)"

definition RelationshipService_UpsertTransaction ::
  "'s RelationshipService \<Rightarrow> Context \<Rightarrow> TransactionInput \<Rightarrow> 's \<Rightarrow> error option \<times> 's" where
  "RelationshipService_UpsertTransaction svc ctx input s =
     (if ti_ID input = '''' then (Some (ErrorString ''transaction ID is required''), s)
      else if ti_SenderUserID input = '''' \<or> ti_ReceiverUserID input = ''''
      then (Some (ErrorString ''sender and receiver user IDs are required''), s)
      else repo_UpsertTransaction (repo svc) ctx (transactionFromInput svc input)
             (gen_FromTransaction (attributes svc) input) s)"

subsection \<open>The stub repository of the service tests (service/relationship_service_test.go)\<close>

record stubRepository =
  users :: "User list"
  transactions :: "Transaction list"
  transactionAttrs :: "Attribute list list"
  transactionErr :: "error option"
  userErr :: "error option"

definition stubRepository_UpsertUser ::
  "Context \<Rightarrow> User \<Rightarrow> stubRepository \<Rightarrow> error option \<times> stubRepository" where
  "stubRepository_UpsertUser ctx user s =
     (case userErr s of
        Some e \<Rightarrow> (Some e, s)
      | None \<Rightarrow> (None, s\<lparr>users := users s @ [user]\<rparr>))"

definition stubRepository_UpsertTransaction ::
  "Context \<Rightarrow> Transaction \<Rightarrow> Attribute list \<Rightarrow> stubRepository \<Rightarrow> error option \<times> stubRepository" where
  "stubRepository_UpsertTransaction ctx tx attrs s =
     (case transactionErr s of
        Some e \<Rightarrow> (Some e, s)
      | None \<Rightarrow> (None, s\<lparr>transactions := transactions s @ [tx],
                           transactionAttrs := transactionAttrs s @ [attrs]\<rparr>))"

definition stubRepo :: "stubRepository GraphRepository" where
  "stubRepo = \<lparr>repo_UpsertUser = stubRepository_UpsertUser,
               repo_UpsertTransaction = stubRepository_UpsertTransaction\<rparr>"

definition emptyStub :: stubRepository where
  "emptyStub = \<lparr>users = [], transactions = [], transactionAttrs = [],
                transactionErr = None, userErr = None\<rparr>"

text \<open>A stand-in for the library functions, used only to evaluate examples: the digest of
  a text is the text prefixed by \<open>hash:\<close>, as the repository's tests write their hashes,
  and the lower-case table is its part for the Latin-1 letters (\<open>U+00C0\<close>..\<open>U+00DE\<close> without
  the multiplication sign).\<close>

definition exampleLib :: stdlib where
  "exampleLib =
     \<lparr>sha256_hex = (\<lambda>v. ''hash:'' @ v),
      Format_DateOnly = (\<lambda>t. ''day'' @ replicate (nat (t div 86400000000000)) (CHR ''I'')),
      Format_RFC3339 = (\<lambda>t. ''time''),
      Format_RFC3339Nano = (\<lambda>t. ''time''),
      Parse_RFC3339Nano = (\<lambda>v. None),
      Parse_RFC3339 = (\<lambda>v. None),
      Time_String = (\<lambda>t. ''time''),
      json_Marshal = (\<lambda>m. Some ''{}''),
      unicode_To_LowerCase =
        (\<lambda>r. if 0xC0 \<le> r \<and> r \<le> 0xDE \<and> r \<noteq> 0xD7 then r + 0x20 else r)\<rparr>"

section \<open>The graph store and the Cypher statements (repository/queries.go)\<close>

text \<open>
  The property graph the statements run on.  A node is identified by its label and the
  properties its \<open>MERGE\<close> pattern matches on (the business key); a relationship by its
  start node, its type with the properties its \<open>MERGE\<close> pattern matches on, and its end
  node.  No statement of the repository \<open>SET\<close>s one of these key properties (\<open>$props\<close> and
  \<open>pm.props\<close> carry none of \<open>userId\<close>, \<open>transactionId\<close>, \<open>paymentMethodId\<close>), so the identity
  of a stored node or relationship never changes, and a statement reads a key property off
  the identity.  The stored nodes and relationships are lists, which can hold the same
  identity more than once: only \<open>MERGE\<close>, which creates when nothing matches, keeps them
  free of duplicates.  The remaining properties are kept per identity.  A relationship of
  the store always joins stored nodes.  Rows that bind the same identities are not told
  apart: a clause runs once for each distinct binding.
\<close>

datatype node =
    UserNode string
  | TransactionNode string
  | AttributeNode string string
  | PaymentMethodNode string

datatype relType =
    HAS_ATTRIBUTE
  | USES_PAYMENT_METHOD
  | PARTICIPATED_IN string string
  | SENT_TO string
  | RECEIVED_FROM string
  | LINKED_TO string string
  | PAYMENT_METHOD_RELATES

type_synonym rel = "node \<times> relType \<times> node"

record graph =
  nodes :: "node list"
  rels :: "rel list"
  nodeProps :: "node \<Rightarrow> props"
  relProps :: "rel \<Rightarrow> props"

definition emptyGraph :: graph where
  "emptyGraph = \<lparr>nodes = [], rels = [], nodeProps = (\<lambda>n. []), relProps = (\<lambda>r. [])\<rparr>"

subsection \<open>Clauses\<close>

fun setProp :: "string \<Rightarrow> any \<Rightarrow> props \<Rightarrow> props" where
  "setProp k v [] = [(k, v)]"
| "setProp k v ((k', v') # ps) = (if k = k' then (k, v) # ps else (k', v') # setProp k v ps)"

text \<open>\<open>SET x += map\<close>.\<close>

definition addProps :: "props \<Rightarrow> props \<Rightarrow> props" where
  "addProps new ps = fold (\<lambda>(k, v). setProp k v) new ps"

definition MERGE_node :: "node \<Rightarrow> graph \<Rightarrow> graph" where
  "MERGE_node n g = (if n \<in> set (nodes g) then g else g\<lparr>nodes := nodes g @ [n]\<rparr>)"

definition MERGE_rel :: "rel \<Rightarrow> graph \<Rightarrow> graph" where
  "MERGE_rel r g = (if r \<in> set (rels g) then g else g\<lparr>rels := rels g @ [r]\<rparr>)"

definition SET_node :: "node \<Rightarrow> (props \<Rightarrow> props) \<Rightarrow> graph \<Rightarrow> graph" where
  "SET_node n f g = g\<lparr>nodeProps := (nodeProps g)(n := f (nodeProps g n))\<rparr>"

definition SET_rel :: "rel \<Rightarrow> (props \<Rightarrow> props) \<Rightarrow> graph \<Rightarrow> graph" where
  "SET_rel r f g = g\<lparr>relProps := (relProps g)(r := f (relProps g r))\<rparr>"

text \<open>\<open>FOREACH (x IN xs | body)\<close>: the body runs for each element in turn.\<close>

definition FOREACH :: "'a list \<Rightarrow> ('a \<Rightarrow> graph \<Rightarrow> graph) \<Rightarrow> graph \<Rightarrow> graph" where
  "FOREACH xs body g = fold body xs g"

subsection \<open>\<open>upsertUserCypher\<close>\<close>

text \<open>
  \<^verbatim>\<open>
    MERGE (u:User {userId: $userId})  SET u += $props  WITH u
    FOREACH (attr IN $attributes |
      MERGE (a:Attribute {attributeType: attr.type, value: attr.value})
      SET a.rawValue = attr.rawValue
      MERGE (u)-[ha:HAS_ATTRIBUTE]->(a)  SET ha.confidenceScore = attr.confidence)
    FOREACH (pm IN $paymentMethods |
      MERGE (p:PaymentMethod {paymentMethodId: pm.id})  SET p += pm.props
      MERGE (u)-[upm:USES_PAYMENT_METHOD]->(p)
      SET upm.firstUsedAt = pm.firstUsedAt  SET upm.lastUsedAt = pm.lastUsedAt)
    RETURN u.userId AS userId
  \<close>
\<close>

definition userAttribute :: "node \<Rightarrow> AttributeParam \<Rightarrow> graph \<Rightarrow> graph" where
  "userAttribute u attr g =
     (let a = AttributeNode (ap_type attr) (ap_value attr);
          g1 = MERGE_node a g;
          g2 = SET_node a (setProp ''rawValue'' (AString (ap_rawValue attr))) g1;
          g3 = MERGE_rel (u, HAS_ATTRIBUTE, a) g2
      in SET_rel (u, HAS_ATTRIBUTE, a)
           (setProp ''confidenceScore'' (AFloat (ap_confidence attr))) g3)"

definition userPaymentMethod :: "node \<Rightarrow> PaymentMethodParam \<Rightarrow> graph \<Rightarrow> graph" where
  "userPaymentMethod u pm g =
     (let p = PaymentMethodNode (pp_id pm);
          g1 = MERGE_node p g;
          g2 = SET_node p (addProps (pp_props pm)) g1;
          g3 = MERGE_rel (u, USES_PAYMENT_METHOD, p) g2;
          g4 = SET_rel (u, USES_PAYMENT_METHOD, p)
                 (setProp ''firstUsedAt'' (AString (pp_firstUsedAt pm))) g3
      in SET_rel (u, USES_PAYMENT_METHOD, p)
           (setProp ''lastUsedAt'' (AString (pp_lastUsedAt pm))) g4)"

definition run_upsertUserCypher :: "UpsertUserParams \<Rightarrow> graph \<Rightarrow> Result \<times> graph" where
  "run_upsertUserCypher p g =
     (let u = UserNode (up_userId p);
          g1 = MERGE_node u g;
          g2 = SET_node u (addProps (up_props p)) g1;
          g3 = FOREACH (up_attributes p) (userAttribute u) g2;
          g4 = FOREACH (up_paymentMethods p) (userPaymentMethod u) g3
      in (Result [[(''userId'', AString (up_userId p))]], g4))"

subsection \<open>\<open>upsertTransactionCypher\<close>\<close>

text \<open>
  \<^verbatim>\<open>
    MATCH (sender:User {userId: $senderId})
    MATCH (receiver:User {userId: $receiverId})
    MERGE (t:Transaction {transactionId: $transactionId})  SET t += $props
    MERGE (sender)-[ps:PARTICIPATED_IN {transactionId: $transactionId, role: "SENDER"}]->(t)
    SET ps.amount = $amount, ps.currency = $currency, ps.timestamp = $timestamp
    MERGE (receiver)-[pr:PARTICIPATED_IN {transactionId: $transactionId, role: "RECEIVER"}]->(t)
    SET pr.amount = ...
    MERGE (sender)-[st:SENT_TO {transactionId: $transactionId}]->(receiver)  SET st.amount = ...
    MERGE (receiver)-[rt:RECEIVED_FROM {transactionId: $transactionId}]->(sender)  SET rt.amount = ...
    FOREACH (attr IN $attributes |
      MERGE (a:Attribute {attributeType: attr.type, value: attr.value})
      SET a.rawValue = attr.rawValue
      MERGE (t)-[hta:HAS_ATTRIBUTE]->(a)  SET hta.origin = "TRANSACTION")
    WITH t, $attributes AS attrs  UNWIND attrs AS attr
    MATCH (a:Attribute {attributeType: attr.type, value: attr.value})
    OPTIONAL MATCH (other:Transaction)-[:HAS_ATTRIBUTE]->(a)
    WHERE other.transactionId <> $transactionId
    WITH t, attr, collect(DISTINCT other) AS others  UNWIND others AS otherTx
    MERGE (t)-[lt:LINKED_TO {attributeHash: attr.value, linkType: attr.type}]->(otherTx)
    SET lt.score = attr.score, lt.updatedAt = datetime()
    WITH DISTINCT t, $paymentMethodId AS pmId
    OPTIONAL MATCH (pm:PaymentMethod {paymentMethodId: pmId})
    FOREACH (_ IN CASE WHEN pmId = "" OR pm IS NULL THEN [] ELSE [1] END |
      MERGE (t)-[pmr:PAYMENT_METHOD_RELATES]->(pm)  SET pmr.role = "SENDER")
    RETURN t.transactionId AS transactionId
  \<close>

  The two \<open>MATCH\<close> clauses give no row when a user node is missing, and then no later
  clause runs: nothing is written, no record is returned, and the statement succeeds.
  \<open>UNWIND others\<close> gives no row for an attribute that no other transaction has; when it
  gives no row at all, the clauses after it do not run either.
\<close>

definition amountProps :: "UpsertTransactionParams \<Rightarrow> props \<Rightarrow> props" where
  "amountProps p ps =
     setProp ''timestamp'' (AString (tp_timestamp p))
       (setProp ''currency'' (AString (tp_currency p))
          (setProp ''amount'' (AFloat (tp_amount p)) ps))"

definition transactionAttribute :: "node \<Rightarrow> AttributeParam \<Rightarrow> graph \<Rightarrow> graph" where
  "transactionAttribute t attr g =
     (let a = AttributeNode (ap_type attr) (ap_value attr);
          g1 = MERGE_node a g;
          g2 = SET_node a (setProp ''rawValue'' (AString (ap_rawValue attr))) g1;
          g3 = MERGE_rel (t, HAS_ATTRIBUTE, a) g2
      in SET_rel (t, HAS_ATTRIBUTE, a) (setProp ''origin'' (AString ''TRANSACTION'')) g3)"

text \<open>\<open>collect(DISTINCT other)\<close> for one attribute: the transactions other than
  \<open>$transactionId\<close> that have the attribute.\<close>

fun otherWith :: "string \<Rightarrow> node \<Rightarrow> rel \<Rightarrow> node list" where
  "otherWith transactionId a (TransactionNode other, HAS_ATTRIBUTE, a') =
     (if a' = a \<and> other \<noteq> transactionId then [TransactionNode other] else [])"
| "otherWith transactionId a r = []"

definition others :: "string \<Rightarrow> AttributeParam \<Rightarrow> graph \<Rightarrow> node list" where
  "others transactionId attr g =
     remdups (concat (map (otherWith transactionId
                             (AttributeNode (ap_type attr) (ap_value attr))) (rels g)))"

definition linkRows :: "string \<Rightarrow> AttributeParam list \<Rightarrow> graph \<Rightarrow> (AttributeParam \<times> node) list" where
  "linkRows transactionId attrs g =
     concat (map (\<lambda>attr. map (\<lambda>otherTx. (attr, otherTx)) (others transactionId attr g))
                 (remdups attrs))"

definition linkTo :: "Time \<Rightarrow> node \<Rightarrow> AttributeParam \<times> node \<Rightarrow> graph \<Rightarrow> graph" where
  "linkTo now t row g =
     (case row of (attr, otherTx) \<Rightarrow>
        (let lt = (t, LINKED_TO (ap_value attr) (ap_type attr), otherTx);
             g1 = MERGE_rel lt g
         in SET_rel lt (\<lambda>ps. setProp ''updatedAt'' (ATime now)
                               (setProp ''score'' (AFloat (ap_score attr)) ps)) g1))"

definition run_upsertTransactionCypher ::
  "Time \<Rightarrow> UpsertTransactionParams \<Rightarrow> graph \<Rightarrow> Result \<times> graph" where
  "run_upsertTransactionCypher now p g =
     (let sender = UserNode (tp_senderId p);
          receiver = UserNode (tp_receiverId p);
          t = TransactionNode (tp_transactionId p)
      in if sender \<notin> set (nodes g) \<or> receiver \<notin> set (nodes g) then (Result [], g)
         else
           (let g1 = SET_node t (addProps (tp_props p)) (MERGE_node t g);
                ps = (sender, PARTICIPATED_IN (tp_transactionId p) ''SENDER'', t);
                g2 = SET_rel ps (amountProps p) (MERGE_rel ps g1);
                pr = (receiver, PARTICIPATED_IN (tp_transactionId p) ''RECEIVER'', t);
                g3 = SET_rel pr (amountProps p) (MERGE_rel pr g2);
                st = (sender, SENT_TO (tp_transactionId p), receiver);
                g4 = SET_rel st (amountProps p) (MERGE_rel st g3);
                rt = (receiver, RECEIVED_FROM (tp_transactionId p), sender);
                g5 = SET_rel rt (amountProps p) (MERGE_rel rt g4);
                g6 = FOREACH (tp_attributes p) (transactionAttribute t) g5;
                rows = linkRows (tp_transactionId p) (tp_attributes p) g6;
                g7 = FOREACH rows (linkTo now t) g6
            in if rows = [] then (Result [], g7)
               else
                 (let pm = PaymentMethodNode (tp_paymentMethodId p);
                      pmr = (t, PAYMENT_METHOD_RELATES, pm);
                      g8 = (if tp_paymentMethodId p = '''' \<or> pm \<notin> set (nodes g7) then g7
                            else SET_rel pmr (setProp ''role'' (AString ''SENDER''))
                                   (MERGE_rel pmr g7))
                  in (Result [[(''transactionId'', AString (tp_transactionId p))]], g8))))"

subsection \<open>The read statements\<close>

text \<open>
  \<^verbatim>\<open>
    MATCH (u:User {userId: $userId})-[r:SENT_TO|RECEIVED_FROM]->(peer:User)
    RETURN peer.userId AS peerId, type(r) AS linkType,
      CASE WHEN type(r) = "SENT_TO" THEN "OUTBOUND" ELSE "INBOUND" END AS direction,
      r.transactionId AS transactionId, r.amount AS amount, r.currency AS currency,
      r.timestamp AS timestamp
  \<close>
\<close>

fun directLinkRow :: "string \<Rightarrow> props \<Rightarrow> rel \<Rightarrow> props list" where
  "directLinkRow userId ps (UserNode u, SENT_TO transactionId, UserNode peer) =
     (if u = userId
      then [[(''peerId'', AString peer), (''linkType'', AString ''SENT_TO''),
             (''direction'', AString ''OUTBOUND''),
             (''transactionId'', AString transactionId),
             (''amount'', index ps ''amount''),
             (''currency'', index ps ''currency''),
             (''timestamp'', index ps ''timestamp'')]]
      else [])"
| "directLinkRow userId ps (UserNode u, RECEIVED_FROM transactionId, UserNode peer) =
     (if u = userId
      then [[(''peerId'', AString peer), (''linkType'', AString ''RECEIVED_FROM''),
             (''direction'', AString ''INBOUND''),
             (''transactionId'', AString transactionId),
             (''amount'', index ps ''amount''),
             (''currency'', index ps ''currency''),
             (''timestamp'', index ps ''timestamp'')]]
      else [])"
| "directLinkRow userId ps r = []"

definition run_userDirectLinksCypher :: "string \<Rightarrow> graph \<Rightarrow> props list" where
  "run_userDirectLinksCypher userId g =
     concat (map (\<lambda>r. directLinkRow userId (relProps g r) r) (rels g))"

text \<open>
  \<^verbatim>\<open>
    MATCH (u:User {userId: $userId})-[rel:PARTICIPATED_IN]->(t:Transaction)
    RETURN t.transactionId AS transactionId, rel.role AS role, t.amount AS amount,
      t.currency AS currency, t.timestamp AS timestamp
  \<close>
\<close>

fun userTransactionRow :: "string \<Rightarrow> (node \<Rightarrow> props) \<Rightarrow> rel \<Rightarrow> props list" where
  "userTransactionRow userId nps (UserNode u, PARTICIPATED_IN transactionId role, TransactionNode t) =
     (if u = userId
      then [[(''transactionId'', AString t), (''role'', AString role),
             (''amount'', index (nps (TransactionNode t)) ''amount''),
             (''currency'', index (nps (TransactionNode t)) ''currency''),
             (''timestamp'', index (nps (TransactionNode t)) ''timestamp'')]]
      else [])"
| "userTransactionRow userId nps r = []"

definition run_userTransactionsCypher :: "string \<Rightarrow> graph \<Rightarrow> props list" where
  "run_userTransactionsCypher userId g =
     concat (map (userTransactionRow userId (nodeProps g)) (rels g))"

text \<open>
  \<^verbatim>\<open>
    MATCH (u:User {userId: $userId})-[:HAS_ATTRIBUTE]->(a:Attribute)<-[:HAS_ATTRIBUTE]-(other:User)
    WHERE other.userId <> $userId
    RETURN a.attributeType AS attributeType, a.value AS attributeHash,
      collect(DISTINCT other.userId) AS userIds
  \<close>
\<close>

fun otherUserWith :: "string \<Rightarrow> node \<Rightarrow> rel \<Rightarrow> string list" where
  "otherUserWith userId a (UserNode other, HAS_ATTRIBUTE, a') =
     (if a' = a \<and> other \<noteq> userId then [other] else [])"
| "otherUserWith userId a r = []"

definition otherUsers :: "string \<Rightarrow> node \<Rightarrow> graph \<Rightarrow> string list" where
  "otherUsers userId a g = remdups (concat (map (otherUserWith userId a) (rels g)))"

fun attributeOf :: "string \<Rightarrow> rel \<Rightarrow> node list" where
  "attributeOf userId (UserNode u, HAS_ATTRIBUTE, AttributeNode attributeType v) =
     (if u = userId then [AttributeNode attributeType v] else [])"
| "attributeOf userId r = []"

fun sharedAttributeRow :: "string list \<Rightarrow> node \<Rightarrow> props list" where
  "sharedAttributeRow userIds (AttributeNode attributeType v) =
     (if userIds = [] then []
      else [[(''attributeType'', AString attributeType), (''attributeHash'', AString v),
             (''userIds'', AList (map AString userIds))]])"
| "sharedAttributeRow userIds a = []"

definition run_userSharedAttributesCypher :: "string \<Rightarrow> graph \<Rightarrow> props list" where
  "run_userSharedAttributesCypher userId g =
     concat (map (\<lambda>a. sharedAttributeRow (otherUsers userId a g) a)
                 (remdups (concat (map (attributeOf userId) (rels g)))))"

text \<open>
  \<^verbatim>\<open>
    MATCH (t:Transaction {transactionId: $transactionId})<-[rel:PARTICIPATED_IN]-(user:User)
    RETURN user.userId AS userId, rel.role AS role, rel.amount AS amount,
      rel.currency AS currency,
      CASE WHEN rel.role = "SENDER" THEN "OUTBOUND" ELSE "INBOUND" END AS direction
  \<close>
\<close>

fun transactionUserRow :: "string \<Rightarrow> props \<Rightarrow> rel \<Rightarrow> props list" where
  "transactionUserRow transactionId ps (UserNode user, PARTICIPATED_IN tid role, TransactionNode t) =
     (if t = transactionId
      then [[(''userId'', AString user), (''role'', AString role),
             (''amount'', index ps ''amount''),
             (''currency'', index ps ''currency''),
             (''direction'', AString (if role = ''SENDER'' then ''OUTBOUND'' else ''INBOUND''))]]
      else [])"
| "transactionUserRow transactionId ps r = []"

definition run_transactionUsersCypher :: "string \<Rightarrow> graph \<Rightarrow> props list" where
  "run_transactionUsersCypher transactionId g =
     concat (map (\<lambda>r. transactionUserRow transactionId (relProps g r) r) (rels g))"

text \<open>
  \<^verbatim>\<open>
    MATCH (t:Transaction {transactionId: $transactionId})-[link:LINKED_TO]->(other:Transaction)
    RETURN other.transactionId AS otherTransactionId, link.linkType AS linkType,
      link.attributeHash AS attributeHash, link.score AS score, link.updatedAt AS updatedAt
  \<close>

  The pattern is directed: it follows the \<open>LINKED_TO\<close> relationships that start at \<open>t\<close>.
\<close>

fun linkedRow :: "string \<Rightarrow> props \<Rightarrow> rel \<Rightarrow> props list" where
  "linkedRow transactionId ps
       (TransactionNode t, LINKED_TO attributeHash linkType, TransactionNode other) =
     (if t = transactionId
      then [[(''otherTransactionId'', AString other), (''linkType'', AString linkType),
             (''attributeHash'', AString attributeHash),
             (''score'', index ps ''score''),
             (''updatedAt'', index ps ''updatedAt'')]]
      else [])"
| "linkedRow transactionId ps r = []"

definition run_transactionLinkedCypher :: "string \<Rightarrow> graph \<Rightarrow> props list" where
  "run_transactionLinkedCypher transactionId g =
     concat (map (\<lambda>r. linkedRow transactionId (relProps g r) r) (rels g))"

subsection \<open>The Neo4j client (graph/neo4j_client.go)\<close>

text \<open>
  \<open>ExecuteWrite\<close> and \<open>ExecuteRead\<close> both open a session and \<open>Run\<close> the statement; they
  differ in the access mode of the session only, and return the error of \<open>session.Run\<close> as
  it is.  The store is healthy: a statement fails only because its context is done; then
  nothing is written, and the error is the one the driver makes of it (\<open>runError\<close>, which
  need not wrap the error of the context).  What the store answers to \<open>shortestPathCypher\<close> (which of
  several shortest paths, if any) is a parameter, as is the instant its clock shows.
\<close>

record storeEnv =
  datetime :: Time
  shortestPathAnswer :: "string \<Rightarrow> string \<Rightarrow> graph \<Rightarrow> props list"
  runError :: "Context \<Rightarrow> statement \<Rightarrow> error"

definition session_Run :: "storeEnv \<Rightarrow> Context \<Rightarrow> statement \<Rightarrow> graph \<Rightarrow> (error + Result) \<times> graph" where
  "session_Run env ctx cypher g =
     (if ctx_Done ctx then (Inl (runError env ctx cypher), g)
      else
          (case cypher of
             upsertUserCypher p \<Rightarrow>
               (case run_upsertUserCypher p g of (res, g') \<Rightarrow> (Inr res, g'))
           | upsertTransactionCypher p \<Rightarrow>
               (case run_upsertTransactionCypher (datetime env) p g of (res, g') \<Rightarrow> (Inr res, g'))
           | userDirectLinksCypher userId \<Rightarrow>
               (Inr (Result (run_userDirectLinksCypher userId g)), g)
           | userTransactionsCypher userId \<Rightarrow>
               (Inr (Result (run_userTransactionsCypher userId g)), g)
           | userSharedAttributesCypher userId \<Rightarrow>
               (Inr (Result (run_userSharedAttributesCypher userId g)), g)
           | transactionUsersCypher transactionId \<Rightarrow>
               (Inr (Result (run_transactionUsersCypher transactionId g)), g)
           | transactionLinkedCypher transactionId \<Rightarrow>
               (Inr (Result (run_transactionLinkedCypher transactionId g)), g)
           | shortestPathCypher sourceId targetId \<Rightarrow>
               (Inr (Result (shortestPathAnswer env sourceId targetId g)), g)))"

definition neo4jClient :: "storeEnv \<Rightarrow> graph Client" where
  "neo4jClient env = \<lparr>ExecuteWrite = session_Run env, ExecuteRead = session_Run env\<rparr>"

definition exampleEnv :: storeEnv where
  "exampleEnv =
     \<lparr>datetime = 0, shortestPathAnswer = (\<lambda>sourceId targetId g. []),
      runError = (\<lambda>ctx cypher. ErrorString ''ConnectivityError'')\<rparr>"

section \<open>Bulk ingestion (service/worker.go)\<close>

text \<open>\<open>TaskError.asError\<close>: no error when nothing has been accumulated.\<close>

definition asError :: "error list \<Rightarrow> error option" where
  "asError errs = (if errs = [] then None else Some (TaskError errs))"

record 's BulkIngestor =
  service :: "'s RelationshipService"
  workers :: int

definition NewBulkIngestor :: "'s RelationshipService \<Rightarrow> int \<Rightarrow> 's BulkIngestor" where
  "NewBulkIngestor svc n = \<lparr>service = svc, workers = (if n \<le> 0 then 4 else n)\<rparr>"

text \<open>
  The loop of \<open>run\<close> over the closed \<open>errCh\<close>, with the errors accumulated so far:

  \<^verbatim>\<open>for err := range errCh {
    if err == nil { continue }
    if errors.Is(err, context.Canceled) || errors.Is(err, context.DeadlineExceeded) { return err }
    taskErr.append(err)
  }
  return taskErr.asError()\<close>
\<close>

fun drain :: "error list \<Rightarrow> error option list \<Rightarrow> error option" where
  "drain taskErr [] = asError taskErr"
| "drain taskErr (None # errCh) = drain taskErr errCh"
| "drain taskErr (Some e # errCh) =
     (if errors_Is e context_Canceled \<or> errors_Is e context_DeadlineExceeded then Some e
      else drain (taskErr @ [e]) errCh)"

text \<open>
  \<open>run\<close> starts \<open>workers\<close> goroutines that receive indices from the unbuffered \<open>indexCh\<close>,
  sends the indices \<open>0, 1, ...\<close> in order, closes the channel, waits for the workers and
  drains \<open>errCh\<close>.  What one execution does is fixed by the order of three kinds of events:

  \<^item> \<open>Call i t\<close>: a worker that has received index \<open>i\<close> runs \<open>workerFn(i)\<close>, the clock
    reading \<open>t\<close>; the call sees the context and the store as they are at that moment;
  \<^item> \<open>Select i arm\<close>: the worker whose call for \<open>i\<close> returned an error leaves its
    \<^verbatim>\<open>select { case errCh <- err: case <-ctx.Done(): return }\<close> by the given arm;
  \<^item> \<open>Cancel c\<close>: the context becomes done, with state \<open>c\<close>.

  The state of an execution: the context, the store, what the calls made so far returned
  (latest first), the workers waiting in their \<open>select\<close> with the error they hold, the number
  of workers that have returned through \<open>ctx.Done\<close>, and the content of \<open>errCh\<close>.
\<close>

datatype arm = SendErr | CtxDone

datatype event = Call nat Time | Select nat arm | Cancel Context

record 's runState =
  rs_ctx :: Context
  rs_store :: 's
  rs_returned :: "(nat \<times> error option) list"
  rs_selecting :: "(nat \<times> error) list"
  rs_exited :: nat
  rs_errCh :: "error option list"

definition start :: "Context \<Rightarrow> 's \<Rightarrow> 's runState" where
  "start ctx s =
     \<lparr>rs_ctx = ctx, rs_store = s, rs_returned = [], rs_selecting = [], rs_exited = 0,
      rs_errCh = []\<rparr>"

text \<open>
  When an event can happen.  The dispatcher sends the indices in order, each to a worker
  waiting on \<open>indexCh\<close>, so when the call for \<open>j\<close> runs every smaller index has been
  received: the workers holding a smaller index not yet run, the workers in their \<open>select\<close>
  and the workers that have returned are all different from the one running \<open>j\<close>.
  \<open>errCh\<close> has room for \<open>total\<close> errors, so the send is always possible; the other arm is
  possible once the context is done.
\<close>

fun enabled :: "int \<Rightarrow> nat \<Rightarrow> event \<Rightarrow> 's runState \<Rightarrow> bool" where
  "enabled n tot (Call j t) r =
     (j < tot \<and> j \<notin> fst ` set (rs_returned r) \<and>
      int (length (filter (\<lambda>i. i \<notin> fst ` set (rs_returned r)) [0..<j])
           + length (rs_selecting r) + rs_exited r) < n)"
| "enabled n tot (Select i SendErr) r = (i \<in> fst ` set (rs_selecting r))"
| "enabled n tot (Select i CtxDone) r = (i \<in> fst ` set (rs_selecting r) \<and> ctx_Done (rs_ctx r))"
| "enabled n tot (Cancel c) r = (rs_ctx r = Active \<and> c \<noteq> Active)"

fun step ::
  "(Time \<Rightarrow> Context \<Rightarrow> nat \<Rightarrow> 's \<Rightarrow> error option \<times> 's) \<Rightarrow> event \<Rightarrow> 's runState \<Rightarrow> 's runState" where
  "step workerFn (Call i t) r =
     (case workerFn t (rs_ctx r) i (rs_store r) of
        (None, s) \<Rightarrow> r\<lparr>rs_store := s, rs_returned := (i, None) # rs_returned r\<rparr>
      | (Some e, s) \<Rightarrow>
          r\<lparr>rs_store := s, rs_returned := (i, Some e) # rs_returned r,
            rs_selecting := (i, e) # rs_selecting r\<rparr>)"
| "step workerFn (Select i SendErr) r =
     (case map_of (rs_selecting r) i of
        None \<Rightarrow> r
      | Some e \<Rightarrow>
          r\<lparr>rs_selecting := remove1 (i, e) (rs_selecting r), rs_errCh := rs_errCh r @ [Some e]\<rparr>)"
| "step workerFn (Select i CtxDone) r =
     (case map_of (rs_selecting r) i of
        None \<Rightarrow> r
      | Some e \<Rightarrow>
          r\<lparr>rs_selecting := remove1 (i, e) (rs_selecting r), rs_exited := rs_exited r + 1\<rparr>)"
| "step workerFn (Cancel c) r = r\<lparr>rs_ctx := c\<rparr>"

text \<open>
  \<open>wg.Wait\<close> returns when every worker has returned: no worker is left in its \<open>select\<close>, the
  indices sent are \<open>0, ..., m - 1\<close> and each has been run, and the dispatcher has sent them all
  unless it left its loop through \<open>ctx.Done\<close>.
\<close>

definition finished :: "nat \<Rightarrow> 's runState \<Rightarrow> bool" where
  "finished tot r =
     (rs_selecting r = [] \<and>
      list_all (\<lambda>i. i < length (rs_returned r)) (map fst (rs_returned r)) \<and>
      (length (rs_returned r) = tot \<or> ctx_Done (rs_ctx r)))"

text \<open>The state when the workers have returned, or \<open>None\<close> when the events are not an
  execution of \<open>run\<close>.\<close>

fun exec ::
  "int \<Rightarrow> nat \<Rightarrow> (Time \<Rightarrow> Context \<Rightarrow> nat \<Rightarrow> 's \<Rightarrow> error option \<times> 's) \<Rightarrow> event list \<Rightarrow> 's runState
     \<Rightarrow> 's runState option" where
  "exec n tot workerFn [] r = (if finished tot r then Some r else None)"
| "exec n tot workerFn (ev # sched) r =
     (if enabled n tot ev r then exec n tot workerFn sched (step workerFn ev r) else None)"

text \<open>\<open>run\<close>: the error returned and the store afterwards.  With \<open>total = 0\<close> it returns
  before any goroutine is started.\<close>

definition run ::
  "'s BulkIngestor \<Rightarrow> Context \<Rightarrow> nat \<Rightarrow> (Time \<Rightarrow> Context \<Rightarrow> nat \<Rightarrow> 's \<Rightarrow> error option \<times> 's)
     \<Rightarrow> event list \<Rightarrow> 's \<Rightarrow> (error option \<times> 's) option" where
  "run bi ctx tot workerFn sched s =
     (case exec (workers bi) tot workerFn sched (start ctx s) of
        None \<Rightarrow> None
      | Some r \<Rightarrow> Some (if tot = 0 then None else drain [] (rs_errCh r), rs_store r))"

definition usersWorkerFn ::
  "stdlib \<Rightarrow> 's BulkIngestor \<Rightarrow> UserInput list \<Rightarrow> Time \<Rightarrow> Context \<Rightarrow> nat \<Rightarrow> 's \<Rightarrow> error option \<times> 's" where
  "usersWorkerFn lib bi inputs t ctx idx =
     RelationshipService_UpsertUser lib ((service bi)\<lparr>nowFn := t\<rparr>) ctx (inputs ! idx)"

definition transactionsWorkerFn ::
  "'s BulkIngestor \<Rightarrow> TransactionInput list \<Rightarrow> Time \<Rightarrow> Context \<Rightarrow> nat \<Rightarrow> 's
     \<Rightarrow> error option \<times> 's" where
  "transactionsWorkerFn bi inputs t ctx idx =
     RelationshipService_UpsertTransaction ((service bi)\<lparr>nowFn := t\<rparr>) ctx (inputs ! idx)"

definition IngestUsers ::
  "stdlib \<Rightarrow> 's BulkIngestor \<Rightarrow> Context \<Rightarrow> UserInput list \<Rightarrow> event list \<Rightarrow> 's
     \<Rightarrow> (error option \<times> 's) option" where
  "IngestUsers lib bi ctx inputs sched s =
     run bi ctx (length inputs) (usersWorkerFn lib bi inputs) sched s"

definition IngestTransactions ::
  "'s BulkIngestor \<Rightarrow> Context \<Rightarrow> TransactionInput list \<Rightarrow> event list \<Rightarrow> 's
     \<Rightarrow> (error option \<times> 's) option" where
  "IngestTransactions bi ctx inputs sched s =
     run bi ctx (length inputs) (transactionsWorkerFn bi inputs) sched s"

section \<open>Vocabulary of the statements about the store\<close>

text \<open>\<open>mergeAll xs ys\<close>: the list \<open>ys\<close> after a \<open>MERGE\<close> of each identity of \<open>xs\<close> in turn.\<close>

definition mergeAll :: "'a list \<Rightarrow> 'a list \<Rightarrow> 'a list" where
  "mergeAll xs ys = fold (\<lambda>x acc. if x \<in> set acc then acc else acc @ [x]) xs ys"

definition attributeNode :: "AttributeParam \<Rightarrow> node" where
  "attributeNode attr = AttributeNode (ap_type attr) (ap_value attr)"

text \<open>The nodes and relationships that \<open>upsertUserCypher\<close> merges, in the order of its
  clauses.\<close>

definition userNodeTargets :: "UpsertUserParams \<Rightarrow> node list" where
  "userNodeTargets p =
     UserNode (up_userId p) # map attributeNode (up_attributes p)
       @ map (\<lambda>pm. PaymentMethodNode (pp_id pm)) (up_paymentMethods p)"

definition userRelTargets :: "UpsertUserParams \<Rightarrow> rel list" where
  "userRelTargets p =
     map (\<lambda>attr. (UserNode (up_userId p), HAS_ATTRIBUTE, attributeNode attr)) (up_attributes p)
       @ map (\<lambda>pm. (UserNode (up_userId p), USES_PAYMENT_METHOD, PaymentMethodNode (pp_id pm)))
             (up_paymentMethods p)"

text \<open>The nodes that \<open>upsertTransactionCypher\<close> merges, and the relationships it merges
  before it looks for the other transactions.\<close>

definition transactionNodeTargets :: "UpsertTransactionParams \<Rightarrow> node list" where
  "transactionNodeTargets p =
     TransactionNode (tp_transactionId p) # map attributeNode (tp_attributes p)"

definition transactionRelTargets :: "UpsertTransactionParams \<Rightarrow> rel list" where
  "transactionRelTargets p =
     [(UserNode (tp_senderId p), PARTICIPATED_IN (tp_transactionId p) ''SENDER'',
         TransactionNode (tp_transactionId p)),
      (UserNode (tp_receiverId p), PARTICIPATED_IN (tp_transactionId p) ''RECEIVER'',
         TransactionNode (tp_transactionId p)),
      (UserNode (tp_senderId p), SENT_TO (tp_transactionId p), UserNode (tp_receiverId p)),
      (UserNode (tp_receiverId p), RECEIVED_FROM (tp_transactionId p), UserNode (tp_senderId p))]
     @ map (\<lambda>attr. (TransactionNode (tp_transactionId p), HAS_ATTRIBUTE, attributeNode attr))
           (tp_attributes p)"

definition linkRel :: "string \<Rightarrow> AttributeParam \<times> node \<Rightarrow> rel" where
  "linkRel transactionId row =
     (TransactionNode transactionId, LINKED_TO (ap_value (fst row)) (ap_type (fst row)), snd row)"

text \<open>The service as \<open>cmd/ingest\<close> and \<open>cmd/server\<close> build it: the repository over the Neo4j
  client, with the default attribute generator.\<close>

definition graphService :: "stdlib \<Rightarrow> storeEnv \<Rightarrow> Time \<Rightarrow> graph RelationshipService" where
  "graphService lib env now =
     NewRelationshipService lib (repository_New lib (neo4jClient env)) now"

definition notHasAttribute :: "rel \<Rightarrow> bool" where
  "notHasAttribute r = (fst (snd r) \<noteq> HAS_ATTRIBUTE)"

text \<open>Both users of the transaction are stored (the two \<open>MATCH\<close> clauses give a row).\<close>

definition usersPresent :: "UpsertTransactionParams \<Rightarrow> graph \<Rightarrow> bool" where
  "usersPresent p g =
     (UserNode (tp_senderId p) \<in> set (nodes g) \<and> UserNode (tp_receiverId p) \<in> set (nodes g))"

text \<open>The stored nodes and relationships when the statement looks for the other
  transactions, the rows it then links, and whether it links the payment method.\<close>

definition beforeLinking :: "UpsertTransactionParams \<Rightarrow> graph \<Rightarrow> graph" where
  "beforeLinking p g =
     g\<lparr>nodes := mergeAll (transactionNodeTargets p) (nodes g),
       rels := mergeAll (transactionRelTargets p) (rels g)\<rparr>"

definition transactionLinkRows :: "UpsertTransactionParams \<Rightarrow> graph \<Rightarrow> (AttributeParam \<times> node) list" where
  "transactionLinkRows p g =
     linkRows (tp_transactionId p) (tp_attributes p) (beforeLinking p g)"

definition pmRel :: "UpsertTransactionParams \<Rightarrow> rel" where
  "pmRel p = (TransactionNode (tp_transactionId p), PAYMENT_METHOD_RELATES,
              PaymentMethodNode (tp_paymentMethodId p))"

definition pmLinked :: "UpsertTransactionParams \<Rightarrow> graph \<Rightarrow> bool" where
  "pmLinked p g =
     (transactionLinkRows p g \<noteq> [] \<and> tp_paymentMethodId p \<noteq> '''' \<and>
      PaymentMethodNode (tp_paymentMethodId p)
        \<in> set (mergeAll (transactionNodeTargets p) (nodes g)))"

text \<open>The statements that only read: those made of \<open>MATCH\<close>, \<open>WHERE\<close> and \<open>RETURN\<close>
  clauses.\<close>

fun readOnly :: "statement \<Rightarrow> bool" where
  "readOnly (upsertUserCypher p) = False"
| "readOnly (upsertTransactionCypher p) = False"
| "readOnly (userDirectLinksCypher userId) = True"
| "readOnly (userTransactionsCypher userId) = True"
| "readOnly (userSharedAttributesCypher userId) = True"
| "readOnly (transactionUsersCypher transactionId) = True"
| "readOnly (transactionLinkedCypher transactionId) = True"
| "readOnly (shortestPathCypher sourceId targetId) = True"

text \<open>How \<open>fetchLinkedTransactions\<close> decodes one record, the parameter of the \<open>IP\<close>
  attribute that \<open>FromTransaction\<close> derives from a trimmed address, and the parameters the
  service over the store runs \<open>upsertTransactionCypher\<close> with.\<close>

definition linkedOf :: "stdlib \<Rightarrow> props \<Rightarrow> LinkedTransaction" where
  "linkedOf lib record =
     \<lparr>lt_TransactionID = toString lib (index record ''otherTransactionId''),
      lt_LinkType = toString lib (index record ''linkType''),
      lt_AttributeHash = toString lib (index record ''attributeHash''),
      lt_Score = toFloat64 (index record ''score''),
      lt_LastUpdated = toTimePtr lib (index record ''updatedAt'')\<rparr>"

definition ipParam :: "stdlib \<Rightarrow> string \<Rightarrow> AttributeParam" where
  "ipParam lib ip =
     \<lparr>ap_type = ''IP'', ap_value = hashValue lib ip, ap_rawValue = ip,
      ap_confidence = 85 / 100, ap_score = 85 / 100\<rparr>"

definition transactionParamsOf ::
  "stdlib \<Rightarrow> storeEnv \<Rightarrow> Time \<Rightarrow> TransactionInput \<Rightarrow> UpsertTransactionParams" where
  "transactionParamsOf lib env now input =
     upsertTransactionParams lib (transactionFromInput (graphService lib env now) input)
       (FromTransaction lib input)"

text \<open>A transaction payload that passes the checks of the service, and one whose users are
  stored.\<close>

definition validTransaction :: "TransactionInput \<Rightarrow> bool" where
  "validTransaction input =
     (ti_ID input \<noteq> '''' \<and> ti_SenderUserID input \<noteq> '''' \<and> ti_ReceiverUserID input \<noteq> '''')"

definition usersStored :: "TransactionInput \<Rightarrow> graph \<Rightarrow> bool" where
  "usersStored input g =
     (UserNode (ti_SenderUserID input) \<in> set (nodes g) \<and>
      UserNode (ti_ReceiverUserID input) \<in> set (nodes g))"

text \<open>No relationship of the store starts or ends at the node.\<close>

definition untouched :: "node \<Rightarrow> graph \<Rightarrow> bool" where
  "untouched n g = list_all (\<lambda>r. fst r \<noteq> n \<and> snd (snd r) \<noteq> n) (rels g)"

text \<open>The store after a payload has been upserted through the service, with a context that
  is not done.\<close>

definition afterUser :: "stdlib \<Rightarrow> storeEnv \<Rightarrow> Time \<Rightarrow> UserInput \<Rightarrow> graph \<Rightarrow> graph" where
  "afterUser lib env now input g =
     snd (RelationshipService_UpsertUser lib (graphService lib env now) Active input g)"

definition afterTransaction :: "stdlib \<Rightarrow> storeEnv \<Rightarrow> Time \<Rightarrow> TransactionInput \<Rightarrow> graph \<Rightarrow> graph" where
  "afterTransaction lib env now input g =
     snd (RelationshipService_UpsertTransaction (graphService lib env now) Active input g)"

definition attributeKeys :: "Attribute list \<Rightarrow> (string \<times> string) list" where
  "attributeKeys attrs = map (\<lambda>a. (Type a, Value a)) attrs"

text \<open>Vocabulary of the statements about bulk ingestion: the events that cancel the
  context, the errors that \<open>run\<close> returns as they are, and what holds at every moment of an
  execution whose context stays active, for calls that reject the items satisfying \<open>invalid\<close>
  with an error satisfying \<open>V\<close> and store the others.\<close>

fun isCancel :: "event \<Rightarrow> bool" where
  "isCancel (Cancel c) = True"
| "isCancel ev = False"

definition cancellation :: "error \<Rightarrow> bool" where
  "cancellation e = (errors_Is e context_Canceled \<or> errors_Is e context_DeadlineExceeded)"

definition settled ::
  "nat \<Rightarrow> (nat \<Rightarrow> bool) \<Rightarrow> (error \<Rightarrow> bool) \<Rightarrow> ('s \<Rightarrow> bool) \<Rightarrow> (nat \<Rightarrow> 's \<Rightarrow> bool) \<Rightarrow> 's runState \<Rightarrow> bool" where
  "settled tot invalid V keeps stored r =
     (rs_ctx r = Active \<and> keeps (rs_store r) \<and> distinct (map fst (rs_returned r)) \<and>
      (\<forall>i \<in> fst ` set (rs_returned r). i < tot \<and> (invalid i \<or> stored i (rs_store r))) \<and>
      list_all V (map snd (rs_selecting r)) \<and>
      (\<exists>es. rs_errCh r = map Some es \<and> list_all V es \<and>
            length es + length (rs_selecting r)
              = length (filter invalid (map fst (rs_returned r)))))"


text \<open>The execution in which one worker after the other takes the next index, runs it at
  clock reading \<open>t\<close> and sends its error, if any, before the next index is taken.\<close>

fun sequential ::
  "(Time \<Rightarrow> Context \<Rightarrow> nat \<Rightarrow> 's \<Rightarrow> error option \<times> 's) \<Rightarrow> Time \<Rightarrow> nat list \<Rightarrow> 's \<Rightarrow> event list" where
  "sequential workerFn t [] s = []"
| "sequential workerFn t (i # rest) s =
     (case workerFn t Active i s of
        (None, s') \<Rightarrow> Call i t # sequential workerFn t rest s'
      | (Some e, s') \<Rightarrow> Call i t # Select i SendErr # sequential workerFn t rest s')"

section \<open>Example inputs\<close>

text \<open>Concrete payloads on which the theorems below are evaluated.\<close>

definition noAddress :: AddressInput where
  "noAddress = \<lparr>Line1 = '''', Line2 = '''', City = '''', State = '''', PostalCode = '''',
                 Country = ''''\<rparr>"

definition addrA :: AddressInput where
  "addrA = noAddress\<lparr>Line1 := ''a|''\<rparr>"

definition addrB :: AddressInput where
  "addrB = noAddress\<lparr>Line1 := ''a'', Line2 := ''|''\<rparr>"

definition addrC :: AddressInput where
  "addrC = \<lparr>Line1 = '' 12 Main St'', Line2 = '''', City = ''Springfield'', State = ''IL'',
            PostalCode = ''62701'', Country = ''US ''\<rparr>"

definition addrD :: AddressInput where
  "addrD = \<lparr>Line1 = ''12 MAIN ST  '', Line2 = '''', City = ''springfield'', State = ''il'',
            PostalCode = ''62701'', Country = ''us''\<rparr>"

text \<open>The city names \<open>ZURICH\<close> and \<open>zurich\<close> written with the letter U with diaeresis, in
  UTF-8 (\<open>U+00DC\<close> is \<open>C3 9C\<close>, \<open>U+00FC\<close> is \<open>C3 BC\<close>).\<close>

definition addrE :: AddressInput where
  "addrE = noAddress\<lparr>City := ''Z'' @ [CHR 0xC3, CHR 0x9C] @ ''RICH''\<rparr>"

definition addrF :: AddressInput where
  "addrF = noAddress\<lparr>City := ''z'' @ [CHR 0xC3, CHR 0xBC] @ ''rich''\<rparr>"

definition userInput :: "string \<Rightarrow> UserInput" where
  "userInput uid =
     \<lparr>ui_ID = uid, ui_FullName = '''', ui_Email = '''', ui_Phone = '''', ui_Address = noAddress,
      ui_DateOfBirth = None, ui_KYCStatus = '''', ui_RiskScore = 0, ui_PaymentMethods = [],
      ui_Attributes = [], ui_CreatedAt = None, ui_UpdatedAt = None\<rparr>"

definition customAttribute :: "string \<Rightarrow> real \<Rightarrow> AttributeInput" where
  "customAttribute v score =
     \<lparr>ai_Type = ''CUSTOM'', ai_Value = v, ai_RawValue = '''', ai_ConfidenceScore = score\<rparr>"

definition transactionInput :: "string \<Rightarrow> string \<Rightarrow> string \<Rightarrow> string \<Rightarrow> Time \<Rightarrow> TransactionInput" where
  "transactionInput tid sender receiver ip ts =
     \<lparr>ti_ID = tid, ti_SenderUserID = sender, ti_ReceiverUserID = receiver, ti_Amount = 100,
      ti_Currency = ''USD'', ti_Type = ''TRANSFER'', ti_Status = ''COMPLETED'',
      ti_Channel = ''WEB'', ti_IPAddress = ip, ti_DeviceID = '''', ti_PaymentMethodID = '''',
      ti_Timestamp = ts, ti_Metadata = [], ti_CreatedAt = None, ti_UpdatedAt = None\<rparr>"

definition userDoubleZero :: UserInput where
  "userDoubleZero = (userInput ''USR-1'')\<lparr>ui_Phone := ''0-0''\<rparr>"

definition userDoubleZeroToo :: UserInput where
  "userDoubleZeroToo = (userInput ''USR-2'')\<lparr>ui_Phone := ''00''\<rparr>"

definition userWithCustomAttributes :: UserInput where
  "userWithCustomAttributes =
     (userInput ''USR-1'')\<lparr>ui_Attributes := [customAttribute ''v1'' (- 3),
                                              customAttribute ''v2'' 7,
                                              customAttribute ''v3'' 0]\<rparr>"

definition exampleTransaction :: Transaction where
  "exampleTransaction =
     \<lparr>tx_ID = ''TX-1'', tx_SenderUserID = ''USR-A'', tx_ReceiverUserID = ''USR-B'',
      tx_Amount = 100, tx_Currency = ''USD'', tx_Type = ''TRANSFER'', tx_Status = ''COMPLETED'',
      tx_Channel = ''WEB'', tx_IPAddress = ''203.0.113.24'', tx_DeviceID = '''',
      tx_PaymentMethodID = '''', tx_Timestamp = 1, tx_Metadata = [], tx_CreatedAt = 1,
      tx_UpdatedAt = 1\<rparr>"

definition exampleIPAttribute :: Attribute where
  "exampleIPAttribute =
     \<lparr>Type = ''IP'', Value = ''hash:203.0.113.24'', RawValue = ''203.0.113.24'',
      ConfidenceScore = 85 / 100\<rparr>"

text \<open>Two users, and two transactions between them from the same IP address on different
  days; the second payload has the address between a no-break space (\<open>U+00A0\<close>, in UTF-8
  \<open>C2 A0\<close>) with a space and a trailing space.\<close>

definition storeWithUsers :: graph where
  "storeWithUsers =
     afterUser exampleLib exampleEnv 0 (userInput ''USR-B'')
       (afterUser exampleLib exampleEnv 0 (userInput ''USR-A'') emptyGraph)"

definition firstTransaction :: TransactionInput where
  "firstTransaction = transactionInput ''TX-1'' ''USR-A'' ''USR-B'' ''203.0.113.24'' 0"

definition secondTransaction :: TransactionInput where
  "secondTransaction =
     transactionInput ''TX-2'' ''USR-B'' ''USR-A''
       ([CHR 0xC2, CHR 0xA0] @ '' 203.0.113.24 '') 86400000000000"

definition storeWithBoth :: graph where
  "storeWithBoth =
     afterTransaction exampleLib exampleEnv 0 secondTransaction
       (afterTransaction exampleLib exampleEnv 0 firstTransaction storeWithUsers)"


text \<open>Batches with one item that misses its key, a repository whose user upsert fails, and
  an execution in which the context is cancelled between two items.\<close>

definition bulkUsers :: "UserInput list" where
  "bulkUsers = [userInput ''USR-A'', userInput '''', userInput ''USR-B'']"

definition bulkTransactions :: "TransactionInput list" where
  "bulkTransactions =
     [firstTransaction, transactionInput '''' ''USR-A'' ''USR-B'' ''203.0.113.24'' 0,
      secondTransaction]"

definition failingStub :: stubRepository where
  "failingStub = emptyStub\<lparr>userErr := Some (ErrorString ''boom'')\<rparr>"

definition cancelledMidway :: "event list" where
  "cancelledMidway = [Call 0 0, Select 0 SendErr, Cancel CtxCanceled, Call 1 0, Select 1 CtxDone]"


text \<open>Executions of these batches with two workers, the service of the tests over the stub
  repository, and a stub whose user upsert answers \<open>context.Canceled\<close>.\<close>

definition interleaved :: "event list" where
  "interleaved = [Call 1 0, Call 0 0, Select 1 SendErr, Call 2 0]"

definition inOrder :: "event list" where
  "inOrder = [Call 0 0, Call 1 0, Select 1 SendErr, Call 2 0]"

definition bothFail :: "event list" where
  "bothFail = [Call 0 0, Call 1 0, Select 0 SendErr, Select 1 SendErr]"

definition mixedUsers :: "UserInput list" where
  "mixedUsers = [userInput '''', userInput ''USR-A'']"

definition stubService :: "stubRepository RelationshipService" where
  "stubService = NewRelationshipService exampleLib stubRepo 0"

definition cancelledStub :: stubRepository where
  "cancelledStub = emptyStub\<lparr>userErr := Some context_Canceled\<rparr>"

section \<open>Strings\<close>

lemma DecodeRuneInString_token:
  assumes "s \<noteq> []" "DecodeRuneInString s = (r, w)"
  shows "1 \<le> w \<and> w \<le> length s \<and>
         ((2 \<le> w \<or> IsSpace r) \<longrightarrow> (\<forall>k<w. \<not> isDigit (s ! k)))"
proof -
  have k4: "\<And>P. (\<forall>k<4. P k) = (P 0 \<and> P 1 \<and> P 2 \<and> P (3::nat))"
  proof -
    fix P :: "nat \<Rightarrow> bool"
    have "\<And>k. k < 4 \<longleftrightarrow> k = 0 \<or> k = 1 \<or> k = 2 \<or> k = (3::nat)" by auto
    then show "(\<forall>k<4. P k) = (P 0 \<and> P 1 \<and> P 2 \<and> P 3)" by auto
  qed
  have k3: "\<And>P. (\<forall>k<3. P k) = (P 0 \<and> P 1 \<and> P (2::nat))"
  proof -
    fix P :: "nat \<Rightarrow> bool"
    have "\<And>k. k < 3 \<longleftrightarrow> k = 0 \<or> k = 1 \<or> k = (2::nat)" by auto
    then show "(\<forall>k<3. P k) = (P 0 \<and> P 1 \<and> P 2)" by auto
  qed
  have k2: "\<And>P. (\<forall>k<2. P k) = (P 0 \<and> P (1::nat))"
  proof -
    fix P :: "nat \<Rightarrow> bool"
    have "\<And>k. k < 2 \<longleftrightarrow> k = 0 \<or> k = (1::nat)" by auto
    then show "(\<forall>k<2. P k) = (P 0 \<and> P 1)" by auto
  qed
  have len: "Suc 0 \<le> length s" using assms(1) by (cases s) simp_all
  show ?thesis
    using assms len
    by (auto simp add: DecodeRuneInString_def Let_def isDigit_def IsSpace_def RuneError_def
        k2 k3 k4 split: if_splits)
qed

lemma lastRuneStart_bounds:
  assumes "s \<noteq> []"
  shows "0 \<le> lastRuneStart s \<and> lastRuneStart s < int (length s)"
proof -
  let ?n = "int (length s)"
  let ?lim = "max 0 (?n - 4)"
  let ?prev = "case find (\<lambda>k. RuneStart (s ! nat k)) (rev [?lim..?n - 2]) of
                 Some k \<Rightarrow> k | None \<Rightarrow> ?lim - 1"
  have len: "Suc 0 \<le> length s" using assms by (cases s) simp_all
  have "?prev \<le> ?n - 2"
  proof (cases "find (\<lambda>k. RuneStart (s ! nat k)) (rev [?lim..?n - 2])")
    case None
    then show ?thesis using len by (simp add: max_def)
  next
    case (Some k)
    then have "k \<in> set (rev [?lim..?n - 2])" by (metis find_Some_iff nth_mem)
    then show ?thesis using Some by simp
  qed
  moreover have "0 < ?n" using assms by simp
  ultimately show ?thesis by (auto simp add: lastRuneStart_def Let_def)
qed

lemma DecodeLastRuneInString_token:
  assumes "s \<noteq> []" "DecodeLastRuneInString s = (r, w)"
  shows "1 \<le> w \<and> w \<le> length s \<and>
         ((2 \<le> w \<or> IsSpace r) \<longrightarrow> (\<forall>k. length s - w \<le> k \<and> k < length s \<longrightarrow> \<not> isDigit (s ! k)))"
proof -
  let ?n = "int (length s)"
  let ?r0 = "int (of_char (s ! nat (?n - 1)) :: nat)"
  have len: "Suc 0 \<le> length s" using assms(1) by (cases s) simp_all
  show ?thesis
  proof (cases "?r0 < 0x80")
    case True
    with assms len have rw: "r = ?r0" "w = 1"
      by (simp_all add: DecodeLastRuneInString_def Let_def)
    have last: "nat (?n - 1) = length s - 1" by simp
    have "IsSpace r \<Longrightarrow> \<not> isDigit (s ! (length s - 1))"
      using rw(1) True by (auto simp add: IsSpace_def isDigit_def last)
    moreover have "\<And>k. length s - 1 \<le> k \<and> k < length s \<Longrightarrow> k = length s - 1" by auto
    ultimately show ?thesis using rw len by auto
  next
    case False
    define frm where "frm = lastRuneStart s"
    obtain r' w' where d: "DecodeRuneInString (drop (nat frm) s) = (r', w')"
      by (cases "DecodeRuneInString (drop (nat frm) s)")
    have res: "(r, w) = (if frm + int w' \<noteq> ?n then (RuneError, 1) else (r', w'))"
      using assms False len d by (simp add: DecodeLastRuneInString_def Let_def frm_def)
    from lastRuneStart_bounds[OF assms(1)] have f0: "0 \<le> frm" "frm < ?n"
      by (simp_all add: frm_def)
    show ?thesis
    proof (cases "frm + int w' \<noteq> ?n")
      case True
      with res have "r = RuneError" "w = 1" by simp_all
      then show ?thesis using len by (simp add: IsSpace_def RuneError_def)
    next
      case eq: False
      with res have rw: "r = r'" "w = w'" by simp_all
      from eq f0 have fw: "nat frm + w' = length s" by linarith
      have ne: "drop (nat frm) s \<noteq> []" using f0 by simp
      from DecodeRuneInString_token[OF ne d]
      have t: "1 \<le> w'" "(2 \<le> w' \<or> IsSpace r') \<longrightarrow> (\<forall>k<w'. \<not> isDigit (drop (nat frm) s ! k))"
        by simp_all
      have "(2 \<le> w \<or> IsSpace r) \<longrightarrow>
              (\<forall>k. length s - w \<le> k \<and> k < length s \<longrightarrow> \<not> isDigit (s ! k))"
      proof (intro impI allI)
        fix k assume a: "2 \<le> w \<or> IsSpace r" and k: "length s - w \<le> k \<and> k < length s"
        from fw rw have st: "length s - w = nat frm" by linarith
        with k have "k - nat frm < w'" "nat frm + (k - nat frm) = k" using fw by linarith+
        moreover from a rw t(2) have "\<forall>j<w'. \<not> isDigit (drop (nat frm) s ! j)" by simp
        ultimately have "\<not> isDigit (drop (nat frm) s ! (k - nat frm))" by blast
        moreover have "drop (nat frm) s ! (k - nat frm) = s ! k"
          using k st by (simp add: nth_drop)
        ultimately show "\<not> isDigit (s ! k)" by simp
      qed
      moreover have "1 \<le> w \<and> w \<le> length s" using t(1) rw fw by linarith
      ultimately show ?thesis by blast
    qed
  qed
qed

lemma filter_take_tail:
  "(\<forall>k. m \<le> k \<and> k < length s \<longrightarrow> \<not> P (s ! k)) \<Longrightarrow> filter P (take m s) = filter P s"
proof -
  assume a: "\<forall>k. m \<le> k \<and> k < length s \<longrightarrow> \<not> P (s ! k)"
  have "filter P (drop m s) = []"
    using a by (auto simp add: filter_empty_conv in_set_conv_nth)
  then show ?thesis by (metis append_take_drop_id filter_append append_Nil2)
qed

lemma filter_drop_head:
  "(\<forall>k<m. k < length s \<longrightarrow> \<not> P (s ! k)) \<Longrightarrow> filter P (drop m s) = filter P s"
proof -
  assume a: "\<forall>k<m. k < length s \<longrightarrow> \<not> P (s ! k)"
  have "filter P (take m s) = []"
    using a by (auto simp add: filter_empty_conv in_set_conv_nth)
  then show ?thesis by (metis append_take_drop_id filter_append append_Nil)
qed

lemma range_from_digits:
  "i \<le> length s \<Longrightarrow>
   (case find (\<lambda>(j, r). IsSpace r = False) (range_from s i) of
      Some (j, r) \<Rightarrow> j \<le> length s \<and> filter isDigit (drop j s) = filter isDigit (drop i s)
    | None \<Rightarrow> filter isDigit (drop i s) = [])"
proof (induction s i rule: range_from.induct)
  case (1 s i)
  show ?case
  proof (cases "i < length s")
    case False
    then have "range_from s i = []" by (subst range_from.simps) simp
    with 1(2) False show ?thesis by simp
  next
    case True
    obtain r w where d: "DecodeRuneInString (drop i s) = (r, w)"
      by (cases "DecodeRuneInString (drop i s)")
    have ne: "drop i s \<noteq> []" using True by simp
    from DecodeRuneInString_token[OF ne d]
    have t: "1 \<le> w" "w \<le> length s - i"
      "(2 \<le> w \<or> IsSpace r) \<longrightarrow> (\<forall>k<w. \<not> isDigit (drop i s ! k))" by simp_all
    have unf: "range_from s i = (i, r) # range_from s (i + w)"
      using True d by (simp add: range_from.simps[of s i])
    show ?thesis
    proof (cases "IsSpace r")
      case False
      then show ?thesis using True by (simp add: unf)
    next
      case sp: True
      have le: "i + w \<le> length s" using t(2) True by linarith
      have "filter isDigit (drop w (drop i s)) = filter isDigit (drop i s)"
        using t(3) sp by (intro filter_drop_head) blast
      then have step: "filter isDigit (drop (i + w) s) = filter isDigit (drop i s)"
        by (simp add: add.commute)
      from "1.IH"[OF True d[symmetric] le]
      show ?thesis using sp step by (simp add: unf split: option.splits prod.splits)
    qed
  qed
qed

lemma filter_isDigit_TrimLeftFunc:
  "filter isDigit (TrimLeftFunc s IsSpace) = filter isDigit s"
  using range_from_digits[of 0 s]
  by (auto simp add: TrimLeftFunc_def indexFunc_def Let_def split: option.splits prod.splits)

lemma lastIndexFunc_digits:
  "(lastIndexFunc s IsSpace False = - 1 \<and> filter isDigit s = []) \<or>
   (0 \<le> lastIndexFunc s IsSpace False \<and> lastIndexFunc s IsSpace False < int (length s) \<and>
    (\<forall>k. lastIndexFunc s IsSpace False < int k \<and> k < length s \<longrightarrow> \<not> isDigit (s ! k)))"
proof (induction s IsSpace False rule: lastIndexFunc.induct)
  case (1 s)
  show ?case
  proof (cases "s = []")
    case True
    then have "lastIndexFunc s IsSpace False = - 1" by (subst lastIndexFunc.simps) simp
    with True show ?thesis by simp
  next
    case False
    obtain r w where d: "DecodeLastRuneInString s = (r, w)"
      by (cases "DecodeLastRuneInString s")
    from DecodeLastRuneInString_token[OF False d]
    have t: "1 \<le> w" "w \<le> length s"
      "(2 \<le> w \<or> IsSpace r) \<longrightarrow> (\<forall>k. length s - w \<le> k \<and> k < length s \<longrightarrow> \<not> isDigit (s ! k))"
      by simp_all
    show ?thesis
    proof (cases "IsSpace r")
      case nsp: False
      then have v: "lastIndexFunc s IsSpace False = int (length s - w)"
        using False d by (simp add: lastIndexFunc.simps[of s])
      have "\<forall>k. int (length s - w) < int k \<and> k < length s \<longrightarrow> \<not> isDigit (s ! k)"
      proof (intro allI impI)
        fix k assume k: "int (length s - w) < int k \<and> k < length s"
        then have "2 \<le> w" using t(1,2) by linarith
        with t(3) k show "\<not> isDigit (s ! k)" by simp
      qed
      then show ?thesis using v t(1,2) False by (cases s) auto
    next
      case sp: True
      let ?s' = "take (length s - w) s"
      have v: "lastIndexFunc s IsSpace False = lastIndexFunc ?s' IsSpace False"
        using False d sp by (simp add: lastIndexFunc.simps[of s])
      have tail: "\<forall>k. length s - w \<le> k \<and> k < length s \<longrightarrow> \<not> isDigit (s ! k)"
        using t(3) sp by simp
      have fil: "filter isDigit ?s' = filter isDigit s"
        using tail by (rule filter_take_tail)
      have len': "length ?s' = length s - w" by simp
      have "IsSpace r \<noteq> False" using sp by simp
      from "1.hyps"[OF False d[symmetric] this]
      have IH: "(lastIndexFunc ?s' IsSpace False = - 1 \<and> filter isDigit ?s' = []) \<or>
         (0 \<le> lastIndexFunc ?s' IsSpace False \<and>
          lastIndexFunc ?s' IsSpace False < int (length ?s') \<and>
          (\<forall>k. lastIndexFunc ?s' IsSpace False < int k \<and> k < length ?s' \<longrightarrow> \<not> isDigit (?s' ! k)))"
        by simp
      then show ?thesis
      proof
        assume "lastIndexFunc ?s' IsSpace False = - 1 \<and> filter isDigit ?s' = []"
        then show ?thesis using v fil by simp
      next
        assume a: "0 \<le> lastIndexFunc ?s' IsSpace False \<and>
          lastIndexFunc ?s' IsSpace False < int (length ?s') \<and>
          (\<forall>k. lastIndexFunc ?s' IsSpace False < int k \<and> k < length ?s' \<longrightarrow> \<not> isDigit (?s' ! k))"
        have "\<forall>k. lastIndexFunc s IsSpace False < int k \<and> k < length s \<longrightarrow> \<not> isDigit (s ! k)"
        proof (intro allI impI)
          fix k assume k: "lastIndexFunc s IsSpace False < int k \<and> k < length s"
          show "\<not> isDigit (s ! k)"
          proof (cases "k < length s - w")
            case True
            with a k v have "\<not> isDigit (?s' ! k)" by simp
            with True show ?thesis by simp
          next
            case False
            with tail k show ?thesis by simp
          qed
        qed
        with a v len' show ?thesis by auto
      qed
    qed
  qed
qed

lemma filter_isDigit_TrimRightFunc:
  "filter isDigit (TrimRightFunc s IsSpace) = filter isDigit s"
proof -
  let ?i = "lastIndexFunc s IsSpace False"
  let ?i' = "if 0 \<le> ?i \<and> (0x80 :: nat) \<le> of_char (s ! nat ?i)
             then ?i + int (snd (DecodeRuneInString (drop (nat ?i) s))) else ?i + 1"
  have T: "TrimRightFunc s IsSpace = take (nat ?i') s" by (simp add: TrimRightFunc_def Let_def)
  from lastIndexFunc_digits[of s] show ?thesis
  proof
    assume "?i = - 1 \<and> filter isDigit s = []"
    then show ?thesis by (simp add: T)
  next
    assume a: "0 \<le> ?i \<and> ?i < int (length s) \<and>
               (\<forall>k. ?i < int k \<and> k < length s \<longrightarrow> \<not> isDigit (s ! k))"
    have "nat ?i < length s" using a by linarith
    then have ne: "drop (nat ?i) s \<noteq> []" by simp
    obtain r w where d: "DecodeRuneInString (drop (nat ?i) s) = (r, w)"
      by (cases "DecodeRuneInString (drop (nat ?i) s)")
    from DecodeRuneInString_token[OF ne d] have "1 \<le> w" by simp
    then have "?i + 1 \<le> ?i'" using d by simp
    then have i': "?i < ?i'" by linarith
    have "\<forall>k. nat ?i' \<le> k \<and> k < length s \<longrightarrow> \<not> isDigit (s ! k)"
    proof (intro allI impI)
      fix k assume k: "nat ?i' \<le> k \<and> k < length s"
      then have "?i' \<le> int k" by linarith
      with i' have "?i < int k" by linarith
      with a k show "\<not> isDigit (s ! k)" by blast
    qed
    then show ?thesis unfolding T by (rule filter_take_tail)
  qed
qed

lemma filter_isDigit_TrimSpace: "filter isDigit (TrimSpace s) = filter isDigit s"
  by (simp add: TrimSpace_def filter_isDigit_TrimRightFunc filter_isDigit_TrimLeftFunc)

section \<open>Normalisation and attribute generation\<close>

lemma normalizePhone_digits_00:
  assumes "filter isDigit phone = ''00''"
  shows "normalizePhone phone = ''+''"
  using assms
  by (simp add: normalizePhone_def nonDigitRegex_ReplaceAllString_empty_def
      filter_isDigit_TrimSpace HasPrefix_def Let_def)

lemma TrimSpace_Nil: "TrimSpace '''' = ''''"
  by code_simp

lemma ToLower_Nil: "ToLower lib '''' = ''''"
  by (simp add: ToLower_def)

lemma normalizeEmail_Nil: "normalizeEmail lib '''' = ''''"
  by (simp add: normalizeEmail_def ToLower_Nil TrimSpace_Nil)

lemma normalizePhone_Nil: "normalizePhone '''' = ''''"
  by (simp add: normalizePhone_def TrimSpace_Nil nonDigitRegex_ReplaceAllString_empty_def)

lemma normalizeAddress_noAddress: "normalizeAddress lib noAddress = ''|||||''"
  by (simp add: normalizeAddress_def components_def noAddress_def TrimSpace_Nil ToLower_Nil)

lemma Trim_bars: "Trim ''|||||'' ''|'' = ''''"
  by (simp add: Trim_def)

lemma FromUser_userInput: "FromUser lib (userInput uid) = []"
  by (simp add: FromUser_def userInput_def Let_def normalizeEmail_Nil normalizePhone_Nil
      normalizeAddress_noAddress Trim_bars)

subsection \<open>Addresses\<close>

lemma append_sep_inject:
  assumes "x @ d # r = y @ d # r'" "d \<notin> set x" "d \<notin> set y"
  shows "x = y \<and> r = r'"
proof -
  have tw: "\<And>u v. d \<notin> set u \<Longrightarrow> takeWhile (\<lambda>c. c \<noteq> d) (u @ d # v) = u"
  proof -
    fix u :: "'a list" and v
    show "d \<notin> set u \<Longrightarrow> takeWhile (\<lambda>c. c \<noteq> d) (u @ d # v) = u"
      by (induction u) auto
  qed
  have "takeWhile (\<lambda>c. c \<noteq> d) (x @ d # r) = x" using assms(2) by (rule tw)
  moreover have "takeWhile (\<lambda>c. c \<noteq> d) (y @ d # r') = y" using assms(3) by (rule tw)
  ultimately have "x = y" using assms(1) by simp
  with assms(1) show ?thesis by simp
qed

lemma Join_inject:
  assumes "length xs = length ys" "\<forall>x\<in>set xs. d \<notin> set x" "\<forall>y\<in>set ys. d \<notin> set y"
    "Join xs [d] = Join ys [d]"
  shows "xs = ys"
  using assms
proof (induction xs "[d]" arbitrary: ys rule: Join.induct)
  case 1
  then show ?case by simp
next
  case (2 x)
  then obtain y where "ys = [y]" by (cases ys) auto
  with 2 show ?case by simp
next
  case (3 x x' xs)
  then obtain y y' ys' where ys: "ys = y # y' # ys'" by (cases ys; cases "tl ys") auto
  from 3(5) ys have eq: "x @ d # Join (x' # xs) [d] = y @ d # Join (y' # ys') [d]" by simp
  have "x = y \<and> Join (x' # xs) [d] = Join (y' # ys') [d]"
    using append_sep_inject[OF eq] 3(3,4) ys by simp
  moreover have "x' # xs = y' # ys'"
    using 3(1)[of "y' # ys'"] 3(2,3,4) ys calculation by simp
  ultimately show ?case using ys by simp
qed

lemma length_components: "length (components lib a) = 6"
  by (simp add: components_def)

text \<open>
  Claim C7, as the code has it.  \<open>components\<close> is the list of the six lowered and trimmed
  fields.  Equal components always give equal canonical strings.  The converse holds when
  no component contains the delimiter \<open>|\<close>: then the canonical strings are equal if and
  only if the components are.
\<close>

theorem normalizeAddress_equal_iff_components:
  "(components lib a = components lib b \<longrightarrow> normalizeAddress lib a = normalizeAddress lib b) \<and>
   (list_all (\<lambda>c. CHR ''|'' \<notin> set c) (components lib a @ components lib b) \<longrightarrow>
      (normalizeAddress lib a = normalizeAddress lib b \<longleftrightarrow> components lib a = components lib b))"
proof (intro conjI impI)
  assume "components lib a = components lib b"
  then show "normalizeAddress lib a = normalizeAddress lib b" by (simp add: normalizeAddress_def)
next
  assume nosep: "list_all (\<lambda>c. CHR ''|'' \<notin> set c) (components lib a @ components lib b)"
  show "normalizeAddress lib a = normalizeAddress lib b \<longleftrightarrow> components lib a = components lib b"
  proof
    assume "normalizeAddress lib a = normalizeAddress lib b"
    then have "Join (components lib a) [CHR ''|''] = Join (components lib b) [CHR ''|'']"
      by (simp add: normalizeAddress_def)
    moreover have "length (components lib a) = length (components lib b)"
      by (simp add: length_components)
    moreover have "\<forall>x\<in>set (components lib a). CHR ''|'' \<notin> set x"
      and "\<forall>x\<in>set (components lib b). CHR ''|'' \<notin> set x"
      using nosep by (auto simp: list_all_iff)
    ultimately show "components lib a = components lib b"
      using Join_inject[of "components lib a" "components lib b" "CHR ''|''"] by blast
  next
    assume "components lib a = components lib b"
    then show "normalizeAddress lib a = normalizeAddress lib b" by (simp add: normalizeAddress_def)
  qed
qed

theorem normalizeAddress_equal_iff_components_witness:
  "components exampleLib addrC = components exampleLib addrD \<and>
   list_all (\<lambda>c. CHR ''|'' \<notin> set c) (components exampleLib addrC @ components exampleLib addrD) \<and>
   normalizeAddress exampleLib addrC = normalizeAddress exampleLib addrD \<and>
   components exampleLib addrE = components exampleLib addrF \<and>
   list_all (\<lambda>c. CHR ''|'' \<notin> set c) (components exampleLib addrE @ components exampleLib addrF) \<and>
   normalizeAddress exampleLib addrE = normalizeAddress exampleLib addrF"
proof -
  have c: "components exampleLib addrC = components exampleLib addrD"
    by code_simp
  have n: "list_all (\<lambda>c. CHR ''|'' \<notin> set c)
             (components exampleLib addrC @ components exampleLib addrD)"
    by code_simp
  have c': "components exampleLib addrE = components exampleLib addrF"
    by code_simp
  have n': "list_all (\<lambda>c. CHR ''|'' \<notin> set c)
              (components exampleLib addrE @ components exampleLib addrF)"
    by code_simp
  from normalizeAddress_equal_iff_components[of exampleLib addrC addrD]
    normalizeAddress_equal_iff_components[of exampleLib addrE addrF] c n c' n'
  show ?thesis by blast
qed

text \<open>
  Claim C7 as stated fails: \<open>Line1 = "a|"\<close> with an empty \<open>Line2\<close>, and \<open>Line1 = "a"\<close> with
  \<open>Line2 = "|"\<close>, have different components and the same canonical string \<open>a||||||\<close>.
\<close>

theorem normalizeAddress_delimiter_collision:
  "normalizeAddress exampleLib addrA = normalizeAddress exampleLib addrB \<and>
   components exampleLib addrA \<noteq> components exampleLib addrB"
  by code_simp

subsection \<open>Custom attributes\<close>

lemma convertCustomAttributes_mem:
  "a \<in> set attrs \<Longrightarrow> ai_Type a \<noteq> '''' \<Longrightarrow> ai_Value a \<noteq> '''' \<Longrightarrow>
   \<lparr>Type = ai_Type a, Value = ai_Value a, RawValue = ai_RawValue a,
    ConfidenceScore = (if ai_ConfidenceScore a = 0 then 1 else ai_ConfidenceScore a)\<rparr>
     \<in> set (convertCustomAttributes attrs)"
  by (induction attrs) (auto simp: Let_def defaultConfidenceScore_def)

text \<open>
  Claim C9.  For a user payload with an id, every custom attribute with a non-empty type
  and a non-empty value reaches the repository, in the attributes of the user that
  \<open>UpsertUser\<close> passes to it, with its confidence score unchanged when the score is not 0
  (whatever its sign or size) and with the score 1 when it is 0.
\<close>

theorem UpsertUser_forwards_custom_confidence:
  assumes "ui_ID input \<noteq> ''''" "a \<in> set (ui_Attributes input)"
    "ai_Type a \<noteq> ''''" "ai_Value a \<noteq> ''''"
  shows "RelationshipService_UpsertUser lib svc ctx input s
           = repo_UpsertUser (repo svc) ctx (userFromInput lib svc input) s \<and>
         \<lparr>Type = ai_Type a, Value = ai_Value a, RawValue = ai_RawValue a,
          ConfidenceScore = (if ai_ConfidenceScore a = 0 then 1 else ai_ConfidenceScore a)\<rparr>
           \<in> set (u_Attributes (userFromInput lib svc input))"
proof -
  from assms(2) have ne: "ui_Attributes input \<noteq> []" by auto
  show ?thesis
    using assms(1) ne convertCustomAttributes_mem[OF assms(2,3,4)]
    by (simp add: RelationshipService_UpsertUser_def userFromInput_def Let_def)
qed

theorem UpsertUser_forwards_custom_confidence_witness:
  "RelationshipService_UpsertUser exampleLib (NewRelationshipService exampleLib stubRepo 5) Active
     userWithCustomAttributes emptyStub
   = repo_UpsertUser stubRepo Active
       (userFromInput exampleLib (NewRelationshipService exampleLib stubRepo 5) userWithCustomAttributes)
       emptyStub \<and>
   \<lparr>Type = ''CUSTOM'', Value = ''v1'', RawValue = '''', ConfidenceScore = - 3\<rparr>
     \<in> set (u_Attributes
              (userFromInput exampleLib (NewRelationshipService exampleLib stubRepo 5)
                 userWithCustomAttributes)) \<and>
   map ConfidenceScore
     (u_Attributes (last (users (snd (RelationshipService_UpsertUser exampleLib
         (NewRelationshipService exampleLib stubRepo 5) Active
         userWithCustomAttributes emptyStub))))) = [- 3, 7, 1]"
proof -
  have "map ConfidenceScore
     (u_Attributes (last (users (snd (RelationshipService_UpsertUser exampleLib
         (NewRelationshipService exampleLib stubRepo 5) Active
         userWithCustomAttributes emptyStub))))) = [- 3, 7, 1]"
    by (simp add: RelationshipService_UpsertUser_def userFromInput_def Let_def
        userWithCustomAttributes_def userInput_def customAttribute_def
        NewRelationshipService_def DefaultAttributeGenerator_def stubRepo_def
        stubRepository_UpsertUser_def emptyStub_def FromUser_def normalizeEmail_Nil
        normalizePhone_Nil normalizeAddress_noAddress Trim_bars defaultConfidenceScore_def)
  with UpsertUser_forwards_custom_confidence[of userWithCustomAttributes
      "customAttribute ''v1'' (- 3)" exampleLib "NewRelationshipService exampleLib stubRepo 5"
      Active emptyStub]
  show ?thesis
    by (simp add: userWithCustomAttributes_def userInput_def customAttribute_def
        NewRelationshipService_def)
qed

section \<open>Reads of the repository\<close>

text \<open>
  Claim C6.  For a non-empty user id \<open>U\<close>, \<open>ShortestPathBetweenUsers(U, U)\<close> returns the path
  whose only node is the user \<open>U\<close>, with no edge and 0 hops, and the state of the store
  after the call is the state before it, whatever the client is: neither \<open>ExecuteRead\<close> nor
  \<open>ExecuteWrite\<close> runs (on the recording client of the tests every call is logged, and
  the log is unchanged).
\<close>

theorem ShortestPath_same_user:
  assumes "U \<noteq> ''''"
  shows "ShortestPathBetweenUsers lib client ctx U U s =
           (Inr \<lparr>sp_SourceUserID = U, sp_TargetUserID = U,
                 sp_Nodes = [\<lparr>pn_ID = U, pn_Type = ''User'', pn_Label = U, pn_Weight = 0\<rparr>],
                 sp_Edges = [], sp_Hops = 0\<rparr>, s)"
  using assms by (simp add: ShortestPathBetweenUsers_def)

theorem ShortestPath_same_user_witness:
  "ShortestPathBetweenUsers exampleLib memoryClient Active ''USR-1'' ''USR-1'' NewMemoryClient =
     (Inr \<lparr>sp_SourceUserID = ''USR-1'', sp_TargetUserID = ''USR-1'',
           sp_Nodes = [\<lparr>pn_ID = ''USR-1'', pn_Type = ''User'', pn_Label = ''USR-1'',
                        pn_Weight = 0\<rparr>],
           sp_Edges = [], sp_Hops = 0\<rparr>, NewMemoryClient) \<and>
   readCalls (snd (ShortestPathBetweenUsers exampleLib memoryClient Active ''USR-1'' ''USR-1''
                     NewMemoryClient)) = [] \<and>
   writeCalls (snd (ShortestPathBetweenUsers exampleLib memoryClient Active ''USR-1'' ''USR-1''
                      NewMemoryClient)) = []"
  using ShortestPath_same_user[of "''USR-1''" exampleLib memoryClient Active NewMemoryClient]
  by (simp add: NewMemoryClient_def)

section \<open>What the write statements store\<close>

subsection \<open>Merging a list of identities\<close>

lemma mergeAll_Nil [simp]: "mergeAll [] ys = ys"
  by (simp add: mergeAll_def)

lemma mergeAll_Cons [simp]:
  "mergeAll (x # xs) ys = mergeAll xs (if x \<in> set ys then ys else ys @ [x])"
  by (simp add: mergeAll_def)

lemma mergeAll_append [simp]: "mergeAll (xs @ xs') ys = mergeAll xs' (mergeAll xs ys)"
  by (simp add: mergeAll_def)

lemma set_mergeAll [simp]: "set (mergeAll xs ys) = set xs \<union> set ys"
  by (induction xs arbitrary: ys) auto

lemma mergeAll_absorb: "set xs \<subseteq> set ys \<Longrightarrow> mergeAll xs ys = ys"
  by (induction xs arbitrary: ys) auto

lemma mergeAll_extends: "\<exists>zs. mergeAll xs ys = ys @ zs \<and> set zs \<subseteq> set xs"
proof (induction xs arbitrary: ys)
  case Nil
  then show ?case by simp
next
  case (Cons x xs)
  show ?case
  proof (cases "x \<in> set ys")
    case True
    with Cons[of ys] show ?thesis by auto
  next
    case False
    from Cons[of "ys @ [x]"] obtain zs
      where "mergeAll xs (ys @ [x]) = (ys @ [x]) @ zs" "set zs \<subseteq> set xs"
      by blast
    with False show ?thesis by (intro exI[of _ "x # zs"]) auto
  qed
qed

subsection \<open>The clauses\<close>

lemma nodes_MERGE_node: "nodes (MERGE_node n g) = mergeAll [n] (nodes g)"
  by (simp add: MERGE_node_def)

lemma rels_MERGE_node [simp]: "rels (MERGE_node n g) = rels g"
  by (simp add: MERGE_node_def)

lemma rels_MERGE_rel: "rels (MERGE_rel r g) = mergeAll [r] (rels g)"
  by (simp add: MERGE_rel_def)

lemma nodes_MERGE_rel [simp]: "nodes (MERGE_rel r g) = nodes g"
  by (simp add: MERGE_rel_def)

lemma nodes_SET_node [simp]: "nodes (SET_node n f g) = nodes g"
  by (simp add: SET_node_def)

lemma rels_SET_node [simp]: "rels (SET_node n f g) = rels g"
  by (simp add: SET_node_def)

lemma nodes_SET_rel [simp]: "nodes (SET_rel n f g) = nodes g"
  by (simp add: SET_rel_def)

lemma rels_SET_rel [simp]: "rels (SET_rel n f g) = rels g"
  by (simp add: SET_rel_def)

lemma FOREACH_Nil [simp]: "FOREACH [] body g = g"
  by (simp add: FOREACH_def)

lemma nodes_FOREACH:
  assumes "\<And>x g. nodes (body x g) = mergeAll [f x] (nodes g)"
  shows "nodes (FOREACH xs body g) = mergeAll (map f xs) (nodes g)"
  unfolding FOREACH_def
  by (induction xs arbitrary: g) (simp_all add: assms)

lemma rels_FOREACH:
  assumes "\<And>x g. rels (body x g) = mergeAll [f x] (rels g)"
  shows "rels (FOREACH xs body g) = mergeAll (map f xs) (rels g)"
  unfolding FOREACH_def
  by (induction xs arbitrary: g) (simp_all add: assms)

lemma nodes_FOREACH_same:
  assumes "\<And>x g. nodes (body x g) = nodes g"
  shows "nodes (FOREACH xs body g) = nodes g"
  unfolding FOREACH_def
  by (induction xs arbitrary: g) (simp_all add: assms)

subsection \<open>\<open>upsertUserCypher\<close>\<close>

lemma nodes_userAttribute:
  "nodes (userAttribute u attr g) = mergeAll [attributeNode attr] (nodes g)"
  by (simp add: userAttribute_def Let_def nodes_MERGE_node attributeNode_def)

lemma rels_userAttribute:
  "rels (userAttribute u attr g) = mergeAll [(u, HAS_ATTRIBUTE, attributeNode attr)] (rels g)"
  by (simp add: userAttribute_def Let_def rels_MERGE_rel attributeNode_def)

lemma nodes_userPaymentMethod:
  "nodes (userPaymentMethod u pm g) = mergeAll [PaymentMethodNode (pp_id pm)] (nodes g)"
  by (simp add: userPaymentMethod_def Let_def nodes_MERGE_node)

lemma rels_userPaymentMethod:
  "rels (userPaymentMethod u pm g)
     = mergeAll [(u, USES_PAYMENT_METHOD, PaymentMethodNode (pp_id pm))] (rels g)"
  by (simp add: userPaymentMethod_def Let_def rels_MERGE_rel)

lemma nodes_run_upsertUserCypher:
  "nodes (snd (run_upsertUserCypher p g)) = mergeAll (userNodeTargets p) (nodes g)"
  unfolding run_upsertUserCypher_def Let_def userNodeTargets_def
  by (simp add: nodes_FOREACH[where f = "\<lambda>pm. PaymentMethodNode (pp_id pm)",
                              OF nodes_userPaymentMethod]
      nodes_FOREACH[where f = attributeNode, OF nodes_userAttribute] nodes_MERGE_node)

lemma rels_run_upsertUserCypher:
  "rels (snd (run_upsertUserCypher p g)) = mergeAll (userRelTargets p) (rels g)"
  unfolding run_upsertUserCypher_def Let_def userRelTargets_def
  by (simp add:
      rels_FOREACH[where f = "\<lambda>pm. (UserNode (up_userId p), USES_PAYMENT_METHOD,
                                      PaymentMethodNode (pp_id pm))",
                   OF rels_userPaymentMethod]
      rels_FOREACH[where f = "\<lambda>attr. (UserNode (up_userId p), HAS_ATTRIBUTE, attributeNode attr)",
                   OF rels_userAttribute])

subsection \<open>\<open>upsertTransactionCypher\<close>\<close>

lemma nodes_transactionAttribute:
  "nodes (transactionAttribute t attr g) = mergeAll [attributeNode attr] (nodes g)"
  by (simp add: transactionAttribute_def Let_def nodes_MERGE_node attributeNode_def)

lemma rels_transactionAttribute:
  "rels (transactionAttribute t attr g) = mergeAll [(t, HAS_ATTRIBUTE, attributeNode attr)] (rels g)"
  by (simp add: transactionAttribute_def Let_def rels_MERGE_rel attributeNode_def)

lemma nodes_linkTo: "nodes (linkTo now t row g) = nodes g"
  by (simp add: linkTo_def Let_def split: prod.splits)

lemma rels_linkTo:
  "rels (linkTo now (TransactionNode tid) row g) = mergeAll [linkRel tid row] (rels g)"
  by (simp add: linkTo_def Let_def linkRel_def rels_MERGE_rel split: prod.splits)

lemma others_cong: "rels g = rels g' \<Longrightarrow> others tid attr g = others tid attr g'"
  by (simp add: others_def)

lemma linkRows_cong: "rels g = rels g' \<Longrightarrow> linkRows tid attrs g = linkRows tid attrs g'"
  by (simp add: linkRows_def others_cong[of g g'])

lemma otherWith_notHasAttribute: "notHasAttribute r \<Longrightarrow> otherWith tid a r = []"
  by (cases "(tid, a, r)" rule: otherWith.cases) (auto simp: notHasAttribute_def)

lemma others_append:
  assumes "rels g' = rels g @ zs" "\<forall>r\<in>set zs. notHasAttribute r"
  shows "others tid attr g' = others tid attr g"
proof -
  have "concat (map (otherWith tid (AttributeNode (ap_type attr) (ap_value attr))) zs) = []"
    using assms(2) by (induction zs) (auto simp: otherWith_notHasAttribute)
  then have "concat (map (otherWith tid (AttributeNode (ap_type attr) (ap_value attr)))
                         (rels g @ zs))
             = concat (map (otherWith tid (AttributeNode (ap_type attr) (ap_value attr)))
                         (rels g))"
    by (simp only: map_append concat_append append_Nil2)
  then show ?thesis by (simp only: others_def assms(1))
qed

lemma linkRows_append:
  assumes "rels g' = rels g @ zs" "\<forall>r\<in>set zs. notHasAttribute r"
  shows "linkRows tid attrs g' = linkRows tid attrs g"
  by (simp add: linkRows_def others_append[OF assms])

lemma run_upsertTransactionCypher_absent:
  "\<not> usersPresent p g \<Longrightarrow> run_upsertTransactionCypher now p g = (Result [], g)"
  by (auto simp: run_upsertTransactionCypher_def usersPresent_def Let_def)

lemma nodes_run_upsertTransactionCypher:
  "usersPresent p g \<Longrightarrow>
   nodes (snd (run_upsertTransactionCypher now p g))
     = mergeAll (transactionNodeTargets p) (nodes g)"
  unfolding run_upsertTransactionCypher_def Let_def transactionNodeTargets_def usersPresent_def
  by (simp add: nodes_FOREACH_same[OF nodes_linkTo]
      nodes_FOREACH[where f = attributeNode, OF nodes_transactionAttribute] nodes_MERGE_node)

lemma rels_run_upsertTransactionCypher:
  assumes "usersPresent p g"
  shows "rels (snd (run_upsertTransactionCypher now p g)) =
     mergeAll (if pmLinked p g then [pmRel p] else [])
       (mergeAll (map (linkRel (tp_transactionId p)) (transactionLinkRows p g))
          (mergeAll (transactionRelTargets p) (rels g)))"
proof -
  let ?t = "TransactionNode (tp_transactionId p)"
  let ?g5 = "SET_rel (UserNode (tp_receiverId p), RECEIVED_FROM (tp_transactionId p), UserNode (tp_senderId p)) (amountProps p)
       (MERGE_rel (UserNode (tp_receiverId p), RECEIVED_FROM (tp_transactionId p), UserNode (tp_senderId p))
       (SET_rel (UserNode (tp_senderId p), SENT_TO (tp_transactionId p), UserNode (tp_receiverId p)) (amountProps p)
       (MERGE_rel (UserNode (tp_senderId p), SENT_TO (tp_transactionId p), UserNode (tp_receiverId p))
       (SET_rel (UserNode (tp_receiverId p), PARTICIPATED_IN (tp_transactionId p) ''RECEIVER'', ?t) (amountProps p)
       (MERGE_rel (UserNode (tp_receiverId p), PARTICIPATED_IN (tp_transactionId p) ''RECEIVER'', ?t)
       (SET_rel (UserNode (tp_senderId p), PARTICIPATED_IN (tp_transactionId p) ''SENDER'', ?t) (amountProps p)
       (MERGE_rel (UserNode (tp_senderId p), PARTICIPATED_IN (tp_transactionId p) ''SENDER'', ?t)
       (SET_node ?t (addProps (tp_props p)) (MERGE_node ?t g)))))))))"
  let ?g6 = "FOREACH (tp_attributes p) (transactionAttribute ?t) ?g5"
  have r6: "rels ?g6 = mergeAll (transactionRelTargets p) (rels g)"
    by (simp add: rels_FOREACH[where f = "\<lambda>attr. (?t, HAS_ATTRIBUTE, attributeNode attr)", OF rels_transactionAttribute]
        transactionRelTargets_def rels_MERGE_rel)
  have n6: "nodes ?g6 = mergeAll (transactionNodeTargets p) (nodes g)"
    by (simp add: nodes_FOREACH[where f = attributeNode, OF nodes_transactionAttribute]
        transactionNodeTargets_def nodes_MERGE_node)
  have rows: "linkRows (tp_transactionId p) (tp_attributes p) ?g6 = transactionLinkRows p g"
    unfolding transactionLinkRows_def
    by (rule linkRows_cong) (simp add: r6 beforeLinking_def)
  let ?rows = "transactionLinkRows p g"
  let ?g7 = "FOREACH ?rows (linkTo now ?t) ?g6"
  have r7: "rels ?g7 = mergeAll (map (linkRel (tp_transactionId p)) ?rows) (mergeAll (transactionRelTargets p) (rels g))"
    by (simp add: rels_FOREACH[where f = "linkRel (tp_transactionId p)", OF rels_linkTo] r6)
  have n7: "nodes ?g7 = mergeAll (transactionNodeTargets p) (nodes g)"
    by (simp add: nodes_FOREACH_same[OF nodes_linkTo] n6)
  show ?thesis
  proof (cases "transactionLinkRows p g = []")
    case True
    then show ?thesis
      using assms
      unfolding run_upsertTransactionCypher_def Let_def usersPresent_def
      by (simp add: rows r6 pmLinked_def)
  next
    case False
    then show ?thesis
      using assms
      unfolding run_upsertTransactionCypher_def Let_def usersPresent_def
      by (simp add: rows r7 n7 pmLinked_def pmRel_def rels_MERGE_rel del: mergeAll_Cons)
  qed
qed

lemma run_upsertUserCypher_again:
  assumes "up_userId p' = up_userId p" "up_attributes p' = up_attributes p"
    "up_paymentMethods p' = up_paymentMethods p"
  shows "nodes (snd (run_upsertUserCypher p' (snd (run_upsertUserCypher p g))))
           = nodes (snd (run_upsertUserCypher p g)) \<and>
         rels (snd (run_upsertUserCypher p' (snd (run_upsertUserCypher p g))))
           = rels (snd (run_upsertUserCypher p g))"
proof -
  have "userNodeTargets p' = userNodeTargets p" "userRelTargets p' = userRelTargets p"
    using assms by (simp_all add: userNodeTargets_def userRelTargets_def)
  then show ?thesis
    by (simp add: nodes_run_upsertUserCypher rels_run_upsertUserCypher mergeAll_absorb)
qed

lemma notHasAttribute_linkRel: "notHasAttribute (linkRel tid row)"
  by (simp add: notHasAttribute_def linkRel_def)

lemma notHasAttribute_pmRel: "notHasAttribute (pmRel p)"
  by (simp add: notHasAttribute_def pmRel_def)

lemma usersPresent_after:
  "usersPresent p g \<Longrightarrow> usersPresent p (snd (run_upsertTransactionCypher now p g))"
  by (simp add: usersPresent_def nodes_run_upsertTransactionCypher)

lemma transactionLinkRows_after:
  assumes "usersPresent p g"
  shows "transactionLinkRows p (snd (run_upsertTransactionCypher now p g)) = transactionLinkRows p g"
proof -
  let ?X = "mergeAll (transactionRelTargets p) (rels g)"
  let ?L = "map (linkRel (tp_transactionId p)) (transactionLinkRows p g)"
  let ?PM = "if pmLinked p g then [pmRel p] else []"
  let ?g1 = "snd (run_upsertTransactionCypher now p g)"
  have R1: "rels ?g1 = mergeAll ?PM (mergeAll ?L ?X)"
    by (rule rels_run_upsertTransactionCypher[OF assms])
  obtain zs1 where z1: "mergeAll ?L ?X = ?X @ zs1" "set zs1 \<subseteq> set ?L"
    using mergeAll_extends[of ?L ?X] by blast
  obtain zs2 where z2: "mergeAll ?PM (?X @ zs1) = (?X @ zs1) @ zs2" "set zs2 \<subseteq> set ?PM"
    using mergeAll_extends[of ?PM "?X @ zs1"] by blast
  have nh: "\<forall>r\<in>set (zs1 @ zs2). notHasAttribute r"
    using z1(2) z2(2) by (auto simp: notHasAttribute_linkRel notHasAttribute_pmRel split: if_splits)
  have TX: "set (transactionRelTargets p) \<subseteq> set (rels ?g1)"
    by (auto simp add: R1)
  have e1: "rels ?g1 = ?X @ (zs1 @ zs2)"
    using R1 z1(1) z2(1) by simp
  have e2: "mergeAll (transactionRelTargets p) (rels ?g1) = rels ?g1"
    by (rule mergeAll_absorb[OF TX])
  have "rels (beforeLinking p ?g1) = mergeAll (transactionRelTargets p) (rels ?g1)"
    by (simp add: beforeLinking_def)
  also have "\<dots> = ?X @ (zs1 @ zs2)"
    by (subst e2) (rule e1)
  also have "?X = rels (beforeLinking p g)"
    by (simp add: beforeLinking_def)
  finally have "rels (beforeLinking p ?g1) = rels (beforeLinking p g) @ (zs1 @ zs2)" .
  then show ?thesis
    unfolding transactionLinkRows_def
    using nh by (rule linkRows_append)
qed

lemma pmLinked_after:
  assumes "usersPresent p g"
  shows "pmLinked p (snd (run_upsertTransactionCypher now p g)) = pmLinked p g"
  by (simp add: pmLinked_def transactionLinkRows_after[OF assms]
      nodes_run_upsertTransactionCypher[OF assms])

lemma run_upsertTransactionCypher_again_same:
  "nodes (snd (run_upsertTransactionCypher now' p (snd (run_upsertTransactionCypher now p g))))
     = nodes (snd (run_upsertTransactionCypher now p g)) \<and>
   rels (snd (run_upsertTransactionCypher now' p (snd (run_upsertTransactionCypher now p g))))
     = rels (snd (run_upsertTransactionCypher now p g))"
proof (cases "usersPresent p g")
  case False
  then show ?thesis by (simp add: run_upsertTransactionCypher_absent)
next
  case True
  let ?g1 = "snd (run_upsertTransactionCypher now p g)"
  have up1: "usersPresent p ?g1" by (rule usersPresent_after[OF True])
  have n: "nodes (snd (run_upsertTransactionCypher now' p ?g1)) = nodes ?g1"
    by (simp add: nodes_run_upsertTransactionCypher[OF up1]
        nodes_run_upsertTransactionCypher[OF True] mergeAll_absorb)
  have R1: "rels ?g1 = mergeAll (if pmLinked p g then [pmRel p] else [])
       (mergeAll (map (linkRel (tp_transactionId p)) (transactionLinkRows p g))
          (mergeAll (transactionRelTargets p) (rels g)))"
    by (rule rels_run_upsertTransactionCypher[OF True])
  have a1: "mergeAll (transactionRelTargets p) (rels ?g1) = rels ?g1"
    by (rule mergeAll_absorb) (auto simp add: R1)
  have a2: "mergeAll (map (linkRel (tp_transactionId p)) (transactionLinkRows p g)) (rels ?g1)
              = rels ?g1"
    by (rule mergeAll_absorb) (auto simp add: R1)
  have a3: "mergeAll (if pmLinked p g then [pmRel p] else []) (rels ?g1) = rels ?g1"
    by (rule mergeAll_absorb) (auto simp add: R1)
  have r: "rels (snd (run_upsertTransactionCypher now' p ?g1)) = rels ?g1"
    by (simp only: rels_run_upsertTransactionCypher[OF up1] transactionLinkRows_after[OF True]
        pmLinked_after[OF True] a1 a2 a3)
  from n r show ?thesis by simp
qed

lemma run_upsertTransactionCypher_props:
  "nodes (snd (run_upsertTransactionCypher now (p\<lparr>tp_props := ps\<rparr>) g))
     = nodes (snd (run_upsertTransactionCypher now p g)) \<and>
   rels (snd (run_upsertTransactionCypher now (p\<lparr>tp_props := ps\<rparr>) g))
     = rels (snd (run_upsertTransactionCypher now p g))"
proof (cases "usersPresent p g")
  case False
  then have "\<not> usersPresent (p\<lparr>tp_props := ps\<rparr>) g" by (simp add: usersPresent_def)
  with False show ?thesis by (simp add: run_upsertTransactionCypher_absent)
next
  case True
  then have up: "usersPresent (p\<lparr>tp_props := ps\<rparr>) g" by (simp add: usersPresent_def)
  have eqs: "transactionNodeTargets (p\<lparr>tp_props := ps\<rparr>) = transactionNodeTargets p"
    "transactionRelTargets (p\<lparr>tp_props := ps\<rparr>) = transactionRelTargets p"
    "pmRel (p\<lparr>tp_props := ps\<rparr>) = pmRel p"
    by (simp_all add: transactionNodeTargets_def transactionRelTargets_def pmRel_def)
  have rows: "transactionLinkRows (p\<lparr>tp_props := ps\<rparr>) g = transactionLinkRows p g"
    by (simp add: transactionLinkRows_def beforeLinking_def eqs linkRows_def others_def)
  have pml: "pmLinked (p\<lparr>tp_props := ps\<rparr>) g = pmLinked p g"
    by (simp add: pmLinked_def rows eqs)
  show ?thesis
    by (simp add: nodes_run_upsertTransactionCypher[OF up] nodes_run_upsertTransactionCypher[OF True]
        rels_run_upsertTransactionCypher[OF up] rels_run_upsertTransactionCypher[OF True]
        eqs rows pml)
qed

section \<open>The service over the graph store\<close>

lemma session_Run_active:
  "session_Run env Active (upsertUserCypher p) g
     = (Inr (fst (run_upsertUserCypher p g)), snd (run_upsertUserCypher p g))"
  "session_Run env Active (upsertTransactionCypher q) g
     = (Inr (fst (run_upsertTransactionCypher (datetime env) q g)),
        snd (run_upsertTransactionCypher (datetime env) q g))"
  by (simp_all add: session_Run_def ctx_Done_def split: prod.splits)

lemma session_Run_done:
  "ctx \<noteq> Active \<Longrightarrow> \<exists>e. session_Run env ctx cypher g = (Inl e, g)"
  by (cases ctx) (simp_all add: session_Run_def ctx_Done_def)

lemma graph_UpsertUser_state:
  "snd (RelationshipService_UpsertUser lib (graphService lib env now) ctx input g) =
     (if ui_ID input = '''' \<or> ctx \<noteq> Active then g
      else snd (run_upsertUserCypher
                  (upsertUserParams lib (userFromInput lib (graphService lib env now) input)) g))"
proof (cases "ctx = Active")
  case True
  then show ?thesis
    by (simp add: RelationshipService_UpsertUser_def graphService_def NewRelationshipService_def
        repository_New_def Repository_UpsertUser_def neo4jClient_def session_Run_active
        userFromInput_def Let_def)
next
  case False
  from session_Run_done[OF False] obtain e where
    "session_Run env ctx (upsertUserCypher
        (upsertUserParams lib (userFromInput lib (graphService lib env now) input))) g = (Inl e, g)"
    by blast
  with False show ?thesis
    by (simp add: RelationshipService_UpsertUser_def graphService_def NewRelationshipService_def
        repository_New_def Repository_UpsertUser_def neo4jClient_def)
qed

lemma graph_UpsertTransaction_state:
  "snd (RelationshipService_UpsertTransaction (graphService lib env now) ctx input g) =
     (if ti_ID input = '''' \<or> ti_SenderUserID input = '''' \<or> ti_ReceiverUserID input = ''''
         \<or> ctx \<noteq> Active then g
      else snd (run_upsertTransactionCypher (datetime env)
                  (upsertTransactionParams lib
                     (transactionFromInput (graphService lib env now) input)
                     (FromTransaction lib input)) g))"
proof (cases "ctx = Active")
  case True
  then show ?thesis
    by (simp add: RelationshipService_UpsertTransaction_def graphService_def
        NewRelationshipService_def DefaultAttributeGenerator_def
        repository_New_def Repository_UpsertTransaction_def neo4jClient_def session_Run_active
        transactionFromInput_def Let_def)
next
  case False
  from session_Run_done[OF False] obtain e where
    "session_Run env ctx (upsertTransactionCypher
        (upsertTransactionParams lib (transactionFromInput (graphService lib env now) input)
           (FromTransaction lib input))) g = (Inl e, g)"
    by blast
  with False show ?thesis
    by (simp add: RelationshipService_UpsertTransaction_def graphService_def
        NewRelationshipService_def DefaultAttributeGenerator_def
        repository_New_def Repository_UpsertTransaction_def neo4jClient_def)
qed

lemma upsertUserParams_keys:
  "up_userId (upsertUserParams lib (userFromInput lib (graphService lib env now) input)) = ui_ID input"
  "up_attributes (upsertUserParams lib (userFromInput lib (graphService lib env now) input))
     = attributeParams (FromUser lib input @ convertCustomAttributes (ui_Attributes input))"
  "up_paymentMethods (upsertUserParams lib (userFromInput lib (graphService lib env now) input))
     = up_paymentMethods (upsertUserParams lib (userFromInput lib (graphService lib env' now') input))"
  by (simp_all add: upsertUserParams_def userFromInput_def graphService_def Let_def
      NewRelationshipService_def DefaultAttributeGenerator_def)

lemma upsertTransactionParams_props:
  "upsertTransactionParams lib (transactionFromInput (graphService lib env' now') input) attrs
     = (upsertTransactionParams lib (transactionFromInput (graphService lib env now) input) attrs)
         \<lparr>tp_props := tp_props (upsertTransactionParams lib
              (transactionFromInput (graphService lib env' now') input) attrs)\<rparr>"
  by (simp add: upsertTransactionParams_def transactionFromInput_def Let_def)

text \<open>
  Claim C3.  Upserting the same user payload a second time, or the same transaction
  payload a second time, leaves as many nodes and as many relationships in the store as
  the first upsert did, whatever the store held before (in particular when the users of
  the transaction are present), and whatever the clocks of the service and of the store
  show at the two calls.  The second call is made in the state the first one left, with
  the same context.
\<close>

theorem upsert_twice_no_duplicates:
  "length (nodes (snd (RelationshipService_UpsertUser lib (graphService lib env' now') ctx user
       (snd (RelationshipService_UpsertUser lib (graphService lib env now) ctx user g)))))
     = length (nodes (snd (RelationshipService_UpsertUser lib (graphService lib env now) ctx user g))) \<and>
   length (rels (snd (RelationshipService_UpsertUser lib (graphService lib env' now') ctx user
       (snd (RelationshipService_UpsertUser lib (graphService lib env now) ctx user g)))))
     = length (rels (snd (RelationshipService_UpsertUser lib (graphService lib env now) ctx user g))) \<and>
   length (nodes (snd (RelationshipService_UpsertTransaction (graphService lib env' now') ctx tx
       (snd (RelationshipService_UpsertTransaction (graphService lib env now) ctx tx g)))))
     = length (nodes (snd (RelationshipService_UpsertTransaction (graphService lib env now) ctx tx g))) \<and>
   length (rels (snd (RelationshipService_UpsertTransaction (graphService lib env' now') ctx tx
       (snd (RelationshipService_UpsertTransaction (graphService lib env now) ctx tx g)))))
     = length (rels (snd (RelationshipService_UpsertTransaction (graphService lib env now) ctx tx g)))"
proof -
  let ?p = "upsertUserParams lib (userFromInput lib (graphService lib env now) user)"
  let ?p' = "upsertUserParams lib (userFromInput lib (graphService lib env' now') user)"
  have u: "nodes (snd (run_upsertUserCypher ?p' (snd (run_upsertUserCypher ?p g))))
             = nodes (snd (run_upsertUserCypher ?p g)) \<and>
           rels (snd (run_upsertUserCypher ?p' (snd (run_upsertUserCypher ?p g))))
             = rels (snd (run_upsertUserCypher ?p g))"
    by (rule run_upsertUserCypher_again) (simp_all add: upsertUserParams_keys(1,2),
        rule upsertUserParams_keys(3))
  let ?q = "upsertTransactionParams lib (transactionFromInput (graphService lib env now) tx)
              (FromTransaction lib tx)"
  let ?q' = "upsertTransactionParams lib (transactionFromInput (graphService lib env' now') tx)
              (FromTransaction lib tx)"
  let ?g1 = "snd (run_upsertTransactionCypher (datetime env) ?q g)"
  have q': "?q' = ?q\<lparr>tp_props := tp_props ?q'\<rparr>"
    by (rule upsertTransactionParams_props)
  have "nodes (snd (run_upsertTransactionCypher (datetime env') (?q\<lparr>tp_props := tp_props ?q'\<rparr>) ?g1))
          = nodes ?g1 \<and>
        rels (snd (run_upsertTransactionCypher (datetime env') (?q\<lparr>tp_props := tp_props ?q'\<rparr>) ?g1))
          = rels ?g1"
    using run_upsertTransactionCypher_props[where now = "datetime env'" and p = ?q
        and ps = "tp_props ?q'" and g = ?g1]
      run_upsertTransactionCypher_again_same[where now' = "datetime env'" and p = ?q
        and now = "datetime env" and g = g]
    by simp
  with q' have t: "nodes (snd (run_upsertTransactionCypher (datetime env') ?q' ?g1)) = nodes ?g1 \<and>
        rels (snd (run_upsertTransactionCypher (datetime env') ?q' ?g1)) = rels ?g1"
    by simp
  show ?thesis
    using u t by (simp add: graph_UpsertUser_state graph_UpsertTransaction_state)
qed

text \<open>
  Claim C2, on the code.  When the sender or the receiver of a transaction is not a stored
  user, the two \<open>MATCH\<close> clauses of \<open>upsertTransactionCypher\<close> give no row; the statement
  writes nothing and succeeds, \<open>ExecuteWrite\<close> returns no error, and \<open>UpsertTransaction\<close>,
  which does not look at the returned records, returns \<open>nil\<close>.  The store is unchanged, so
  no transaction node is created; but no error is reported.
\<close>

theorem UpsertTransaction_missing_user_returns_nil:
  assumes "tx_ID tx \<noteq> ''''" "tx_SenderUserID tx \<noteq> ''''" "tx_ReceiverUserID tx \<noteq> ''''"
    and "UserNode (tx_SenderUserID tx) \<notin> set (nodes g)
         \<or> UserNode (tx_ReceiverUserID tx) \<notin> set (nodes g)"
  shows "Repository_UpsertTransaction lib (neo4jClient env) Active tx attrs g = (None, g)"
proof -
  have "\<not> usersPresent (upsertTransactionParams lib tx attrs) g"
    using assms(4) by (auto simp: usersPresent_def upsertTransactionParams_def)
  then show ?thesis
    using assms(1,2,3)
    by (simp add: Repository_UpsertTransaction_def neo4jClient_def session_Run_active
        run_upsertTransactionCypher_absent)
qed

theorem UpsertTransaction_missing_user_returns_nil_witness:
  "Repository_UpsertTransaction exampleLib (neo4jClient exampleEnv) Active exampleTransaction
     [exampleIPAttribute] emptyGraph = (None, emptyGraph) \<and>
   TransactionNode ''TX-1'' \<notin> set (nodes (snd (Repository_UpsertTransaction exampleLib
     (neo4jClient exampleEnv) Active exampleTransaction [exampleIPAttribute] emptyGraph)))"
  using UpsertTransaction_missing_user_returns_nil[of exampleTransaction emptyGraph exampleLib
      exampleEnv "[exampleIPAttribute]"]
  by (simp add: exampleTransaction_def emptyGraph_def)

section \<open>The read operations\<close>

lemma session_Run_readOnly: "readOnly q \<Longrightarrow> snd (session_Run env ctx q g) = g"
  by (cases q; cases ctx) (simp_all add: session_Run_def ctx_Done_def)

lemma MemoryClient_ExecuteRead_writeCalls:
  "writeCalls (snd (MemoryClient_ExecuteRead ctx q m)) = writeCalls m"
  by (simp add: MemoryClient_ExecuteRead_def Let_def split: option.splits list.splits)

text \<open>An observation of the store state that every read statement preserves is preserved by
  the three read operations.\<close>

lemma FetchUserRelationships_frame:
  assumes "\<And>q s. readOnly q \<Longrightarrow> f (snd (ExecuteRead client ctx q s)) = f s"
  shows "f (snd (FetchUserRelationships lib client ctx userID s)) = f s"
proof -
  have a: "\<And>q s x s'. readOnly q \<Longrightarrow> ExecuteRead client ctx q s = (x, s') \<Longrightarrow> f s' = f s"
    using assms by (metis snd_conv)
  show ?thesis
    unfolding FetchUserRelationships_def fetchUserDirectLinks_def fetchUserTransactions_def
      fetchUserSharedAttributes_def Let_def
    by (auto split: prod.splits sum.splits dest!: a[rotated])
qed

lemma FetchTransactionRelationships_frame:
  assumes "\<And>q s. readOnly q \<Longrightarrow> f (snd (ExecuteRead client ctx q s)) = f s"
  shows "f (snd (FetchTransactionRelationships lib client ctx txID s)) = f s"
proof -
  have a: "\<And>q s x s'. readOnly q \<Longrightarrow> ExecuteRead client ctx q s = (x, s') \<Longrightarrow> f s' = f s"
    using assms by (metis snd_conv)
  show ?thesis
    unfolding FetchTransactionRelationships_def fetchTransactionUsers_def
      fetchLinkedTransactions_def Let_def
    by (auto split: prod.splits sum.splits dest!: a[rotated])
qed

lemma ShortestPathBetweenUsers_frame:
  assumes "\<And>q s. readOnly q \<Longrightarrow> f (snd (ExecuteRead client ctx q s)) = f s"
  shows "f (snd (ShortestPathBetweenUsers lib client ctx sourceID targetID s)) = f s"
proof -
  have a: "\<And>q s x s'. readOnly q \<Longrightarrow> ExecuteRead client ctx q s = (x, s') \<Longrightarrow> f s' = f s"
    using assms by (metis snd_conv)
  show ?thesis
    unfolding ShortestPathBetweenUsers_def Let_def
    by (auto split: prod.splits sum.splits list.splits dest!: a[rotated])
qed

text \<open>
  Claim C8.  \<open>FetchUserRelationships\<close>, \<open>FetchTransactionRelationships\<close> and
  \<open>ShortestPathBetweenUsers\<close> leave the graph as it was, for every input and every state of
  the context; on the recording client of the tests they add nothing to the log of write
  calls; and what they return, and the state they leave, does not depend on what
  \<open>ExecuteWrite\<close> of the client does: they never run it.
\<close>

theorem reads_do_not_write:
  "snd (FetchUserRelationships lib (neo4jClient env) ctx userID g) = g \<and>
   snd (FetchTransactionRelationships lib (neo4jClient env) ctx txID g) = g \<and>
   snd (ShortestPathBetweenUsers lib (neo4jClient env) ctx sourceID targetID g) = g \<and>
   writeCalls (snd (FetchUserRelationships lib memoryClient ctx userID m)) = writeCalls m \<and>
   writeCalls (snd (FetchTransactionRelationships lib memoryClient ctx txID m)) = writeCalls m \<and>
   writeCalls (snd (ShortestPathBetweenUsers lib memoryClient ctx sourceID targetID m))
     = writeCalls m \<and>
   FetchUserRelationships lib (client\<lparr>ExecuteWrite := w\<rparr>) ctx userID s
     = FetchUserRelationships lib client ctx userID s \<and>
   FetchTransactionRelationships lib (client\<lparr>ExecuteWrite := w\<rparr>) ctx txID s
     = FetchTransactionRelationships lib client ctx txID s \<and>
   ShortestPathBetweenUsers lib (client\<lparr>ExecuteWrite := w\<rparr>) ctx sourceID targetID s
     = ShortestPathBetweenUsers lib client ctx sourceID targetID s"
proof -
  have n: "\<And>q s. readOnly q \<Longrightarrow> id (snd (ExecuteRead (neo4jClient env) ctx q s)) = id s"
    by (simp add: neo4jClient_def session_Run_readOnly)
  have m: "\<And>q s. readOnly q \<Longrightarrow>
      writeCalls (snd (ExecuteRead memoryClient ctx q s)) = writeCalls s"
    by (simp add: memoryClient_def MemoryClient_ExecuteRead_writeCalls)
  have h: "fetchUserDirectLinks lib (client\<lparr>ExecuteWrite := w\<rparr>) = fetchUserDirectLinks lib client"
    "fetchUserTransactions lib (client\<lparr>ExecuteWrite := w\<rparr>) = fetchUserTransactions lib client"
    "fetchUserSharedAttributes lib (client\<lparr>ExecuteWrite := w\<rparr>)
       = fetchUserSharedAttributes lib client"
    "fetchTransactionUsers lib (client\<lparr>ExecuteWrite := w\<rparr>) = fetchTransactionUsers lib client"
    "fetchLinkedTransactions lib (client\<lparr>ExecuteWrite := w\<rparr>)
       = fetchLinkedTransactions lib client"
    by (intro ext, simp add: fetchUserDirectLinks_def fetchUserTransactions_def
        fetchUserSharedAttributes_def fetchTransactionUsers_def fetchLinkedTransactions_def)+
  have w: "FetchUserRelationships lib (client\<lparr>ExecuteWrite := w\<rparr>) ctx userID s
     = FetchUserRelationships lib client ctx userID s"
    "FetchTransactionRelationships lib (client\<lparr>ExecuteWrite := w\<rparr>) ctx txID s
     = FetchTransactionRelationships lib client ctx txID s"
    "ShortestPathBetweenUsers lib (client\<lparr>ExecuteWrite := w\<rparr>) ctx sourceID targetID s
     = ShortestPathBetweenUsers lib client ctx sourceID targetID s"
    unfolding FetchUserRelationships_def FetchTransactionRelationships_def
      ShortestPathBetweenUsers_def h
    by simp_all
  show ?thesis
    using FetchUserRelationships_frame[of id "neo4jClient env" ctx lib userID g, OF n]
      FetchTransactionRelationships_frame[of id "neo4jClient env" ctx lib txID g, OF n]
      ShortestPathBetweenUsers_frame[of id "neo4jClient env" ctx lib sourceID targetID g, OF n]
      FetchUserRelationships_frame[of writeCalls memoryClient ctx lib userID m, OF m]
      FetchTransactionRelationships_frame[of writeCalls memoryClient ctx lib txID m, OF m]
      ShortestPathBetweenUsers_frame[of writeCalls memoryClient ctx lib sourceID targetID m, OF m]
      w
    by simp
qed

section \<open>Linked transactions\<close>

lemma set_others:
  "set (others tid attr g) =
     {TransactionNode other | other.
        (TransactionNode other, HAS_ATTRIBUTE, attributeNode attr) \<in> set (rels g) \<and> other \<noteq> tid}"
proof -
  have "\<And>r n. n \<in> set (otherWith tid (attributeNode attr) r) \<longleftrightarrow>
          (\<exists>other. n = TransactionNode other \<and> r = (TransactionNode other, HAS_ATTRIBUTE, attributeNode attr)
             \<and> other \<noteq> tid)"
  proof -
    fix r n
    show "n \<in> set (otherWith tid (attributeNode attr) r) \<longleftrightarrow>
          (\<exists>other. n = TransactionNode other \<and> r = (TransactionNode other, HAS_ATTRIBUTE, attributeNode attr)
             \<and> other \<noteq> tid)"
      by (cases "(tid, attributeNode attr, r)" rule: otherWith.cases) auto
  qed
  then show ?thesis
    by (auto simp: others_def attributeNode_def)
qed

lemma set_linkRows:
  "set (linkRows tid attrs g) =
     {(attr, other). attr \<in> set attrs \<and> other \<in> set (others tid attr g)}"
  by (auto simp: linkRows_def)

lemma set_rels_run_upsertTransactionCypher:
  assumes "usersPresent p g"
  shows "set (rels (snd (run_upsertTransactionCypher now p g))) =
     set (rels g) \<union> set (transactionRelTargets p)
       \<union> linkRel (tp_transactionId p) ` set (transactionLinkRows p g)
       \<union> (if pmLinked p g then {pmRel p} else {})"
  by (auto simp: rels_run_upsertTransactionCypher[OF assms])

lemma linkedRow_mem:
  "row \<in> set (linkedRow tid ps r) \<longleftrightarrow>
     (\<exists>h ty other. r = (TransactionNode tid, LINKED_TO h ty, TransactionNode other) \<and>
        row = [(''otherTransactionId'', AString other), (''linkType'', AString ty),
               (''attributeHash'', AString h), (''score'', index ps ''score''),
               (''updatedAt'', index ps ''updatedAt'')])"
  by (cases "(tid, ps, r)" rule: linkedRow.cases) auto

lemma Fetch_linked:
  assumes "txID \<noteq> ''''"
  shows "\<exists>us. fst (FetchTransactionRelationships lib (neo4jClient env) Active txID g) =
     Inr \<lparr>tr_TransactionID = txID, tr_Users = us,
          tr_LinkedTransactions = map (linkedOf lib) (run_transactionLinkedCypher txID g)\<rparr>"
  using assms
  by (simp add: FetchTransactionRelationships_def fetchTransactionUsers_def
      fetchLinkedTransactions_def neo4jClient_def session_Run_def ctx_Done_def linkedOf_def)

lemma transactionParamsOf_keys [simp]:
  "tp_transactionId (transactionParamsOf lib env now input) = ti_ID input"
  "tp_senderId (transactionParamsOf lib env now input) = ti_SenderUserID input"
  "tp_receiverId (transactionParamsOf lib env now input) = ti_ReceiverUserID input"
  "tp_attributes (transactionParamsOf lib env now input) = attributeParams (FromTransaction lib input)"
  by (simp_all add: transactionParamsOf_def upsertTransactionParams_def transactionFromInput_def
      Let_def)

lemma usersPresent_usersStored [simp]:
  "usersPresent (transactionParamsOf lib env now input) g = usersStored input g"
  by (simp add: usersPresent_def usersStored_def)

lemma graph_UpsertTransaction_valid:
  "validTransaction input \<Longrightarrow>
   snd (RelationshipService_UpsertTransaction (graphService lib env now) Active input g)
     = snd (run_upsertTransactionCypher (datetime env) (transactionParamsOf lib env now input) g)"
  by (simp add: graph_UpsertTransaction_state validTransaction_def transactionParamsOf_def)

lemma ipParam_FromTransaction:
  "TrimSpace (ti_IPAddress input) \<noteq> '''' \<Longrightarrow>
   ipParam lib (TrimSpace (ti_IPAddress input)) \<in> set (attributeParams (FromTransaction lib input))"
  by (simp add: FromTransaction_def attributeParams_def ipParam_def Let_def
      AttributeTypeIPAddress_def)

lemma usersStored_after:
  "usersStored input g \<Longrightarrow> usersPresent p g \<Longrightarrow>
   usersStored input (snd (run_upsertTransactionCypher now p g))"
  by (simp add: usersStored_def nodes_run_upsertTransactionCypher)

lemma rels_after_superset:
  "set (rels g) \<subseteq> set (rels (snd (run_upsertTransactionCypher now p g)))"
  by (cases "usersPresent p g")
    (auto simp: set_rels_run_upsertTransactionCypher run_upsertTransactionCypher_absent)

lemma linked_rel_fetched:
  assumes "txID \<noteq> ''''"
    and "(TransactionNode txID, LINKED_TO h ty, TransactionNode other) \<in> set (rels g)"
  shows "\<exists>r. fst (FetchTransactionRelationships lib (neo4jClient env) Active txID g) = Inr r \<and>
           (\<exists>l\<in>set (tr_LinkedTransactions r). lt_TransactionID l = other \<and> lt_LinkType l = ty)"
proof -
  from Fetch_linked[OF assms(1), of lib env g] obtain us where
    f: "fst (FetchTransactionRelationships lib (neo4jClient env) Active txID g) =
     Inr \<lparr>tr_TransactionID = txID, tr_Users = us,
          tr_LinkedTransactions = map (linkedOf lib) (run_transactionLinkedCypher txID g)\<rparr>"
    by blast
  let ?r = "(TransactionNode txID, LINKED_TO h ty, TransactionNode other)"
  let ?row = "[(''otherTransactionId'', AString other), (''linkType'', AString ty),
               (''attributeHash'', AString h), (''score'', index (relProps g ?r) ''score''),
               (''updatedAt'', index (relProps g ?r) ''updatedAt'')]"
  have "?row \<in> set (run_transactionLinkedCypher txID g)"
    unfolding run_transactionLinkedCypher_def using assms(2)
    by (auto simp: linkedRow_mem intro!: bexI[of _ ?r])
  then have "linkedOf lib ?row \<in> set (map (linkedOf lib) (run_transactionLinkedCypher txID g))"
    by simp
  moreover have "lt_TransactionID (linkedOf lib ?row) = other" "lt_LinkType (linkedOf lib ?row) = ty"
    by (simp_all add: linkedOf_def index_def toString_def)
  ultimately show ?thesis using f by auto
qed

lemma fetched_linked_rel:
  assumes "txID \<noteq> ''''"
    and "\<And>h ty. (TransactionNode txID, LINKED_TO h ty, TransactionNode other) \<notin> set (rels g)"
  shows "\<exists>r. fst (FetchTransactionRelationships lib (neo4jClient env) Active txID g) = Inr r \<and>
           list_all (\<lambda>l. lt_TransactionID l \<noteq> other) (tr_LinkedTransactions r)"
proof -
  from Fetch_linked[OF assms(1), of lib env g] obtain us where
    f: "fst (FetchTransactionRelationships lib (neo4jClient env) Active txID g) =
     Inr \<lparr>tr_TransactionID = txID, tr_Users = us,
          tr_LinkedTransactions = map (linkedOf lib) (run_transactionLinkedCypher txID g)\<rparr>"
    by blast
  have "\<And>row. row \<in> set (run_transactionLinkedCypher txID g) \<Longrightarrow>
          lt_TransactionID (linkedOf lib row) \<noteq> other"
  proof -
    fix row assume "row \<in> set (run_transactionLinkedCypher txID g)"
    then obtain r where r: "r \<in> set (rels g)" "row \<in> set (linkedRow txID (relProps g r) r)"
      by (auto simp: run_transactionLinkedCypher_def)
    then obtain h ty oth where
      "r = (TransactionNode txID, LINKED_TO h ty, TransactionNode oth)"
      "lt_TransactionID (linkedOf lib row) = oth"
      by (auto simp: linkedRow_mem linkedOf_def index_def toString_def)
    with r(1) assms(2) show "lt_TransactionID (linkedOf lib row) \<noteq> other" by auto
  qed
  then have "list_all (\<lambda>l. lt_TransactionID l \<noteq> other)
               (map (linkedOf lib) (run_transactionLinkedCypher txID g))"
    by (auto simp: list_all_iff)
  with f show ?thesis by auto
qed

lemma second_links_to_first:
  assumes v: "validTransaction first" "validTransaction second"
    and d: "ti_ID first \<noteq> ti_ID second"
    and u: "usersStored first g" "usersStored second g"
    and ip: "TrimSpace (ti_IPAddress first) = TrimSpace (ti_IPAddress second)"
            "TrimSpace (ti_IPAddress first) \<noteq> ''''"
  shows "(TransactionNode (ti_ID second),
          LINKED_TO (hashValue lib (TrimSpace (ti_IPAddress first))) ''IP'',
          TransactionNode (ti_ID first))
         \<in> set (rels (snd (RelationshipService_UpsertTransaction (graphService lib env' now') Active
               second
               (snd (RelationshipService_UpsertTransaction (graphService lib env now) Active
                  first g)))))"
proof -
  let ?p1 = "transactionParamsOf lib env now first"
  let ?p2 = "transactionParamsOf lib env' now' second"
  let ?g1 = "snd (run_upsertTransactionCypher (datetime env) ?p1 g)"
  let ?g2 = "snd (run_upsertTransactionCypher (datetime env') ?p2 ?g1)"
  let ?a = "ipParam lib (TrimSpace (ti_IPAddress first))"
  have up1: "usersPresent ?p1 g" using u(1) by simp
  have up2: "usersPresent ?p2 ?g1" using usersStored_after[OF u(2) up1] by simp
  have a1: "?a \<in> set (tp_attributes ?p1)" using ipParam_FromTransaction[OF ip(2)] by simp
  have a2: "?a \<in> set (tp_attributes ?p2)"
    using ipParam_FromTransaction[of second lib] ip by simp
  have "(TransactionNode (ti_ID first), HAS_ATTRIBUTE, attributeNode ?a)
          \<in> set (transactionRelTargets ?p1)"
    using a1 by (auto simp: transactionRelTargets_def)
  then have h1: "(TransactionNode (ti_ID first), HAS_ATTRIBUTE, attributeNode ?a) \<in> set (rels ?g1)"
    by (simp add: set_rels_run_upsertTransactionCypher[OF up1])
  then have "(TransactionNode (ti_ID first), HAS_ATTRIBUTE, attributeNode ?a)
               \<in> set (rels (beforeLinking ?p2 ?g1))"
    by (simp add: beforeLinking_def)
  then have "TransactionNode (ti_ID first) \<in> set (others (ti_ID second) ?a (beforeLinking ?p2 ?g1))"
    using d by (auto simp: set_others)
  then have "(?a, TransactionNode (ti_ID first)) \<in> set (transactionLinkRows ?p2 ?g1)"
    using a2 by (simp add: transactionLinkRows_def set_linkRows)
  then have "linkRel (ti_ID second) (?a, TransactionNode (ti_ID first)) \<in> set (rels ?g2)"
    by (auto simp: set_rels_run_upsertTransactionCypher[OF up2])
  then show ?thesis
    by (simp add: graph_UpsertTransaction_valid[OF v(1)] graph_UpsertTransaction_valid[OF v(2)]
        linkRel_def ipParam_def)
qed

lemma first_does_not_link_to_second:
  assumes v: "validTransaction first" "validTransaction second"
    and d: "ti_ID first \<noteq> ti_ID second"
    and u: "usersStored first g" "usersStored second g"
    and f: "untouched (TransactionNode (ti_ID second)) g"
  shows "(TransactionNode (ti_ID first), LINKED_TO h ty, TransactionNode (ti_ID second))
         \<notin> set (rels (snd (RelationshipService_UpsertTransaction (graphService lib env' now') Active
               second
               (snd (RelationshipService_UpsertTransaction (graphService lib env now) Active
                  first g)))))"
proof -
  let ?p1 = "transactionParamsOf lib env now first"
  let ?p2 = "transactionParamsOf lib env' now' second"
  let ?g1 = "snd (run_upsertTransactionCypher (datetime env) ?p1 g)"
  let ?g2 = "snd (run_upsertTransactionCypher (datetime env') ?p2 ?g1)"
  let ?r = "(TransactionNode (ti_ID first), LINKED_TO h ty, TransactionNode (ti_ID second))"
  have up1: "usersPresent ?p1 g" using u(1) by simp
  have up2: "usersPresent ?p2 ?g1" using usersStored_after[OF u(2) up1] by simp
  have f': "\<And>r. r \<in> set (rels g) \<Longrightarrow> fst r \<noteq> TransactionNode (ti_ID second)
               \<and> snd (snd r) \<noteq> TransactionNode (ti_ID second)"
    using f by (auto simp: untouched_def list_all_iff)
  have n0: "?r \<notin> set (rels g)" using f' by fastforce
  have n1: "?r \<notin> set (transactionRelTargets ?p1)"
    by (auto simp: transactionRelTargets_def)
  have n2: "?r \<notin> linkRel (ti_ID first) ` set (transactionLinkRows ?p1 g)"
  proof
    assume "?r \<in> linkRel (ti_ID first) ` set (transactionLinkRows ?p1 g)"
    then obtain attr where
      "TransactionNode (ti_ID second) \<in> set (others (ti_ID first) attr (beforeLinking ?p1 g))"
      by (auto simp: linkRel_def transactionLinkRows_def set_linkRows)
    then have "(TransactionNode (ti_ID second), HAS_ATTRIBUTE, attributeNode attr)
                 \<in> set (rels g) \<union> set (transactionRelTargets ?p1)"
      by (auto simp: set_others beforeLinking_def)
    then show False
      using f' d by (fastforce simp: transactionRelTargets_def)
  qed
  have n3: "?r \<noteq> pmRel ?p1" by (simp add: pmRel_def)
  have g1: "?r \<notin> set (rels ?g1)"
    using n0 n1 n2 n3 by (auto simp: set_rels_run_upsertTransactionCypher[OF up1] split: if_splits)
  have m1: "?r \<notin> set (transactionRelTargets ?p2)"
    using d by (auto simp: transactionRelTargets_def)
  have m2: "?r \<notin> linkRel (ti_ID second) ` set (transactionLinkRows ?p2 ?g1)"
    using d by (auto simp: linkRel_def)
  have m3: "?r \<noteq> pmRel ?p2" by (simp add: pmRel_def)
  have "?r \<notin> set (rels ?g2)"
    using g1 m1 m2 m3 by (auto simp: set_rels_run_upsertTransactionCypher[OF up2] split: if_splits)
  then show ?thesis
    by (simp add: graph_UpsertTransaction_valid[OF v(1)] graph_UpsertTransaction_valid[OF v(2)])
qed

lemma afterUser_userInput:
  "uid \<noteq> '''' \<Longrightarrow>
   nodes (afterUser lib env now (userInput uid) g) = mergeAll [UserNode uid] (nodes g) \<and>
   rels (afterUser lib env now (userInput uid) g) = rels g"
  by (simp add: afterUser_def graph_UpsertUser_state nodes_run_upsertUserCypher
      rels_run_upsertUserCypher userNodeTargets_def userRelTargets_def upsertUserParams_keys(1,2)
      FromUser_userInput attributeParams_def)
    (simp add: userInput_def upsertUserParams_def userFromInput_def paymentMethodParams_def Let_def
      graphService_def NewRelationshipService_def)

lemma storeWithUsers_shape:
  "nodes storeWithUsers = [UserNode ''USR-A'', UserNode ''USR-B'']" "rels storeWithUsers = []"
  by (simp_all add: storeWithUsers_def afterUser_userInput emptyGraph_def)

lemma example_transactions:
  "validTransaction firstTransaction" "validTransaction secondTransaction"
  "ti_ID firstTransaction \<noteq> ti_ID secondTransaction"
  "usersStored firstTransaction storeWithUsers" "usersStored secondTransaction storeWithUsers"
  "untouched (TransactionNode (ti_ID secondTransaction)) storeWithUsers"
  by (simp_all add: validTransaction_def usersStored_def untouched_def firstTransaction_def
      secondTransaction_def transactionInput_def storeWithUsers_shape)

lemma example_ip:
  "TrimSpace (ti_IPAddress firstTransaction) = ''203.0.113.24''"
  "TrimSpace (ti_IPAddress secondTransaction) = ''203.0.113.24''"
  by code_simp+

lemma example_attributeKeys:
  "attributeKeys (FromTransaction exampleLib firstTransaction)
     = [(''IP'', ''hash:203.0.113.24''), (''TX_DAY_BUCKET'', ''hash:day'')]"
  "attributeKeys (FromTransaction exampleLib secondTransaction)
     = [(''IP'', ''hash:203.0.113.24''), (''TX_DAY_BUCKET'', ''hash:dayI'')]"
  by (simp_all add: attributeKeys_def FromTransaction_def Let_def example_ip
      AttributeTypeIPAddress_def hashValue_def exampleLib_def UTC_def)
    (simp_all add: firstTransaction_def secondTransaction_def transactionInput_def
      TrimSpace_Nil)

text \<open>
  Claim C1, as the code has it. The upsert statement merges a \<^verbatim>\<open>LINKED_TO\<close> edge from the
  transaction being written to every transaction that already carries one of its attributes, and
  \<^verbatim>\<open>transactionLinkedCypher\<close> follows these edges from the queried transaction only. So for
  two valid transactions with the same non-empty trimmed IP address, whose users are stored, the
  second of which is new to the store: after the first and then the second have been upserted,
  \<^verbatim>\<open>FetchTransactionRelationships\<close> on the second returns the first among its linked
  transactions with link type \<^verbatim>\<open>IP\<close>, and on the first it returns no entry for the second.
\<close>

theorem linked_transactions_follow_ingestion_order:
  assumes "validTransaction first" "validTransaction second"
    and "ti_ID first \<noteq> ti_ID second"
    and "usersStored first g" "usersStored second g"
    and "untouched (TransactionNode (ti_ID second)) g"
    and "TrimSpace (ti_IPAddress first) = TrimSpace (ti_IPAddress second)"
    and "TrimSpace (ti_IPAddress first) \<noteq> ''''"
  shows "(\<exists>r. fst (FetchTransactionRelationships lib (neo4jClient env) Active (ti_ID second)
                  (afterTransaction lib env now' second (afterTransaction lib env now first g)))
               = Inr r \<and>
              (\<exists>l\<in>set (tr_LinkedTransactions r).
                  lt_TransactionID l = ti_ID first \<and> lt_LinkType l = ''IP'')) \<and>
         (\<exists>r. fst (FetchTransactionRelationships lib (neo4jClient env) Active (ti_ID first)
                  (afterTransaction lib env now' second (afterTransaction lib env now first g)))
               = Inr r \<and>
              list_all (\<lambda>l. lt_TransactionID l \<noteq> ti_ID second) (tr_LinkedTransactions r))"
proof (rule conjI)
  have id2: "ti_ID second \<noteq> ''''" and id1: "ti_ID first \<noteq> ''''"
    using assms(1,2) by (simp_all add: validTransaction_def)
  show "\<exists>r. fst (FetchTransactionRelationships lib (neo4jClient env) Active (ti_ID second)
                  (afterTransaction lib env now' second (afterTransaction lib env now first g)))
               = Inr r \<and>
              (\<exists>l\<in>set (tr_LinkedTransactions r).
                  lt_TransactionID l = ti_ID first \<and> lt_LinkType l = ''IP'')"
    unfolding afterTransaction_def
    by (rule linked_rel_fetched[OF id2
          second_links_to_first[OF assms(1,2,3,4,5,7,8)]])
  show "\<exists>r. fst (FetchTransactionRelationships lib (neo4jClient env) Active (ti_ID first)
                  (afterTransaction lib env now' second (afterTransaction lib env now first g)))
               = Inr r \<and>
              list_all (\<lambda>l. lt_TransactionID l \<noteq> ti_ID second) (tr_LinkedTransactions r)"
    unfolding afterTransaction_def
    by (rule fetched_linked_rel[OF id1
          first_does_not_link_to_second[OF assms(1,2,3,4,5,6)]])
qed

theorem linked_transactions_follow_ingestion_order_witness:
  "(\<exists>r. fst (FetchTransactionRelationships exampleLib (neo4jClient exampleEnv) Active ''TX-2''
            storeWithBoth) = Inr r \<and>
        (\<exists>l\<in>set (tr_LinkedTransactions r). lt_TransactionID l = ''TX-1'' \<and> lt_LinkType l = ''IP'')) \<and>
   (\<exists>r. fst (FetchTransactionRelationships exampleLib (neo4jClient exampleEnv) Active ''TX-1''
            storeWithBoth) = Inr r \<and>
        list_all (\<lambda>l. lt_TransactionID l \<noteq> ''TX-2'') (tr_LinkedTransactions r))"
proof -
  have ids: "ti_ID firstTransaction = ''TX-1''" "ti_ID secondTransaction = ''TX-2''"
    by (simp_all add: firstTransaction_def secondTransaction_def transactionInput_def)
  have ip: "TrimSpace (ti_IPAddress firstTransaction) = TrimSpace (ti_IPAddress secondTransaction)"
    "TrimSpace (ti_IPAddress firstTransaction) \<noteq> ''''"
    by (simp_all add: example_ip)
  from linked_transactions_follow_ingestion_order[OF example_transactions ip,
      of exampleLib exampleEnv 0 0]
  show ?thesis
    by (simp only: ids storeWithBoth_def[symmetric])
qed

text \<open>
  Claim C1 as stated fails for the transaction ingested first: \<^verbatim>\<open>TX-1\<close> and \<^verbatim>\<open>TX-2\<close> share the
  IP attribute and nothing else, both have been upserted, and the linked transactions fetched for
  \<^verbatim>\<open>TX-1\<close> do not contain \<^verbatim>\<open>TX-2\<close>.
\<close>

theorem first_transaction_misses_second:
  "set (attributeKeys (FromTransaction exampleLib firstTransaction))
     \<inter> set (attributeKeys (FromTransaction exampleLib secondTransaction))
     = {(''IP'', ''hash:203.0.113.24'')} \<and>
   (\<exists>r. fst (FetchTransactionRelationships exampleLib (neo4jClient exampleEnv) Active ''TX-1''
            storeWithBoth) = Inr r \<and>
        list_all (\<lambda>l. lt_TransactionID l \<noteq> ''TX-2'') (tr_LinkedTransactions r))"
proof -
  have ids: "ti_ID firstTransaction = ''TX-1''" "ti_ID secondTransaction = ''TX-2''"
    by (simp_all add: firstTransaction_def secondTransaction_def transactionInput_def)
  have "\<exists>r. fst (FetchTransactionRelationships exampleLib (neo4jClient exampleEnv) Active
                  (ti_ID firstTransaction) storeWithBoth) = Inr r \<and>
        list_all (\<lambda>l. lt_TransactionID l \<noteq> ti_ID secondTransaction) (tr_LinkedTransactions r)"
    unfolding storeWithBoth_def afterTransaction_def
    by (rule fetched_linked_rel[OF _ first_does_not_link_to_second[OF example_transactions]])
      (simp add: ids)
  then show ?thesis
    by (simp add: ids example_attributeKeys)
qed

section \<open>Bulk ingestion\<close>

lemma drain_no_cancellation:
  "list_all (\<lambda>e. \<not> cancellation e) es \<Longrightarrow> drain acc (map Some es) = asError (acc @ es)"
  by (induction es arbitrary: acc) (simp_all add: cancellation_def)

lemma drain_cancellation:
  "list_all (\<lambda>e. \<not> cancellation e) es \<Longrightarrow> cancellation e
     \<Longrightarrow> drain acc (map Some es @ Some e # rest) = Some e"
  by (induction es arbitrary: acc) (simp_all add: cancellation_def)

lemma map_of_selecting:
  "i \<in> fst ` set xs \<Longrightarrow> \<exists>e. map_of xs i = Some e \<and> (i, e) \<in> set xs"
  by (induction xs) auto

lemma length_remove1_Suc: "x \<in> set xs \<Longrightarrow> Suc (length (remove1 x xs)) = length xs"
  by (induction xs) auto

lemma settled_step:
  assumes W1: "\<And>t i s. i < tot \<Longrightarrow> invalid i \<Longrightarrow> \<exists>e. V e \<and> workerFn t Active i s = (Some e, s)"
    and W2: "\<And>t i s. i < tot \<Longrightarrow> \<not> invalid i \<Longrightarrow> keeps s \<Longrightarrow>
               fst (workerFn t Active i s) = None \<and> stored i (snd (workerFn t Active i s))"
    and W3: "\<And>t i s. i < tot \<Longrightarrow> keeps s \<Longrightarrow> keeps (snd (workerFn t Active i s))"
    and W4: "\<And>t i j s. i < tot \<Longrightarrow> keeps s \<Longrightarrow> stored j s \<Longrightarrow> stored j (snd (workerFn t Active i s))"
    and nc: "\<not> isCancel ev"
    and en: "enabled n tot ev r"
    and I: "settled tot invalid V keeps stored r"
  shows "settled tot invalid V keeps stored (step workerFn ev r)"
proof (cases ev)
  case (Call j t)
  from I have ctx: "rs_ctx r = Active" and iv: "keeps (rs_store r)"
    by (simp_all add: settled_def)
  from en Call have j: "j < tot" "j \<notin> fst ` set (rs_returned r)" by simp_all
  show ?thesis
  proof (cases "invalid j")
    case True
    from W1[OF j(1) True, of t "rs_store r"] obtain e where
      e: "V e" "workerFn t Active j (rs_store r) = (Some e, rs_store r)" by blast
    show ?thesis using I j True e
      by (auto simp add: settled_def Call ctx)
  next
    case False
    obtain x s' where w: "workerFn t Active j (rs_store r) = (x, s')"
      by (cases "workerFn t Active j (rs_store r)")
    from W2[OF j(1) False iv, of t] w have x: "x = None" and st: "stored j s'" by simp_all
    from W3[OF j(1) iv, of t] w have iv': "keeps s'" by simp
    have keep: "\<And>i. stored i (rs_store r) \<Longrightarrow> stored i s'"
      using W4[OF j(1) iv, of _ t] w by simp
    show ?thesis using I j False st iv' keep
      by (auto simp add: settled_def Call ctx w x)
  qed
next
  case (Select i a)
  from I have ctx: "rs_ctx r = Active" by (simp add: settled_def)
  from en Select ctx have a: "a = SendErr" and i: "i \<in> fst ` set (rs_selecting r)"
    by (cases a; simp add: ctx_Done_def)+
  from map_of_selecting[OF i] obtain e where
    e: "map_of (rs_selecting r) i = Some e" "(i, e) \<in> set (rs_selecting r)" by blast
  from I e(2) have Ve: "V e" by (auto simp add: settled_def list_all_iff)
  from e(2) have len: "Suc (length (remove1 (i, e) (rs_selecting r))) = length (rs_selecting r)"
    by (rule length_remove1_Suc)
  have sub: "list_all V (map snd (remove1 (i, e) (rs_selecting r)))"
    using I by (auto simp add: settled_def list_all_iff dest: notin_set_remove1)
  from I obtain es where es: "rs_errCh r = map Some es" "list_all V es"
    "length es + length (rs_selecting r) = length (filter invalid (map fst (rs_returned r)))"
    by (auto simp add: settled_def)
  have "rs_errCh r @ [Some e] = map Some (es @ [e]) \<and> list_all V (es @ [e]) \<and>
        length (es @ [e]) + length (remove1 (i, e) (rs_selecting r))
          = length (filter invalid (map fst (rs_returned r)))"
    using es Ve len by simp
  then have ex: "\<exists>es'. rs_errCh r @ [Some e] = map Some es' \<and> list_all V es' \<and>
        length es' + length (remove1 (i, e) (rs_selecting r))
          = length (filter invalid (map fst (rs_returned r)))" by blast
  show ?thesis using I sub ex
    by (simp add: settled_def Select a e(1))
next
  case (Cancel c)
  with nc show ?thesis by simp
qed

lemma settled_exec:
  assumes W1: "\<And>t i s. i < tot \<Longrightarrow> invalid i \<Longrightarrow> \<exists>e. V e \<and> workerFn t Active i s = (Some e, s)"
    and W2: "\<And>t i s. i < tot \<Longrightarrow> \<not> invalid i \<Longrightarrow> keeps s \<Longrightarrow>
               fst (workerFn t Active i s) = None \<and> stored i (snd (workerFn t Active i s))"
    and W3: "\<And>t i s. i < tot \<Longrightarrow> keeps s \<Longrightarrow> keeps (snd (workerFn t Active i s))"
    and W4: "\<And>t i j s. i < tot \<Longrightarrow> keeps s \<Longrightarrow> stored j s \<Longrightarrow> stored j (snd (workerFn t Active i s))"
  shows "list_all (\<lambda>ev. \<not> isCancel ev) sched \<Longrightarrow> settled tot invalid V keeps stored r
     \<Longrightarrow> exec n tot workerFn sched r = Some r'
     \<Longrightarrow> settled tot invalid V keeps stored r' \<and> finished tot r'"
proof (induction sched arbitrary: r)
  case Nil
  then show ?case by (simp split: if_splits)
next
  case (Cons ev sched)
  from Cons.prems(3) have en: "enabled n tot ev r"
    and ex: "exec n tot workerFn sched (step workerFn ev r) = Some r'"
    by (simp_all split: if_splits)
  from Cons.prems(1) have nc: "\<not> isCancel ev" and rest: "list_all (\<lambda>ev. \<not> isCancel ev) sched"
    by simp_all
  have "settled tot invalid V keeps stored (step workerFn ev r)"
    by (rule settled_step[where workerFn = workerFn and n = n, OF W1 W2 W3 W4 nc en Cons.prems(2)])
  from Cons.IH[OF rest this ex] show ?case .
qed

lemma finished_count:
  assumes "settled tot invalid V keeps stored r" "finished tot r"
  shows "length (filter invalid (map fst (rs_returned r))) = length (filter invalid [0..<tot])"
    and "\<forall>i<tot. invalid i \<or> stored i (rs_store r)"
proof -
  let ?xs = "map fst (rs_returned r)"
  from assms have len: "length ?xs = tot"
    by (simp add: settled_def finished_def ctx_Done_def)
  from assms(1) have d: "distinct ?xs" and sub: "set ?xs \<subseteq> {..<tot}"
    by (auto simp add: settled_def)
  have c: "card (set ?xs) = tot" using distinct_card[OF d] len by simp
  have eq: "set ?xs = {..<tot}" using sub c by (intro card_subset_eq) simp_all
  have "length (filter invalid ?xs) = card ({x. invalid x} \<inter> set ?xs)"
    using d by (rule distinct_length_filter)
  also have "\<dots> = card ({x. invalid x} \<inter> set [0..<tot])"
    using eq by (simp add: atLeast0LessThan)
  also have "\<dots> = length (filter invalid [0..<tot])"
    by (rule distinct_length_filter[symmetric]) simp
  finally show "length (filter invalid ?xs) = length (filter invalid [0..<tot])" .
  show "\<forall>i<tot. invalid i \<or> stored i (rs_store r)"
  proof (intro allI impI)
    fix i assume "i < tot"
    with eq have "i \<in> set ?xs" by simp
    with assms(1) show "invalid i \<or> stored i (rs_store r)"
      by (auto simp add: settled_def)
  qed
qed

lemma filter_indices:
  "length (filter (\<lambda>i. P (xs ! i)) [0..<length xs]) = length (filter P xs)"
proof -
  have "filter P xs = filter P (map ((!) xs) [0..<length xs])" by (simp add: map_nth)
  also have "\<dots> = map ((!) xs) (filter (P \<circ> (!) xs) [0..<length xs])" by (simp add: filter_map)
  finally show ?thesis by (simp add: comp_def)
qed

lemma run_no_cancel:
  assumes W1: "\<And>t i s. i < tot \<Longrightarrow> invalid i \<Longrightarrow> \<exists>e. V e \<and> workerFn t Active i s = (Some e, s)"
    and W2: "\<And>t i s. i < tot \<Longrightarrow> \<not> invalid i \<Longrightarrow> keeps s \<Longrightarrow>
               fst (workerFn t Active i s) = None \<and> stored i (snd (workerFn t Active i s))"
    and W3: "\<And>t i s. i < tot \<Longrightarrow> keeps s \<Longrightarrow> keeps (snd (workerFn t Active i s))"
    and W4: "\<And>t i j s. i < tot \<Longrightarrow> keeps s \<Longrightarrow> stored j s \<Longrightarrow> stored j (snd (workerFn t Active i s))"
    and V: "\<And>e. V e \<Longrightarrow> \<not> cancellation e"
    and nc: "list_all (\<lambda>ev. \<not> isCancel ev) sched"
    and k: "keeps s"
    and R: "run bi Active tot workerFn sched s = Some (res, s')"
  shows "\<exists>es. res = asError es \<and> length es = length (filter invalid [0..<tot]) \<and> list_all V es"
    and "\<forall>i<tot. invalid i \<or> stored i s'"
proof -
  from R obtain r where
    E: "exec (workers bi) tot workerFn sched (start Active s) = Some r"
    and res: "res = (if tot = 0 then None else drain [] (rs_errCh r))" and s': "s' = rs_store r"
    by (auto simp add: run_def split: option.splits)
  have I: "settled tot invalid V keeps stored (start Active s)"
    using k by (simp add: settled_def start_def)
  from settled_exec[where workerFn = workerFn and V = V and keeps = keeps and stored = stored
        and invalid = invalid, OF W1 W2 W3 W4 nc I E]
  have S: "settled tot invalid V keeps stored r" and F: "finished tot r" by simp_all
  from S obtain es where es: "rs_errCh r = map Some es" "list_all V es"
    "length es + length (rs_selecting r) = length (filter invalid (map fst (rs_returned r)))"
    by (auto simp add: settled_def)
  from F have "rs_selecting r = []" by (simp add: finished_def)
  with es(3) finished_count(1)[OF S F]
  have len: "length es = length (filter invalid [0..<tot])" by simp
  from es(2) V have "list_all (\<lambda>e. \<not> cancellation e) es" by (auto simp add: list_all_iff)
  then have dr: "drain [] (rs_errCh r) = asError es"
    using drain_no_cancellation[of es "[]"] es(1) by simp
  have "res = asError es"
  proof (cases "tot = 0")
    case True
    with len have "es = []" by simp
    with True res show ?thesis by (simp add: asError_def)
  next
    case False
    with res dr show ?thesis by simp
  qed
  with len es(2)
  show "\<exists>es. res = asError es \<and> length es = length (filter invalid [0..<tot]) \<and> list_all V es"
    by blast
  from finished_count(2)[OF S F] s' show "\<forall>i<tot. invalid i \<or> stored i s'" by simp
qed

lemma service_graph:
  "(service (NewBulkIngestor (graphService lib env now) n))\<lparr>nowFn := t\<rparr> = graphService lib env t"
  by (simp add: NewBulkIngestor_def graphService_def NewRelationshipService_def)

lemma graph_UpsertUser_result:
  "fst (RelationshipService_UpsertUser lib (graphService lib env now) Active input g)
     = (if ui_ID input = '''' then Some (ErrorString ''user ID is required'') else None)"
  by (simp add: RelationshipService_UpsertUser_def graphService_def NewRelationshipService_def
      repository_New_def Repository_UpsertUser_def neo4jClient_def session_Run_active
      userFromInput_def Let_def)

lemma graph_UpsertTransaction_result:
  "fst (RelationshipService_UpsertTransaction (graphService lib env now) Active input g)
     = (if ti_ID input = '''' then Some (ErrorString ''transaction ID is required'')
        else if ti_SenderUserID input = '''' \<or> ti_ReceiverUserID input = ''''
        then Some (ErrorString ''sender and receiver user IDs are required'')
        else None)"
  by (simp add: RelationshipService_UpsertTransaction_def graphService_def
      NewRelationshipService_def DefaultAttributeGenerator_def
      repository_New_def Repository_UpsertTransaction_def neo4jClient_def session_Run_active
      transactionFromInput_def Let_def)

lemma usersWorkerFn_graph:
  "usersWorkerFn lib (NewBulkIngestor (graphService lib env now) n) inputs t Active i g
     = (if ui_ID (inputs ! i) = '''' then (Some (ErrorString ''user ID is required''), g)
        else (None, afterUser lib env t (inputs ! i) g))"
  by (simp add: usersWorkerFn_def service_graph afterUser_def prod_eq_iff
      graph_UpsertUser_result graph_UpsertUser_state)

lemma transactionsWorkerFn_graph:
  "transactionsWorkerFn (NewBulkIngestor (graphService lib env now) n) inputs t Active i g
     = (if ti_ID (inputs ! i) = '''' then (Some (ErrorString ''transaction ID is required''), g)
        else if ti_SenderUserID (inputs ! i) = '''' \<or> ti_ReceiverUserID (inputs ! i) = ''''
        then (Some (ErrorString ''sender and receiver user IDs are required''), g)
        else (None, afterTransaction lib env t (inputs ! i) g))"
  by (simp add: transactionsWorkerFn_def service_graph afterTransaction_def prod_eq_iff
      graph_UpsertTransaction_result graph_UpsertTransaction_state)

lemma nodes_afterUser:
  "ui_ID input \<noteq> '''' \<Longrightarrow>
   set (nodes (afterUser lib env t input g))
     = set (userNodeTargets (upsertUserParams lib (userFromInput lib (graphService lib env t) input)))
         \<union> set (nodes g)"
  by (simp add: afterUser_def graph_UpsertUser_state nodes_run_upsertUserCypher)

lemma nodes_afterTransaction:
  "validTransaction input \<Longrightarrow>
   set (nodes (afterTransaction lib env t input g))
     = (if usersStored input g
        then set (transactionNodeTargets (transactionParamsOf lib env t input)) \<union> set (nodes g)
        else set (nodes g))"
  by (simp add: afterTransaction_def graph_UpsertTransaction_valid
      nodes_run_upsertTransactionCypher run_upsertTransactionCypher_absent)

lemma sequential_no_cancel:
  "list_all (\<lambda>ev. \<not> isCancel ev) (sequential workerFn t xs s)"
  by (induction xs arbitrary: s) (auto split: prod.splits option.splits)

lemma exec_sequential:
  assumes n: "1 \<le> n"
  shows "m \<le> tot \<Longrightarrow> rs_ctx r = Active \<Longrightarrow> rs_selecting r = [] \<Longrightarrow> rs_exited r = 0
     \<Longrightarrow> fst ` set (rs_returned r) = {..<m} \<Longrightarrow> length (rs_returned r) = m
     \<Longrightarrow> \<exists>r'. exec n tot workerFn (sequential workerFn t [m..<tot] (rs_store r)) r = Some r'"
proof (induction "tot - m" arbitrary: m r)
  case 0
  then have "m = tot" by simp
  with 0 show ?case
    by (auto simp add: finished_def list_all_iff)
next
  case (Suc d)
  then have m: "m < tot" by simp
  then have upt: "[m..<tot] = m # [Suc m..<tot]" by (simp add: upt_conv_Cons)
  have none: "filter (\<lambda>i. i \<notin> fst ` set (rs_returned r)) [0..<m] = []"
    using Suc.prems(5) by (auto simp add: filter_empty_conv)
  have en: "enabled n tot (Call m t) r"
    using m n Suc.prems none by simp
  obtain x s' where w: "workerFn t Active m (rs_store r) = (x, s')"
    by (cases "workerFn t Active m (rs_store r)")
  have d: "d = tot - Suc m" using Suc.hyps(2) by simp
  have ret: "insert m {..<m} = {..<Suc m}" by auto
  show ?case
  proof (cases x)
    case None
    let ?r1 = "r\<lparr>rs_store := s', rs_returned := (m, None) # rs_returned r\<rparr>"
    have "\<exists>r'. exec n tot workerFn (sequential workerFn t [Suc m..<tot] (rs_store ?r1)) ?r1 = Some r'"
      using m Suc.prems ret by (intro Suc.hyps(1)[OF d]) simp_all
    then show ?thesis
      using en by (simp add: upt w None Suc.prems(2))
  next
    case (Some e)
    let ?r1 = "r\<lparr>rs_store := s', rs_returned := (m, Some e) # rs_returned r,
                  rs_selecting := [], rs_errCh := rs_errCh r @ [Some e]\<rparr>"
    have "\<exists>r'. exec n tot workerFn (sequential workerFn t [Suc m..<tot] (rs_store ?r1)) ?r1 = Some r'"
      using m Suc.prems ret by (intro Suc.hyps(1)[OF d]) simp_all
    then show ?thesis
      using en by (simp add: upt w Some Suc.prems(2,3))
  qed
qed

lemma run_sequential:
  "\<exists>res s'. run (NewBulkIngestor svc n) Active tot workerFn
               (sequential workerFn t [0..<tot] s) s = Some (res, s')"
proof -
  have "1 \<le> workers (NewBulkIngestor svc n)" by (simp add: NewBulkIngestor_def)
  from exec_sequential[OF this, of 0 tot "start Active s" workerFn t]
  obtain r' where "exec (workers (NewBulkIngestor svc n)) tot workerFn
                     (sequential workerFn t [0..<tot] s) (start Active s) = Some r'"
    by (auto simp add: start_def)
  then show ?thesis by (simp add: run_def)
qed

lemma UserNode_stored:
  "ui_ID input \<noteq> '''' \<Longrightarrow> UserNode (ui_ID input) \<in> set (nodes (afterUser lib env t input g))"
  by (simp add: nodes_afterUser userNodeTargets_def upsertUserParams_keys(1))

lemma nodes_afterUser_mono:
  "set (nodes g) \<subseteq> set (nodes (afterUser lib env t input g))"
  by (auto simp add: afterUser_def graph_UpsertUser_state nodes_run_upsertUserCypher)

lemma TransactionNode_stored:
  "validTransaction input \<Longrightarrow> usersStored input g
     \<Longrightarrow> TransactionNode (ti_ID input) \<in> set (nodes (afterTransaction lib env t input g))"
  by (simp add: nodes_afterTransaction transactionNodeTargets_def)

lemma nodes_afterTransaction_mono:
  "set (nodes g) \<subseteq> set (nodes (afterTransaction lib env t input g))"
proof (cases "validTransaction input")
  case True
  then show ?thesis by (auto simp add: nodes_afterTransaction)
next
  case False
  then show ?thesis
    by (auto simp add: afterTransaction_def graph_UpsertTransaction_state validTransaction_def)
qed

lemma IngestUsers_no_cancel:
  assumes nc: "list_all (\<lambda>ev. \<not> isCancel ev) sched"
    and R: "IngestUsers lib (NewBulkIngestor (graphService lib env now) n) Active batch sched g
              = Some (res, g')"
  shows "(\<exists>es. res = asError es \<and> length es = length (filter (\<lambda>u. ui_ID u = '''') batch) \<and>
               list_all (\<lambda>e. e = ErrorString ''user ID is required'') es) \<and>
         list_all (\<lambda>u. ui_ID u = '''' \<or> UserNode (ui_ID u) \<in> set (nodes g')) batch"
proof -
  let ?f = "usersWorkerFn lib (NewBulkIngestor (graphService lib env now) n) batch"
  let ?invalid = "\<lambda>i. ui_ID (batch ! i) = ''''"
  let ?V = "\<lambda>e. e = ErrorString ''user ID is required''"
  let ?stored = "\<lambda>i (s::graph). UserNode (ui_ID (batch ! i)) \<in> set (nodes s)"
  from R have R': "run (NewBulkIngestor (graphService lib env now) n) Active (length batch) ?f sched g
                     = Some (res, g')"
    by (simp add: IngestUsers_def)
  have W1: "\<And>t i s. i < length batch \<Longrightarrow> ?invalid i \<Longrightarrow> \<exists>e. ?V e \<and> ?f t Active i s = (Some e, s)"
    by (simp add: usersWorkerFn_graph)
  have W2: "\<And>t i s. i < length batch \<Longrightarrow> \<not> ?invalid i \<Longrightarrow> True \<Longrightarrow>
               fst (?f t Active i s) = None \<and> ?stored i (snd (?f t Active i s))"
    by (simp add: usersWorkerFn_graph UserNode_stored)
  have W3: "\<And>t i s. i < length batch \<Longrightarrow> True \<Longrightarrow> True" by simp
  have W4: "\<And>t i j s. i < length batch \<Longrightarrow> True \<Longrightarrow> ?stored j s \<Longrightarrow> ?stored j (snd (?f t Active i s))"
    by (auto simp add: usersWorkerFn_graph intro: subsetD[OF nodes_afterUser_mono])
  have V: "\<And>e. ?V e \<Longrightarrow> \<not> cancellation e" by (simp add: cancellation_def)
  note r = run_no_cancel[where invalid = ?invalid and V = ?V and keeps = "\<lambda>s. True"
      and stored = ?stored and workerFn = ?f, OF W1 W2 W3 W4 V nc TrueI R']
  from r(1) have A: "\<exists>es. res = asError es \<and> length es = length (filter (\<lambda>u. ui_ID u = '''') batch) \<and>
               list_all ?V es"
    by (simp add: filter_indices[where P = "\<lambda>u. ui_ID u = ''''"])
  from r(2) have B: "list_all (\<lambda>u. ui_ID u = '''' \<or> UserNode (ui_ID u) \<in> set (nodes g')) batch"
    by (auto simp add: list_all_length)
  from A B show ?thesis by blast
qed

lemma IngestTransactions_no_cancel:
  assumes nc: "list_all (\<lambda>ev. \<not> isCancel ev) sched"
    and us: "list_all (\<lambda>tx. usersStored tx g) (filter validTransaction batch)"
    and R: "IngestTransactions (NewBulkIngestor (graphService lib env now) n) Active batch sched g
              = Some (res, g')"
  shows "(\<exists>es. res = asError es \<and>
               length es = length (filter (\<lambda>tx. \<not> validTransaction tx) batch) \<and>
               list_all (\<lambda>e. e = ErrorString ''transaction ID is required'' \<or>
                             e = ErrorString ''sender and receiver user IDs are required'') es) \<and>
         list_all (\<lambda>tx. TransactionNode (ti_ID tx) \<in> set (nodes g'))
           (filter validTransaction batch)"
proof -
  let ?f = "transactionsWorkerFn (NewBulkIngestor (graphService lib env now) n) batch"
  let ?invalid = "\<lambda>i. \<not> validTransaction (batch ! i)"
  let ?V = "\<lambda>e. e = ErrorString ''transaction ID is required'' \<or>
                  e = ErrorString ''sender and receiver user IDs are required''"
  let ?keeps = "\<lambda>s::graph. set (nodes g) \<subseteq> set (nodes s)"
  let ?stored = "\<lambda>i (s::graph). TransactionNode (ti_ID (batch ! i)) \<in> set (nodes s)"
  from R have R': "run (NewBulkIngestor (graphService lib env now) n) Active (length batch) ?f sched g
                     = Some (res, g')"
    by (simp add: IngestTransactions_def)
  have us': "\<And>i. i < length batch \<Longrightarrow> validTransaction (batch ! i) \<Longrightarrow> usersStored (batch ! i) g"
    using us by (auto simp add: list_all_iff)
  have W1: "\<And>t i s. i < length batch \<Longrightarrow> ?invalid i \<Longrightarrow> \<exists>e. ?V e \<and> ?f t Active i s = (Some e, s)"
    by (auto simp add: transactionsWorkerFn_graph validTransaction_def)
  have W2: "\<And>t i s. i < length batch \<Longrightarrow> \<not> ?invalid i \<Longrightarrow> ?keeps s \<Longrightarrow>
               fst (?f t Active i s) = None \<and> ?stored i (snd (?f t Active i s))"
  proof -
    fix t i s assume i: "i < length batch" and v: "\<not> ?invalid i" and k: "?keeps s"
    from us'[OF i] v k have "usersStored (batch ! i) s" by (auto simp add: usersStored_def)
    with v show "fst (?f t Active i s) = None \<and> ?stored i (snd (?f t Active i s))"
      by (simp add: transactionsWorkerFn_graph TransactionNode_stored)
        (simp add: validTransaction_def)
  qed
  have mono: "\<And>t i s. set (nodes s) \<subseteq> set (nodes (snd (?f t Active i s)))"
    by (auto simp add: transactionsWorkerFn_graph intro: subsetD[OF nodes_afterTransaction_mono])
  have W3: "\<And>t i s. i < length batch \<Longrightarrow> ?keeps s \<Longrightarrow> ?keeps (snd (?f t Active i s))"
    using mono by blast
  have W4: "\<And>t i j s. i < length batch \<Longrightarrow> ?keeps s \<Longrightarrow> ?stored j s \<Longrightarrow> ?stored j (snd (?f t Active i s))"
    using mono by blast
  have V: "\<And>e. ?V e \<Longrightarrow> \<not> cancellation e" by (auto simp add: cancellation_def)
  have k0: "?keeps g" by simp
  note r = run_no_cancel[where invalid = ?invalid and V = ?V and keeps = ?keeps
      and stored = ?stored and workerFn = ?f, OF W1 W2 W3 W4 V nc k0 R']
  from r(1) have A: "\<exists>es. res = asError es \<and>
               length es = length (filter (\<lambda>tx. \<not> validTransaction tx) batch) \<and> list_all ?V es"
    by (simp add: filter_indices[where P = "\<lambda>tx. \<not> validTransaction tx"])
  from r(2) have B: "list_all (\<lambda>tx. TransactionNode (ti_ID tx) \<in> set (nodes g'))
           (filter validTransaction batch)"
    by (auto simp add: list_all_iff in_set_conv_nth)
  from A B show ?thesis by blast
qed

lemma usersWorkerFn_stub:
  "usersWorkerFn exampleLib (NewBulkIngestor stubService n) inputs t ctx i s
     = (if ui_ID (inputs ! i) = '''' then (Some (ErrorString ''user ID is required''), s)
        else case userErr s of
               Some e \<Rightarrow> (Some e, s)
             | None \<Rightarrow> (None, s\<lparr>users := users s @ [userFromInput exampleLib (stubService\<lparr>nowFn := t\<rparr>)
                                                        (inputs ! i)]\<rparr>))"
  by (simp add: usersWorkerFn_def NewBulkIngestor_def stubService_def NewRelationshipService_def
      RelationshipService_UpsertUser_def stubRepo_def stubRepository_UpsertUser_def
      split: option.splits)

lemma workers_NewBulkIngestor: "workers (NewBulkIngestor svc n) = (if n \<le> 0 then 4 else n)"
  by (simp add: NewBulkIngestor_def)

lemma ui_ID_userInput: "ui_ID (userInput uid) = uid"
  by (simp add: userInput_def)

lemma bulkUsers_calls:
  "usersWorkerFn lib (NewBulkIngestor (graphService lib env now) n) bulkUsers t Active 0 g
     = (None, afterUser lib env t (userInput ''USR-A'') g)"
  "usersWorkerFn lib (NewBulkIngestor (graphService lib env now) n) bulkUsers t Active (Suc 0) g
     = (Some (ErrorString ''user ID is required''), g)"
  "usersWorkerFn lib (NewBulkIngestor (graphService lib env now) n) bulkUsers t Active (Suc (Suc 0)) g
     = (None, afterUser lib env t (userInput ''USR-B'') g)"
  by (simp_all add: usersWorkerFn_graph bulkUsers_def ui_ID_userInput)

lemma bulkUsers_interleaved:
  "IngestUsers exampleLib (NewBulkIngestor (graphService exampleLib exampleEnv 0) 2) Active bulkUsers
     interleaved emptyGraph
     = Some (Some (TaskError [ErrorString ''user ID is required'']), storeWithUsers)"
proof -
  have len: "length bulkUsers = 3" by (simp add: bulkUsers_def)
  show ?thesis
    by (simp add: IngestUsers_def run_def interleaved_def start_def bulkUsers_calls len
        workers_NewBulkIngestor finished_def asError_def storeWithUsers_def numeral_2_eq_2)
qed

lemma transactionInput_keys:
  "ti_ID (transactionInput tid sender receiver ip ts) = tid"
  "ti_SenderUserID (transactionInput tid sender receiver ip ts) = sender"
  "ti_ReceiverUserID (transactionInput tid sender receiver ip ts) = receiver"
  by (simp_all add: transactionInput_def)

lemma bulkTransactions_calls:
  "transactionsWorkerFn (NewBulkIngestor (graphService lib env now) n) bulkTransactions t Active 0 g
     = (None, afterTransaction lib env t firstTransaction g)"
  "transactionsWorkerFn (NewBulkIngestor (graphService lib env now) n) bulkTransactions t Active
     (Suc 0) g = (Some (ErrorString ''transaction ID is required''), g)"
  "transactionsWorkerFn (NewBulkIngestor (graphService lib env now) n) bulkTransactions t Active
     (Suc (Suc 0)) g = (None, afterTransaction lib env t secondTransaction g)"
  by (simp_all add: transactionsWorkerFn_graph bulkTransactions_def transactionInput_keys
      firstTransaction_def secondTransaction_def)

lemma bulkTransactions_inOrder:
  "IngestTransactions (NewBulkIngestor (graphService exampleLib exampleEnv 0) 2) Active
     bulkTransactions inOrder storeWithUsers
     = Some (Some (TaskError [ErrorString ''transaction ID is required'']), storeWithBoth)"
proof -
  have len: "length bulkTransactions = 3" by (simp add: bulkTransactions_def)
  show ?thesis
    by (simp add: IngestTransactions_def run_def inOrder_def start_def bulkTransactions_calls len
        workers_NewBulkIngestor finished_def asError_def storeWithBoth_def numeral_2_eq_2)
qed

lemma failingStub_calls:
  "usersWorkerFn exampleLib (NewBulkIngestor stubService n) [userInput ''USR-1'', userInput ''USR-2'']
     t ctx 0 failingStub = (Some (ErrorString ''boom''), failingStub)"
  "usersWorkerFn exampleLib (NewBulkIngestor stubService n) [userInput ''USR-1'', userInput ''USR-2'']
     t ctx (Suc 0) failingStub = (Some (ErrorString ''boom''), failingStub)"
  by (simp_all add: usersWorkerFn_stub ui_ID_userInput failingStub_def emptyStub_def)

lemma mixedUsers_calls:
  "usersWorkerFn exampleLib (NewBulkIngestor stubService n) mixedUsers t ctx 0 cancelledStub
     = (Some (ErrorString ''user ID is required''), cancelledStub)"
  "usersWorkerFn exampleLib (NewBulkIngestor stubService n) mixedUsers t ctx (Suc 0) cancelledStub
     = (Some context_Canceled, cancelledStub)"
  by (simp_all add: usersWorkerFn_stub mixedUsers_def ui_ID_userInput cancelledStub_def
      emptyStub_def)

text \<open>
  Claim C5, with what it leaves out.  A batch is ingested into the graph store through a
  context that is not cancelled during the run (and, for transactions, the users of every valid
  item are stored beforehand).  Then, whatever the order in which the workers run: the error
  returned is \<open>asError\<close> of exactly as many errors as items miss a required key, each of them
  the validation error of the service, so it is nil when no item misses a key; and afterwards
  the store holds the node of every other item.  Such a run always has an execution.
\<close>

theorem bulk_partial_failure:
  "(list_all (\<lambda>ev. \<not> isCancel ev) sched \<and>
    IngestUsers lib (NewBulkIngestor (graphService lib env now) n) Active batch sched g = Some (res, g')
    \<longrightarrow> (\<exists>es. res = asError es \<and> length es = length (filter (\<lambda>u. ui_ID u = '''') batch) \<and>
              list_all (\<lambda>e. e = ErrorString ''user ID is required'') es) \<and>
        list_all (\<lambda>u. ui_ID u = '''' \<or> UserNode (ui_ID u) \<in> set (nodes g')) batch) \<and>
   (\<exists>sched res g'. list_all (\<lambda>ev. \<not> isCancel ev) sched \<and>
      IngestUsers lib (NewBulkIngestor (graphService lib env now) n) Active batch sched g
        = Some (res, g')) \<and>
   (list_all (\<lambda>ev. \<not> isCancel ev) sched' \<and>
    list_all (\<lambda>tx. usersStored tx g) (filter validTransaction txs) \<and>
    IngestTransactions (NewBulkIngestor (graphService lib env now) n) Active txs sched' g
      = Some (res', g'')
    \<longrightarrow> (\<exists>es. res' = asError es \<and>
              length es = length (filter (\<lambda>tx. \<not> validTransaction tx) txs) \<and>
              list_all (\<lambda>e. e = ErrorString ''transaction ID is required'' \<or>
                            e = ErrorString ''sender and receiver user IDs are required'') es) \<and>
        list_all (\<lambda>tx. TransactionNode (ti_ID tx) \<in> set (nodes g''))
          (filter validTransaction txs)) \<and>
   (\<exists>sched res g'. list_all (\<lambda>ev. \<not> isCancel ev) sched \<and>
      IngestTransactions (NewBulkIngestor (graphService lib env now) n) Active txs sched g
        = Some (res, g'))"
proof (intro conjI impI)
  assume a: "list_all (\<lambda>ev. \<not> isCancel ev) sched \<and>
    IngestUsers lib (NewBulkIngestor (graphService lib env now) n) Active batch sched g = Some (res, g')"
  from IngestUsers_no_cancel[OF conjunct1[OF a] conjunct2[OF a]]
  show "\<exists>es. res = asError es \<and> length es = length (filter (\<lambda>u. ui_ID u = '''') batch) \<and>
              list_all (\<lambda>e. e = ErrorString ''user ID is required'') es"
    and "list_all (\<lambda>u. ui_ID u = '''' \<or> UserNode (ui_ID u) \<in> set (nodes g')) batch"
    by simp_all
next
  let ?f = "usersWorkerFn lib (NewBulkIngestor (graphService lib env now) n) batch"
  from run_sequential[of "graphService lib env now" n "length batch" ?f 0 g]
    sequential_no_cancel[of ?f 0 "[0..<length batch]" g]
  show "\<exists>sched res g'. list_all (\<lambda>ev. \<not> isCancel ev) sched \<and>
      IngestUsers lib (NewBulkIngestor (graphService lib env now) n) Active batch sched g
        = Some (res, g')"
    unfolding IngestUsers_def by blast
next
  assume a: "list_all (\<lambda>ev. \<not> isCancel ev) sched' \<and>
    list_all (\<lambda>tx. usersStored tx g) (filter validTransaction txs) \<and>
    IngestTransactions (NewBulkIngestor (graphService lib env now) n) Active txs sched' g
      = Some (res', g'')"
  then have a1: "list_all (\<lambda>ev. \<not> isCancel ev) sched'"
    and a2: "list_all (\<lambda>tx. usersStored tx g) (filter validTransaction txs)"
    and a3: "IngestTransactions (NewBulkIngestor (graphService lib env now) n) Active txs sched' g
      = Some (res', g'')" by blast+
  from IngestTransactions_no_cancel[OF a1 a2 a3]
  show "\<exists>es. res' = asError es \<and>
              length es = length (filter (\<lambda>tx. \<not> validTransaction tx) txs) \<and>
              list_all (\<lambda>e. e = ErrorString ''transaction ID is required'' \<or>
                            e = ErrorString ''sender and receiver user IDs are required'') es"
    and "list_all (\<lambda>tx. TransactionNode (ti_ID tx) \<in> set (nodes g''))
          (filter validTransaction txs)"
    by simp_all
next
  let ?f = "transactionsWorkerFn (NewBulkIngestor (graphService lib env now) n) txs"
  from run_sequential[of "graphService lib env now" n "length txs" ?f 0 g]
    sequential_no_cancel[of ?f 0 "[0..<length txs]" g]
  show "\<exists>sched res g'. list_all (\<lambda>ev. \<not> isCancel ev) sched \<and>
      IngestTransactions (NewBulkIngestor (graphService lib env now) n) Active txs sched g
        = Some (res, g')"
    unfolding IngestTransactions_def by blast
qed

theorem bulk_partial_failure_witness:
  "IngestUsers exampleLib (NewBulkIngestor (graphService exampleLib exampleEnv 0) 2) Active bulkUsers
     interleaved emptyGraph
     = Some (Some (TaskError [ErrorString ''user ID is required'']), storeWithUsers) \<and>
   list_all (\<lambda>u. ui_ID u = '''' \<or> UserNode (ui_ID u) \<in> set (nodes storeWithUsers)) bulkUsers \<and>
   IngestTransactions (NewBulkIngestor (graphService exampleLib exampleEnv 0) 2) Active
     bulkTransactions inOrder storeWithUsers
     = Some (Some (TaskError [ErrorString ''transaction ID is required'']), storeWithBoth) \<and>
   list_all (\<lambda>tx. TransactionNode (ti_ID tx) \<in> set (nodes storeWithBoth))
     (filter validTransaction bulkTransactions)"
proof -
  have nc: "list_all (\<lambda>ev. \<not> isCancel ev) interleaved" "list_all (\<lambda>ev. \<not> isCancel ev) inOrder"
    by (simp_all add: interleaved_def inOrder_def)
  have us: "list_all (\<lambda>tx. usersStored tx storeWithUsers) (filter validTransaction bulkTransactions)"
    by (simp add: bulkTransactions_def example_transactions validTransaction_def
        transactionInput_def)
  from bulk_partial_failure[of interleaved exampleLib exampleEnv 0 2 bulkUsers emptyGraph
      "Some (TaskError [ErrorString ''user ID is required''])" storeWithUsers]
    nc(1) bulkUsers_interleaved
  have A: "list_all (\<lambda>u. ui_ID u = '''' \<or> UserNode (ui_ID u) \<in> set (nodes storeWithUsers)) bulkUsers"
    by blast
  from bulk_partial_failure[where sched' = inOrder and lib = exampleLib and env = exampleEnv
      and now = 0 and n = 2 and txs = bulkTransactions and g = storeWithUsers
      and res' = "Some (TaskError [ErrorString ''transaction ID is required''])"
      and g'' = storeWithBoth]
    nc(2) us bulkTransactions_inOrder
  have B: "list_all (\<lambda>tx. TransactionNode (ti_ID tx) \<in> set (nodes storeWithBoth))
     (filter validTransaction bulkTransactions)"
    by blast
  from A B bulkUsers_interleaved bulkTransactions_inOrder show ?thesis by blast
qed

text \<open>
  Claim C5 as stated fails when the repository returns errors, as in the test
  \<open>TestBulkIngestorAggregatesErrors\<close>: no item of the batch misses its key and no error is a
  cancellation, yet the ingestion returns a \<open>TaskError\<close> with two entries and stores nothing.
\<close>

theorem store_errors_are_aggregated:
  "filter (\<lambda>u. ui_ID u = '''') [userInput ''USR-1'', userInput ''USR-2''] = [] \<and>
   \<not> cancellation (ErrorString ''boom'') \<and>
   IngestUsers exampleLib (NewBulkIngestor stubService 2) Active [userInput ''USR-1'', userInput ''USR-2'']
     bothFail failingStub
     = Some (Some (TaskError [ErrorString ''boom'', ErrorString ''boom'']), failingStub)"
  by (simp add: IngestUsers_def run_def bothFail_def start_def failingStub_calls
      ui_ID_userInput workers_NewBulkIngestor finished_def asError_def cancellation_def
      numeral_2_eq_2)

text \<open>
  Claim C4 fails in the code.  A worker whose call returned an error waits in
  \<^verbatim>\<open>select { case errCh <- err: case <-ctx.Done(): return }\<close>; once the context is done both arms
  are ready, and when the second is taken the error is dropped.  The service runs over the
  stub repository of the tests, whose user upsert answers \<open>context.Canceled\<close>.  In the
  execution \<open>cancelledMidway\<close> the first item is rejected by validation and its error is sent,
  the context is cancelled, the call for the second item returns the cancellation error and
  its worker leaves through \<open>ctx.Done\<close>: \<open>IngestUsers\<close> returns the \<open>TaskError\<close> of the
  validation error, not the cancellation error.
\<close>

theorem cancellation_error_dropped:
  "map_option rs_returned
     (exec 2 2 (usersWorkerFn exampleLib (NewBulkIngestor stubService 2) mixedUsers)
        cancelledMidway (start Active cancelledStub))
     = Some [(1, Some context_Canceled), (0, Some (ErrorString ''user ID is required''))] \<and>
   cancellation context_Canceled \<and>
   IngestUsers exampleLib (NewBulkIngestor stubService 2) Active mixedUsers cancelledMidway
     cancelledStub
     = Some (Some (TaskError [ErrorString ''user ID is required'']), cancelledStub)"
proof -
  have len: "length mixedUsers = Suc (Suc 0)" by (simp add: mixedUsers_def)
  show ?thesis
    by (simp add: IngestUsers_def run_def cancelledMidway_def start_def mixedUsers_calls len
        workers_NewBulkIngestor finished_def asError_def cancellation_def ctx_Done_def
        numeral_2_eq_2)
qed

section \<open>Users with the phone digits 00\<close>

lemma distinct_mergeAll: "distinct ys \<Longrightarrow> distinct (mergeAll xs ys)"
  by (induction xs arbitrary: ys) auto

lemma rels_afterUser:
  "ui_ID input \<noteq> '''' \<Longrightarrow>
   set (rels (afterUser lib env t input g))
     = set (userRelTargets (upsertUserParams lib (userFromInput lib (graphService lib env t) input)))
         \<union> set (rels g)"
  by (simp add: afterUser_def graph_UpsertUser_state rels_run_upsertUserCypher)

lemma distinct_nodes_afterUser:
  "distinct (nodes g) \<Longrightarrow> distinct (nodes (afterUser lib env t input g))"
  by (simp add: afterUser_def graph_UpsertUser_state nodes_run_upsertUserCypher distinct_mergeAll)

lemma attributeNode_attributeParams:
  "a \<in> set attrs \<Longrightarrow>
   \<exists>attr \<in> set (attributeParams attrs). attributeNode attr = AttributeNode (Type a) (Value a)"
  by (induction attrs) (auto simp add: attributeParams_def attributeNode_def)

lemma phone_attribute_stored:
  assumes "filter isDigit (ui_Phone input) = ''00''" "ui_ID input \<noteq> ''''"
  shows "(UserNode (ui_ID input), HAS_ATTRIBUTE, AttributeNode ''PHONE'' (hashValue lib ''+''))
           \<in> set (rels (afterUser lib env t input g))"
    and "AttributeNode ''PHONE'' (hashValue lib ''+'') \<in> set (nodes (afterUser lib env t input g))"
proof -
  let ?a = "\<lparr>Type = ''PHONE'', Value = hashValue lib ''+'', RawValue = ''+'',
             ConfidenceScore = 1\<rparr>"
  let ?p = "upsertUserParams lib (userFromInput lib (graphService lib env t) input)"
  have "?a \<in> set (FromUser lib input)"
    using normalizePhone_digits_00[OF assms(1)]
    by (simp add: FromUser_def Let_def AttributeTypePhone_def defaultConfidenceScore_def)
  then have "?a \<in> set (FromUser lib input @ convertCustomAttributes (ui_Attributes input))"
    by simp
  from attributeNode_attributeParams[OF this]
  have m: "\<exists>attr \<in> set (up_attributes ?p).
             attributeNode attr = AttributeNode ''PHONE'' (hashValue lib ''+'')"
    by (simp add: upsertUserParams_keys(2))
  from m obtain attr where
    a: "attr \<in> set (up_attributes ?p)" "AttributeNode ''PHONE'' (hashValue lib ''+'') = attributeNode attr"
    by metis
  show "(UserNode (ui_ID input), HAS_ATTRIBUTE, AttributeNode ''PHONE'' (hashValue lib ''+''))
           \<in> set (rels (afterUser lib env t input g))"
    unfolding a(2) using a(1)
    by (simp add: rels_afterUser[OF assms(2)] userRelTargets_def upsertUserParams_keys(1))
  show "AttributeNode ''PHONE'' (hashValue lib ''+'')
                 \<in> set (nodes (afterUser lib env t input g))"
    unfolding a(2) using a(1)
    by (simp add: nodes_afterUser[OF assms(2)] userNodeTargets_def)
qed

lemma rels_afterUser_mono:
  "set (rels g) \<subseteq> set (rels (afterUser lib env t input g))"
  by (auto simp add: afterUser_def graph_UpsertUser_state rels_run_upsertUserCypher)

lemma count_one: "distinct xs \<Longrightarrow> x \<in> set xs \<Longrightarrow> length (filter (\<lambda>n. n = x) xs) = 1"
  by (induction xs) (auto simp add: filter_empty_conv)

text \<open>
  Claim C10.  When the digits of the phone text are exactly \<open>00\<close>, the digit string is not
  empty, so the early return is not taken; the prefix \<open>00\<close> is then removed, which leaves the
  empty string, and the plus sign is put in front of it.  \<open>normalizePhone\<close> returns \<open>+\<close>,
  which is not empty, so \<open>FromUser\<close> emits the \<open>PHONE\<close> attribute whose value is the hash of
  \<open>+\<close>, with the default confidence 1.  Two such users share its node: after both have been
  upserted into a store whose nodes are distinct, each of them has a \<open>HAS_ATTRIBUTE\<close>
  relationship to the attribute node \<open>PHONE\<close> with that hash, and the store holds that node
  exactly once.
\<close>

theorem normalizePhone_double_zero_plus:
  assumes "filter isDigit (ui_Phone u1) = ''00''" "filter isDigit (ui_Phone u2) = ''00''"
    and "ui_ID u1 \<noteq> ''''" "ui_ID u2 \<noteq> ''''"
    and "distinct (nodes g)"
  shows "normalizePhone (ui_Phone u1) = ''+'' \<and>
         \<lparr>Type = ''PHONE'', Value = hashValue lib ''+'', RawValue = ''+'',
          ConfidenceScore = 1\<rparr> \<in> set (FromUser lib u1) \<and>
         (UserNode (ui_ID u1), HAS_ATTRIBUTE, AttributeNode ''PHONE'' (hashValue lib ''+''))
           \<in> set (rels (afterUser lib env now' u2 (afterUser lib env now u1 g))) \<and>
         (UserNode (ui_ID u2), HAS_ATTRIBUTE, AttributeNode ''PHONE'' (hashValue lib ''+''))
           \<in> set (rels (afterUser lib env now' u2 (afterUser lib env now u1 g))) \<and>
         length (filter (\<lambda>n. n = AttributeNode ''PHONE'' (hashValue lib ''+''))
                   (nodes (afterUser lib env now' u2 (afterUser lib env now u1 g)))) = 1"
proof -
  let ?g1 = "afterUser lib env now u1 g"
  let ?g2 = "afterUser lib env now' u2 ?g1"
  let ?pn = "AttributeNode ''PHONE'' (hashValue lib ''+'')"
  have A: "normalizePhone (ui_Phone u1) = ''+''"
    by (rule normalizePhone_digits_00[OF assms(1)])
  then have B: "\<lparr>Type = ''PHONE'', Value = hashValue lib ''+'', RawValue = ''+'',
                 ConfidenceScore = 1\<rparr> \<in> set (FromUser lib u1)"
    by (simp add: FromUser_def Let_def AttributeTypePhone_def defaultConfidenceScore_def)
  have "(UserNode (ui_ID u1), HAS_ATTRIBUTE, ?pn) \<in> set (rels ?g1)"
    by (rule phone_attribute_stored(1)[OF assms(1,3)])
  then have C: "(UserNode (ui_ID u1), HAS_ATTRIBUTE, ?pn) \<in> set (rels ?g2)"
    using rels_afterUser_mono by blast
  have D: "(UserNode (ui_ID u2), HAS_ATTRIBUTE, ?pn) \<in> set (rels ?g2)"
    by (rule phone_attribute_stored(1)[OF assms(2,4)])
  have "distinct (nodes ?g2)"
    by (intro distinct_nodes_afterUser assms(5))
  moreover have "?pn \<in> set (nodes ?g2)"
    by (rule phone_attribute_stored(2)[OF assms(2,4)])
  ultimately have E: "length (filter (\<lambda>n. n = ?pn) (nodes ?g2)) = 1"
    by (rule count_one)
  from A B C D E show ?thesis by blast
qed

theorem normalizePhone_double_zero_plus_witness:
  "filter isDigit (ui_Phone userDoubleZero) = ''00'' \<and>
   filter isDigit (ui_Phone userDoubleZeroToo) = ''00'' \<and>
   normalizePhone (ui_Phone userDoubleZero) = ''+'' \<and>
   \<lparr>Type = ''PHONE'', Value = ''hash:+'', RawValue = ''+'', ConfidenceScore = 1\<rparr>
     \<in> set (FromUser exampleLib userDoubleZero) \<and>
   (UserNode ''USR-1'', HAS_ATTRIBUTE, AttributeNode ''PHONE'' ''hash:+'')
     \<in> set (rels (afterUser exampleLib exampleEnv 0 userDoubleZeroToo
                     (afterUser exampleLib exampleEnv 0 userDoubleZero emptyGraph))) \<and>
   (UserNode ''USR-2'', HAS_ATTRIBUTE, AttributeNode ''PHONE'' ''hash:+'')
     \<in> set (rels (afterUser exampleLib exampleEnv 0 userDoubleZeroToo
                     (afterUser exampleLib exampleEnv 0 userDoubleZero emptyGraph))) \<and>
   length (filter (\<lambda>n. n = AttributeNode ''PHONE'' ''hash:+'')
             (nodes (afterUser exampleLib exampleEnv 0 userDoubleZeroToo
                       (afterUser exampleLib exampleEnv 0 userDoubleZero emptyGraph)))) = 1"
proof -
  have h: "filter isDigit (ui_Phone userDoubleZero) = ''00''"
    "filter isDigit (ui_Phone userDoubleZeroToo) = ''00''"
    by (simp_all add: userDoubleZero_def userDoubleZeroToo_def isDigit_def)
  have i: "ui_ID userDoubleZero = ''USR-1''" "ui_ID userDoubleZeroToo = ''USR-2''"
    by (simp_all add: userDoubleZero_def userDoubleZeroToo_def userInput_def)
  have d: "distinct (nodes emptyGraph)" by (simp add: emptyGraph_def)
  have n: "ui_ID userDoubleZero \<noteq> ''''" "ui_ID userDoubleZeroToo \<noteq> ''''"
    by (simp_all add: i)
  from normalizePhone_double_zero_plus[OF h n d, of exampleLib exampleEnv 0 0] h
  show ?thesis
    by (simp add: hashValue_def exampleLib_def i)
qed

end
